(* ===== verification/Prelude.thy ===== *)
theory Prelude
  imports Main "HOL-Library.Word" "HOL-Library.AList" "HOL-Library.Monad_Syntax" "HOL-Library.Code_Target_Nat"
begin

text \<open>
  Shared vocabulary of the development: the machine integers of the Rust sources, hash maps
  as association lists (executable, with the lookup function as their meaning), append-if-absent
  vectors, and the collections of simplification and preservation rules that the component
  theories extend.

  A Rust \<open>String\<close>, \<open>&str\<close> or \<open>&[u8]\<close> is a HOL \<open>string\<close>: the list of its bytes (a HOL
  \<open>char\<close> is one byte), so \<open>length\<close> is Rust's \<open>len()\<close>. A call that may panic returns an
  \<open>option\<close> whose \<open>None\<close> is the panic; the type synonym \<open>panicking\<close> marks these results.
\<close>

named_theorems hm_simps \<open>lookup equations of the hash map operations\<close>
named_theorems inv_intros \<open>introduction rules for the component invariants\<close>

section \<open>Machine integers\<close>

type_synonym u8 = "8 word"
type_synonym u16 = "16 word"
type_synonym u32 = "32 word"
type_synonym u64 = "64 word"
type_synonym i64 = int \<comment> \<open>an \<open>i64\<close> value, always kept within its range\<close>

type_synonym 'a panicking = "'a option"

text \<open>Rust's checked and saturating operations.\<close>

definition checked_mul :: "u64 \<Rightarrow> u64 \<Rightarrow> u64 option" where
  "checked_mul a b = (if unat a * unat b < 2 ^ 64 then Some (a * b) else None)"

definition checked_add :: "u64 \<Rightarrow> u64 \<Rightarrow> u64 option" where
  "checked_add a b = (if unat a + unat b < 2 ^ 64 then Some (a + b) else None)"

definition saturating_sub :: "u64 \<Rightarrow> u64 \<Rightarrow> u64" where
  "saturating_sub a b = (if b \<le> a then a - b else 0)"

lemma checked_mul_unat:
  "checked_mul a b = Some c \<Longrightarrow> unat c = unat a * unat b"
  by (auto simp: checked_mul_def unat_word_ariths split: if_splits)

lemma checked_add_unat:
  "checked_add a b = Some c \<Longrightarrow> unat c = unat a + unat b"
  by (auto simp: checked_add_def unat_word_ariths split: if_splits)

lemma saturating_sub_unat: "unat (saturating_sub a b) = unat a - unat b"
  by (auto simp: saturating_sub_def unat_sub word_le_nat_alt)

text \<open>\<open>i64 as u64\<close> and \<open>u64 as i64\<close>: the same bits read with the other sign rule.\<close>

definition i64_as_u64 :: "i64 \<Rightarrow> u64" where
  "i64_as_u64 n = word_of_int n"

definition u64_as_i64 :: "u64 \<Rightarrow> i64" where
  "u64_as_i64 w = sint w"

section \<open>Hash maps\<close>

text \<open>
  A \<open>HashMap\<close> is an association list with distinct keys. The list order carries no meaning:
  where the code iterates over a map, the model takes the order of the iteration as an argument.
\<close>

type_synonym ('k, 'v) hashmap = "('k \<times> 'v) list"

abbreviation hm_get :: "('k, 'v) hashmap \<Rightarrow> 'k \<Rightarrow> 'v option" where
  "hm_get \<equiv> map_of"

abbreviation hm_insert :: "'k \<Rightarrow> 'v \<Rightarrow> ('k, 'v) hashmap \<Rightarrow> ('k, 'v) hashmap" where
  "hm_insert \<equiv> AList.update"

abbreviation hm_keys :: "('k, 'v) hashmap \<Rightarrow> 'k list" where
  "hm_keys m \<equiv> map fst m"

abbreviation hm_wf :: "('k, 'v) hashmap \<Rightarrow> bool" where
  "hm_wf m \<equiv> distinct (hm_keys m)"

definition hm_contains :: "('k, 'v) hashmap \<Rightarrow> 'k \<Rightarrow> bool" where
  "hm_contains m k = (hm_get m k \<noteq> None)"

definition hm_remove :: "'k \<Rightarrow> ('k, 'v) hashmap \<Rightarrow> ('k, 'v) hashmap" where
  "hm_remove k m = filter (\<lambda>(k', v). k' \<noteq> k) m"

text \<open>\<open>get_mut\<close> followed by an update in place.\<close>

definition hm_modify :: "'k \<Rightarrow> ('v \<Rightarrow> 'v) \<Rightarrow> ('k, 'v) hashmap \<Rightarrow> ('k, 'v) hashmap" where
  "hm_modify k f m = map (\<lambda>(k', v). if k' = k then (k', f v) else (k', v)) m"

text \<open>\<open>entry(k).or_insert(v)\<close>: the first value stored under a key stays.\<close>

definition hm_or_insert :: "'k \<Rightarrow> 'v \<Rightarrow> ('k, 'v) hashmap \<Rightarrow> ('k, 'v) hashmap" where
  "hm_or_insert k v m = (if hm_contains m k then m else m @ [(k, v)])"

text \<open>\<open>retain\<close>: keep the entries whose key satisfies the predicate.\<close>

definition hm_retain :: "('k \<Rightarrow> bool) \<Rightarrow> ('k, 'v) hashmap \<Rightarrow> ('k, 'v) hashmap" where
  "hm_retain P m = filter (\<lambda>(k, v). P k) m"

lemma hm_get_insert [hm_simps]: "hm_get (hm_insert k v m) k' = (if k' = k then Some v else hm_get m k')"
  by (simp add: update_conv)

lemma hm_get_remove [hm_simps]: "hm_get (hm_remove k m) k' = (if k' = k then None else hm_get m k')"
  by (induction m) (auto simp: hm_remove_def)

lemma hm_get_modify [hm_simps]:
  "hm_get (hm_modify k f m) k' = (if k' = k then map_option f (hm_get m k) else hm_get m k')"
  by (induction m) (auto simp: hm_modify_def)

lemma hm_get_or_insert [hm_simps]:
  "hm_get (hm_or_insert k v m) k' =
    (if k' = k then Some (case hm_get m k of None \<Rightarrow> v | Some w \<Rightarrow> w) else hm_get m k')"
  by (auto simp: hm_or_insert_def hm_contains_def map_add_def split: option.splits)

lemma hm_get_retain [hm_simps]: "hm_get (hm_retain P m) k = (if P k then hm_get m k else None)"
  by (induction m) (auto simp: hm_retain_def)

lemma hm_keys_modify [simp]: "hm_keys (hm_modify k f m) = hm_keys m"
  by (induction m) (auto simp: hm_modify_def)

lemma hm_wf_insert [simp, intro]: "hm_wf m \<Longrightarrow> hm_wf (hm_insert k v m)"
  by (rule distinct_update)

lemma hm_wf_modify [simp]: "hm_wf (hm_modify k f m) = hm_wf m"
  by (simp only: hm_keys_modify)

lemma hm_keys_remove: "hm_keys (hm_remove k m) = filter (\<lambda>k'. k' \<noteq> k) (hm_keys m)"
  by (induction m) (auto simp: hm_remove_def)

lemma hm_keys_retain: "hm_keys (hm_retain P m) = filter P (hm_keys m)"
  by (induction m) (auto simp: hm_retain_def)

lemma hm_wf_remove [simp, intro]: "hm_wf m \<Longrightarrow> hm_wf (hm_remove k m)"
  by (simp only: hm_keys_remove distinct_filter)

text \<open>\<open>entry(k).or_default().push(v)\<close> on a map of vectors.\<close>

definition hm_push :: "'k \<Rightarrow> 'v \<Rightarrow> ('k, 'v list) hashmap \<Rightarrow> ('k, 'v list) hashmap" where
  "hm_push k v m = hm_insert k ((case hm_get m k of Some l \<Rightarrow> l | None \<Rightarrow> []) @ [v]) m"

definition hm_list :: "('k, 'v list) hashmap \<Rightarrow> 'k \<Rightarrow> 'v list" where
  "hm_list m k = (case hm_get m k of Some l \<Rightarrow> l | None \<Rightarrow> [])"

lemma hm_list_push [hm_simps]: "hm_list (hm_push k v m) k' = hm_list m k' @ (if k' = k then [v] else [])"
  by (simp add: hm_list_def hm_push_def hm_get_insert)

lemma hm_keys_push: "set (hm_keys (hm_push k v m)) = insert k (set (hm_keys m))"
  by (auto simp: hm_push_def update_keys)

lemma hm_list_Nil [simp]: "hm_list [] k = []"
  by (simp add: hm_list_def)

lemma hm_wf_retain [simp, intro]: "hm_wf m \<Longrightarrow> hm_wf (hm_retain P m)"
  by (simp only: hm_keys_retain distinct_filter)

lemma hm_contains_iff: "hm_contains m k \<longleftrightarrow> k \<in> set (hm_keys m)"
  by (simp add: hm_contains_def map_of_eq_None_iff)

lemma hm_wf_or_insert [simp, intro]: "hm_wf m \<Longrightarrow> hm_wf (hm_or_insert k v m)"
  by (auto simp: hm_or_insert_def hm_contains_iff)

lemma hm_keys_insert: "set (hm_keys (hm_insert k v m)) = insert k (set (hm_keys m))"
  by (auto simp: update_keys insert_absorb)

lemma hm_keys_or_insert: "set (hm_keys (hm_or_insert k v m)) = insert k (set (hm_keys m))"
  by (cases "k \<in> set (hm_keys m)") (auto simp: hm_or_insert_def hm_contains_iff)

lemma hm_get_in_set: "hm_wf m \<Longrightarrow> hm_get m k = Some v \<longleftrightarrow> (k, v) \<in> set m"
  by (rule map_of_eq_Some_iff)

lemma hm_length_filter_keys: "length (hm_retain P m) = length (filter P (hm_keys m))"
  by (induction m) (auto simp: hm_retain_def)

text \<open>Lookups stay lookups: the rules above fire on them, not on membership.\<close>

declare map_of_eq_Some_iff [simp del]

section \<open>Append if absent\<close>

text \<open>The idiom \<open>if !v.contains(&x) { v.push(x); }\<close>.\<close>

definition push_unique :: "'a \<Rightarrow> 'a list \<Rightarrow> 'a list" where
  "push_unique x xs = (if x \<in> set xs then xs else xs @ [x])"

lemma set_push_unique [simp]: "set (push_unique x xs) = insert x (set xs)"
  by (auto simp: push_unique_def)

lemma distinct_push_unique [simp]: "distinct (push_unique x xs) = distinct xs"
  by (auto simp: push_unique_def)

lemma push_unique_nonempty [simp]: "push_unique x xs \<noteq> []"
  by (auto simp: push_unique_def)

lemma push_unique_idem [simp]: "push_unique x (push_unique x xs) = push_unique x xs"
  by (auto simp: push_unique_def)

section \<open>Lists of results\<close>

text \<open>A list of computations of which one may panic, and a list without its empty results.\<close>

lemma those_map: "those xs = Some ys \<Longrightarrow> xs = map Some ys"
  by (induction xs arbitrary: ys) (auto split: option.splits)

lemma those_None: "those (map g xs) = None \<longleftrightarrow> (\<exists>x \<in> set xs. g x = None)"
  by (induction xs) (auto split: option.splits)

lemma those_mem: "those xs = Some ys \<Longrightarrow> y \<in> set ys \<longleftrightarrow> Some y \<in> set xs"
  by (drule those_map) auto

lemma map_filter_mem: "y \<in> set (List.map_filter f xs) \<longleftrightarrow> (\<exists>x \<in> set xs. f x = Some y)"
  by (force simp: List.map_filter_def)

section \<open>Iteration orders\<close>

text \<open>
  A \<open>HashMap\<close> or \<open>HashSet\<close> is iterated in an order that depends on its random hash seed. The
  model gets this order as a record of enumeration functions: applied to the keys of a
  collection, each returns them in the order of the iteration.
\<close>

record hash_order =
  ord_str :: "string list \<Rightarrow> string list"
  ord_pid :: "u32 list \<Rightarrow> u32 list"
  ord_idx :: "nat list \<Rightarrow> nat list"

definition hash_order_ok :: "hash_order \<Rightarrow> bool" where
  "hash_order_ok H \<longleftrightarrow>
     (\<forall>xs. set (ord_str H xs) = set xs \<and> distinct (ord_str H xs)) \<and>
     (\<forall>xs. set (ord_pid H xs) = set xs \<and> distinct (ord_pid H xs)) \<and>
     (\<forall>xs. set (ord_idx H xs) = set xs \<and> distinct (ord_idx H xs))"

lemma hash_order_set [simp]:
  assumes "hash_order_ok H"
  shows "set (ord_str H xs) = set xs" "set (ord_pid H ys) = set ys" "set (ord_idx H zs) = set zs"
    "distinct (ord_str H xs)" "distinct (ord_pid H ys)" "distinct (ord_idx H zs)"
  using assms by (simp_all add: hash_order_ok_def)

definition insertion_order :: hash_order where
  "insertion_order = \<lparr>ord_str = remdups, ord_pid = remdups, ord_idx = remdups\<rparr>"

lemma insertion_order_ok [simp]: "hash_order_ok insertion_order"
  by (simp add: hash_order_ok_def insertion_order_def)

end
