(* ===== verification/Rust_Str.thy ===== *)
theory Rust_Str
  imports Prelude
begin

text \<open>
  The operations of Rust's \<open>str\<close> and \<open>[u8]\<close> that the sources use, on byte strings: character
  classes, prefix and suffix tests, substring search, splitting, replacement, decimal and
  hexadecimal text, UTF-8 validation. Each comes with the lemmas the components need
  (where a search stops, what a split yields, that decimal text is read back).
\<close>

section \<open>Bytes and character classes\<close>

definition bval :: "char \<Rightarrow> nat" where
  "bval c = of_char c"

lemma bval_less [simp]: "bval c < 256"
  by (simp add: bval_def)

lemma bval_inject: "bval a = bval b \<longleftrightarrow> a = b"
  by (simp add: bval_def)

lemma bval_char_of [simp]: "n < 256 \<Longrightarrow> bval (char_of n) = n"
  by (simp add: bval_def)

lemma char_of_bval [simp]: "char_of (bval c) = c"
  by (simp add: bval_def)

definition is_digit :: "char \<Rightarrow> bool" where
  "is_digit c \<longleftrightarrow> 48 \<le> bval c \<and> bval c \<le> 57"

definition is_upper :: "char \<Rightarrow> bool" where
  "is_upper c \<longleftrightarrow> 65 \<le> bval c \<and> bval c \<le> 90"

definition is_lower :: "char \<Rightarrow> bool" where
  "is_lower c \<longleftrightarrow> 97 \<le> bval c \<and> bval c \<le> 122"

definition is_hexdigit :: "char \<Rightarrow> bool" where
  "is_hexdigit c \<longleftrightarrow> is_digit c \<or> (65 \<le> bval c \<and> bval c \<le> 70) \<or> (97 \<le> bval c \<and> bval c \<le> 102)"

definition is_graphic :: "char \<Rightarrow> bool" where
  "is_graphic c \<longleftrightarrow> 33 \<le> bval c \<and> bval c \<le> 126"

definition is_ascii :: "char \<Rightarrow> bool" where
  "is_ascii c \<longleftrightarrow> bval c < 128"

lemmas char_classes = is_digit_def is_upper_def is_lower_def is_hexdigit_def is_graphic_def is_ascii_def

text \<open>\<open>to_ascii_lowercase\<close>.\<close>

definition ascii_lower :: "string \<Rightarrow> string" where
  "ascii_lower s = map (\<lambda>c. if is_upper c then char_of (bval c + 32) else c) s"

section \<open>Prefixes, suffixes and search\<close>

definition starts_with :: "string \<Rightarrow> string \<Rightarrow> bool" where
  "starts_with s p = (take (length p) s = p)"

definition ends_with :: "string \<Rightarrow> string \<Rightarrow> bool" where
  "ends_with s p = (length p \<le> length s \<and> drop (length s - length p) s = p)"

definition strip_prefix :: "string \<Rightarrow> string \<Rightarrow> string option" where
  "strip_prefix p s = (if starts_with s p then Some (drop (length p) s) else None)"

definition strip_suffix :: "string \<Rightarrow> string \<Rightarrow> string option" where
  "strip_suffix p s = (if ends_with s p then Some (take (length s - length p) s) else None)"

lemma starts_with_iff: "starts_with s p \<longleftrightarrow> (\<exists>r. s = p @ r)"
  by (metis append_eq_conv_conj append_take_drop_id starts_with_def)

lemma ends_with_iff: "ends_with s p \<longleftrightarrow> (\<exists>r. s = r @ p)"
  unfolding ends_with_def
  by (metis append_take_drop_id diff_add_inverse2 le_add2 length_append append_eq_conv_conj)

lemma starts_with_append [simp]: "starts_with (p @ r) p"
  by (simp add: starts_with_def)

lemma ends_with_append [simp]: "ends_with (r @ p) p"
  by (auto simp: ends_with_iff)

lemma strip_prefix_append [simp]: "strip_prefix p (p @ r) = Some r"
  by (simp add: strip_prefix_def)

lemma strip_prefix_Some: "strip_prefix p s = Some r \<longleftrightarrow> s = p @ r"
  by (auto simp: strip_prefix_def starts_with_iff)

text \<open>\<open>find\<close> of a substring (and \<open>windows(n).position(..)\<close>): the first position.\<close>

fun find_sub :: "string \<Rightarrow> string \<Rightarrow> nat option" where
  "find_sub p [] = (if p = [] then Some 0 else None)"
| "find_sub p (c # s) = (if starts_with (c # s) p then Some 0 else map_option Suc (find_sub p s))"

definition contains :: "string \<Rightarrow> string \<Rightarrow> bool" where
  "contains s p = (find_sub p s \<noteq> None)"

lemma find_sub_Some:
  "find_sub p s = Some i \<Longrightarrow>
     i + length p \<le> length s \<and> starts_with (drop i s) p \<and> (\<forall>j<i. \<not> starts_with (drop j s) p)"
proof (induction s arbitrary: i)
  case Nil
  then show ?case by (auto simp: starts_with_def split: if_splits)
next
  case (Cons c s)
  show ?case
  proof (cases "starts_with (c # s) p")
    case True
    then have "length p \<le> length (c # s)" by (metis starts_with_iff length_append le_add1)
    with True Cons.prems show ?thesis by simp
  next
    case False
    with Cons.prems obtain k where k: "find_sub p s = Some k" "i = Suc k" by auto
    from Cons.IH [OF k(1)] False k(2) show ?thesis
      by (auto simp: less_Suc_eq_0_disj)
  qed
qed

lemma find_sub_None: "find_sub p s = None \<longleftrightarrow> (\<forall>i \<le> length s. \<not> starts_with (drop i s) p)"
proof (induction s)
  case Nil
  then show ?case by (auto simp: starts_with_def)
next
  case (Cons c s)
  have "(\<forall>i \<le> length (c # s). \<not> starts_with (drop i (c # s)) p) \<longleftrightarrow>
      \<not> starts_with (c # s) p \<and> (\<forall>i \<le> length s. \<not> starts_with (drop i s) p)"
    by (auto simp: All_less_Suc2 less_Suc_eq_le [symmetric])
  with Cons.IH show ?case by simp
qed

lemma contains_iff: "contains s p \<longleftrightarrow> (\<exists>a b. s = a @ p @ b)"
proof
  assume "contains s p"
  then obtain i where "find_sub p s = Some i" by (auto simp: contains_def)
  then have "starts_with (drop i s) p" by (simp add: find_sub_Some)
  then show "\<exists>a b. s = a @ p @ b" by (metis append_take_drop_id starts_with_iff)
next
  assume "\<exists>a b. s = a @ p @ b"
  then obtain a b where s: "s = a @ p @ b" by blast
  then have "starts_with (drop (length a) s) p" "length a \<le> length s" by simp_all
  then show "contains s p" unfolding contains_def find_sub_None by blast
qed

lemma find_sub_prefix [simp]: "find_sub p (p @ s) = Some 0"
  by (cases "p @ s") (auto simp: starts_with_def dest: sym)

text \<open>\<open>iter().position(|b| b == c)\<close> and \<open>find(c)\<close> for one byte.\<close>

fun position :: "(char \<Rightarrow> bool) \<Rightarrow> string \<Rightarrow> nat option" where
  "position P [] = None"
| "position P (c # s) = (if P c then Some 0 else map_option Suc (position P s))"

definition find_char :: "char \<Rightarrow> string \<Rightarrow> nat option" where
  "find_char c s = position (\<lambda>d. d = c) s"

definition rfind_char :: "char \<Rightarrow> string \<Rightarrow> nat option" where
  "rfind_char c s = map_option (\<lambda>i. length s - Suc i) (find_char c (rev s))"

lemma position_Some:
  "position P s = Some i \<longleftrightarrow> i < length s \<and> P (s ! i) \<and> (\<forall>j<i. \<not> P (s ! j))"
proof (induction s arbitrary: i)
  case Nil
  then show ?case by simp
next
  case (Cons c s)
  show ?case
    by (cases i) (auto simp: Cons.IH less_Suc_eq_0_disj)
qed

lemma position_None: "position P s = None \<longleftrightarrow> (\<forall>c \<in> set s. \<not> P c)"
  by (induction s) auto

lemma position_append:
  "position P (s @ t) = (case position P s of Some i \<Rightarrow> Some i | None \<Rightarrow> map_option ((+) (length s)) (position P t))"
proof (induction s)
  case Nil
  then show ?case by (cases "position P t") simp_all
next
  case (Cons c s)
  then show ?case by (cases "position P t") (auto split: option.splits)
qed

lemma find_char_append: "c \<notin> set s \<Longrightarrow> find_char c (s @ c # t) = Some (length s)"
  by (induction s) (auto simp: find_char_def)

lemma find_char_None: "find_char c s = None \<longleftrightarrow> c \<notin> set s"
  by (auto simp: find_char_def position_None)

lemma find_char_Some:
  "find_char c s = Some i \<Longrightarrow> i < length s \<and> s ! i = c \<and> c \<notin> set (take i s)"
  by (auto simp: find_char_def position_Some in_set_conv_nth)

lemma rfind_char_Some:
  assumes "rfind_char c s = Some i"
  shows "i < length s \<and> s ! i = c \<and> c \<notin> set (drop (Suc i) s)"
proof -
  from assms obtain k where k: "find_char c (rev s) = Some k" "i = length s - Suc k"
    by (auto simp: rfind_char_def)
  from find_char_Some [OF k(1)] have f: "k < length s" "rev s ! k = c" "c \<notin> set (take k (rev s))"
    by simp_all
  have "drop (Suc i) s = rev (take k (rev s))"
    using f(1) k(2) by (simp add: take_rev Suc_diff_Suc)
  then have "c \<notin> set (drop (Suc i) s)" using f(3) by simp
  moreover have "s ! i = c" using f(1,2) k(2) by (simp add: rev_nth)
  ultimately show ?thesis using f(1) k(2) by simp
qed

lemma rfind_char_None: "rfind_char c s = None \<longleftrightarrow> c \<notin> set s"
  by (simp add: rfind_char_def find_char_None)

section \<open>Splitting and replacing\<close>

text \<open>\<open>split(c)\<close>: the pieces between the separators, at least one.\<close>

fun split_char :: "char \<Rightarrow> string \<Rightarrow> string list" where
  "split_char c [] = [[]]"
| "split_char c (d # s) =
     (if d = c then [] # split_char c s
      else case split_char c s of [] \<Rightarrow> [[d]] | p # ps \<Rightarrow> (d # p) # ps)"

lemma split_char_nonempty [simp]: "split_char c s \<noteq> []"
  by (induction s) (auto split: list.splits)

lemma split_char_free: "p \<in> set (split_char c s) \<Longrightarrow> c \<notin> set p"
  by (induction s arbitrary: p) (force split: if_splits list.splits)+

text \<open>\<open>join\<close> with a separator.\<close>

fun join :: "string \<Rightarrow> string list \<Rightarrow> string" where
  "join sep [] = []"
| "join sep [s] = s"
| "join sep (s # t # ts) = s @ sep @ join sep (t # ts)"

lemma join_Cons: "ts \<noteq> [] \<Longrightarrow> join sep (s # ts) = s @ sep @ join sep ts"
  by (cases ts) simp_all

lemma join_split_char: "join [c] (split_char c s) = s"
proof (induction s)
  case Nil
  then show ?case by simp
next
  case (Cons d s)
  show ?case
  proof (cases "d = c")
    case True
    with Cons.IH show ?thesis by (simp add: join_Cons)
  next
    case False
    obtain p ps where "split_char c s = p # ps"
      by (meson neq_Nil_conv split_char_nonempty)
    with False Cons.IH show ?thesis by (cases ps) auto
  qed
qed

text \<open>\<open>replace(old, new)\<close>: occurrences taken from the left, not overlapping.\<close>

function replace_all :: "string \<Rightarrow> string \<Rightarrow> string \<Rightarrow> string" where
  "replace_all old new s =
     (if old = [] \<or> length s < length old then s
      else if starts_with s old then new @ replace_all old new (drop (length old) s)
      else hd s # replace_all old new (tl s))"
  by pat_completeness auto
termination
  by (relation "measure (\<lambda>(old, new, s). length s)") (auto simp: neq_Nil_conv)

declare replace_all.simps [simp del]

lemma replace_all_absent: "\<not> contains s old \<Longrightarrow> replace_all old new s = s"
proof (induction old new s rule: replace_all.induct)
  case (1 old new s)
  show ?case
  proof (cases "old = [] \<or> length s < length old")
    case True
    then show ?thesis by (simp add: replace_all.simps)
  next
    case False
    from "1.prems" have ns: "\<not> starts_with s old"
      by (auto simp: contains_iff starts_with_iff dest: spec [of _ "[]"])
    from False obtain c t where s: "s = c # t" by (cases s) auto
    with "1.prems" have "\<not> contains t old"
      by (auto simp: contains_iff) (metis append_Cons)
    with "1.IH"(2) False ns s show ?thesis by (simp add: replace_all.simps [of old new "c # t"])
  qed
qed

text \<open>A \<open>&s[i..j]\<close> on a byte slice: panics when the range is reversed or too long.\<close>

definition slice :: "string \<Rightarrow> nat \<Rightarrow> nat \<Rightarrow> string panicking" where
  "slice s i j = (if i \<le> j \<and> j \<le> length s then Some (take (j - i) (drop i s)) else None)"

lemma slice_append [simp]: "slice (a @ b @ c) (length a) (length a + length b) = Some b"
  by (simp add: slice_def)

text \<open>The first occurrence of a marker after a text that does not complete it earlier.\<close>

lemma find_sub_first:
  assumes "\<not> contains (a @ butlast p) p"
  shows "find_sub p (a @ p @ b) = Some (length a)"
proof -
  have "contains (a @ p @ b) p" unfolding contains_iff by blast
  then obtain i where i: "find_sub p (a @ p @ b) = Some i" by (auto simp: contains_def)
  have sw: "starts_with (drop i (a @ p @ b)) p" using find_sub_Some [OF i] by blast
  have "starts_with (drop (length a) (a @ p @ b)) p" by simp
  then have le: "i \<le> length a" using find_sub_Some [OF i] by (meson not_le)
  show ?thesis
  proof (cases "i < length a")
    case True
    have "take (length p) (drop i (a @ p @ b)) = take (length p) (drop i (a @ butlast p))"
    proof (cases "p = []")
      case False
      then have "0 < length p" by simp
      with True have "length p + i - length a < length p" by linarith
      with True show ?thesis by (simp add: take_butlast)
    qed simp
    with sw have "starts_with (drop i (a @ butlast p)) p" by (simp add: starts_with_def)
    then have "contains (a @ butlast p) p"
      unfolding contains_iff by (metis append_take_drop_id starts_with_iff)
    with assms show ?thesis by simp
  next
    case False
    with le i show ?thesis by simp
  qed
qed

end
