(* ===== verification/Rust_Text.thy ===== *)
theory Rust_Text
  imports Rust_Str
begin

text \<open>
  Numbers and characters as text: decimal output of unsigned and signed integers, two-digit
  lower-case hexadecimal, \<open>str::parse\<close> for the integer types, \<open>from_str_radix(_, 16)\<close> for one
  byte, and the UTF-8 validity test behind \<open>str::from_utf8\<close>.
\<close>

section \<open>Decimal text\<close>

definition digit_char :: "nat \<Rightarrow> char" where
  "digit_char d = char_of (48 + d)"

definition digit_val :: "char \<Rightarrow> nat" where
  "digit_val c = bval c - 48"

lemma digit_char_numerals [simp]:
  "digit_char 0 = CHR ''0''" "digit_char (Suc 0) = CHR ''1''" "digit_char 1 = CHR ''1''"
  "digit_char 2 = CHR ''2''" "digit_char 3 = CHR ''3''" "digit_char 4 = CHR ''4''"
  "digit_char 5 = CHR ''5''" "digit_char 6 = CHR ''6''" "digit_char 7 = CHR ''7''"
  "digit_char 8 = CHR ''8''" "digit_char 9 = CHR ''9''"
  by (simp_all add: digit_char_def char_of_def bit_iff_odd)

lemma digit_char_props:
  assumes "d < 10"
  shows "bval (digit_char d) = 48 + d" "is_digit (digit_char d)" "digit_val (digit_char d) = d"
  using assms by (simp_all add: digit_char_def digit_val_def is_digit_def)

fun dec :: "nat \<Rightarrow> string" where
  "dec n = (if n < 10 then [digit_char n] else dec (n div 10) @ [digit_char (n mod 10)])"

declare dec.simps [simp del]

definition digits_val :: "string \<Rightarrow> nat" where
  "digits_val s = foldl (\<lambda>n c. n * 10 + digit_val c) 0 s"

lemma digits_val_snoc [simp]: "digits_val (s @ [c]) = digits_val s * 10 + digit_val c"
  by (simp add: digits_val_def)

lemma digits_val_Nil [simp]: "digits_val [] = 0"
  by (simp add: digits_val_def)

lemma digits_val_zeros: "digits_val (replicate k CHR ''0'' @ s) = digits_val s"
proof -
  have "foldl (\<lambda>n c. n * 10 + digit_val c) 0 (replicate k CHR ''0'') = 0"
    by (induction k) (simp_all add: digit_val_def bval_def)
  then show ?thesis by (simp add: digits_val_def)
qed

lemma dec_nonempty [simp]: "dec n \<noteq> []"
  by (subst dec.simps) simp

lemma dec_digits: "c \<in> set (dec n) \<Longrightarrow> is_digit c"
proof (induction n rule: dec.induct)
  case (1 n)
  show ?case
  proof (cases "n < 10")
    case True
    with "1.prems" show ?thesis by (simp add: dec.simps [of n] digit_char_props)
  next
    case False
    with "1.prems" "1.IH" show ?thesis
      by (auto simp: dec.simps [of n] digit_char_props)
  qed
qed

lemma digits_val_dec [simp]: "digits_val (dec n) = n"
proof (induction n rule: dec.induct)
  case (1 n)
  show ?case
  proof (cases "n < 10")
    case True
    then show ?thesis using digits_val_snoc [of "[]"]
      by (simp add: dec.simps [of n] digit_char_props)
  next
    case False
    with "1.IH" show ?thesis
      by (subst dec.simps) (simp add: digit_char_props)
  qed
qed

lemma dec_inject [simp]: "dec m = dec n \<longleftrightarrow> m = n"
  by (metis digits_val_dec)

lemma dec_not_in:
  assumes "\<not> is_digit c"
  shows "c \<notin> set (dec n)"
  using assms dec_digits by blast

text \<open>Signed output, as \<open>Display\<close> for \<open>i64\<close>.\<close>

definition dec_int :: "int \<Rightarrow> string" where
  "dec_int n = (if n < 0 then CHR ''-'' # dec (nat (- n)) else dec (nat n))"

lemma dec_int_inject [simp]: "dec_int m = dec_int n \<longleftrightarrow> m = n"
proof
  have nd: "dec k \<noteq> CHR ''-'' # s" for k s
    using dec_not_in [of "CHR ''-''" k] by (auto simp: is_digit_def bval_def)
  assume "dec_int m = dec_int n"
  then show "m = n"
    using nd by (auto simp: dec_int_def split: if_splits dest: sym)
qed simp

text \<open>
  \<open>str::parse\<close>: an optional \<open>+\<close> (for a signed type also \<open>-\<close>), then at least one digit, the
  value within the range of the type.
\<close>

definition parse_digits :: "string \<Rightarrow> nat option" where
  "parse_digits s = (if s \<noteq> [] \<and> list_all is_digit s then Some (digits_val s) else None)"

definition parse_unsigned :: "nat \<Rightarrow> string \<Rightarrow> nat option" where
  "parse_unsigned bound s =
     (let body = (case s of c # r \<Rightarrow> if c = CHR ''+'' then r else s | [] \<Rightarrow> s)
      in case parse_digits body of
           Some n \<Rightarrow> if n < bound then Some n else None
         | None \<Rightarrow> None)"

definition parse_i64 :: "string \<Rightarrow> i64 option" where
  "parse_i64 s =
     (case s of
        [] \<Rightarrow> None
      | c # r \<Rightarrow>
          if c = CHR ''-''
          then (case parse_digits r of
                  Some n \<Rightarrow> if n \<le> 2 ^ 63 then Some (- int n) else None
                | None \<Rightarrow> None)
          else map_option int (parse_unsigned (2 ^ 63) s))"

lemma parse_digits_dec [simp]: "parse_digits (dec n) = Some n"
  by (simp add: parse_digits_def list_all_iff dec_digits)

lemma dec_hd_plus: "dec n = c # r \<Longrightarrow> c \<noteq> CHR ''+'' \<and> c \<noteq> CHR ''-''"
  using dec_not_in [of "CHR ''+''" n] dec_not_in [of "CHR ''-''" n]
  by (auto simp: is_digit_def bval_def)

lemma parse_unsigned_dec: "n < b \<Longrightarrow> parse_unsigned b (dec n) = Some n"
  using dec_hd_plus [of n] parse_digits_dec [of n]
  by (auto simp: parse_unsigned_def Let_def simp del: parse_digits_dec split: list.splits)

lemma parse_i64_dec_int:
  assumes "- (2 ^ 63) \<le> n" "n < 2 ^ 63"
  shows "parse_i64 (dec_int n) = Some n"
proof (cases "n < 0")
  case True
  then have "nat (- n) \<le> 2 ^ 63" using assms by simp
  with True show ?thesis by (simp add: parse_i64_def dec_int_def)
next
  case False
  then have "nat n < 2 ^ 63" using assms by simp
  obtain c r where cr: "dec (nat n) = c # r" by (meson dec_nonempty neq_Nil_conv)
  have "parse_unsigned (2 ^ 63) (c # r) = Some (nat n)"
    using parse_unsigned_dec [OF \<open>nat n < 2 ^ 63\<close>] cr by simp
  with False cr dec_hd_plus [OF cr] show ?thesis
    by (simp add: parse_i64_def dec_int_def)
qed

section \<open>Hexadecimal text\<close>

definition hex_digit :: "nat \<Rightarrow> char" where
  "hex_digit d = (if d < 10 then char_of (48 + d) else char_of (87 + d))"

definition hex2 :: "nat \<Rightarrow> string" where
  "hex2 b = [hex_digit (b div 16), hex_digit (b mod 16)]"

definition hex_val :: "char \<Rightarrow> nat" where
  "hex_val c = (if is_digit c then bval c - 48 else if bval c \<le> 70 then bval c - 55 else bval c - 87)"

lemma hex_digit_props:
  assumes "d < 16"
  shows "is_hexdigit (hex_digit d)" "hex_val (hex_digit d) = d"
  using assms by (auto simp: hex_digit_def hex_val_def is_hexdigit_def is_digit_def)

lemma hex_val_less: "is_hexdigit c \<Longrightarrow> hex_val c < 16"
  by (auto simp: hex_val_def is_hexdigit_def is_digit_def)

text \<open>\<open>u8::from_str_radix(_, 16)\<close> on a two-byte string: a sign \<open>+\<close> is accepted.\<close>

definition u8_from_hex :: "char \<Rightarrow> char \<Rightarrow> u8 option" where
  "u8_from_hex a b =
     (if is_hexdigit b
      then (if is_hexdigit a then Some (of_nat (hex_val a * 16 + hex_val b))
            else if a = CHR ''+'' then Some (of_nat (hex_val b))
            else None)
      else None)"

text \<open>A byte string read as the machine bytes it stands for, and back.\<close>

definition byte_of :: "char \<Rightarrow> u8" where
  "byte_of c = of_nat (bval c)"

definition char_of_byte :: "u8 \<Rightarrow> char" where
  "char_of_byte b = char_of (unat b)"

lemma unat_u8_less: "unat (b :: u8) < 256"
  using unsigned_less [of b] by simp

lemma byte_of_char_of_byte [simp]: "byte_of (char_of_byte b) = b"
  using unat_u8_less [of b] by (simp add: byte_of_def char_of_byte_def)

lemma char_of_byte_byte_of [simp]: "char_of_byte (byte_of c) = c"
  by (simp add: byte_of_def char_of_byte_def unat_of_nat)

lemma u8_from_hex_hex2:
  assumes "n < 256"
  shows "u8_from_hex (hex_digit (n div 16)) (hex_digit (n mod 16)) = Some (of_nat n)"
  using assms by (simp add: u8_from_hex_def hex_digit_props less_mult_imp_div_less)

section \<open>UTF-8 validity\<close>

definition is_cont :: "char \<Rightarrow> bool" where
  "is_cont c \<longleftrightarrow> 128 \<le> bval c \<and> bval c \<le> 191"

text \<open>
  The well-formed byte sequences of the Unicode standard: no overlong forms, no surrogates,
  nothing above U+10FFFF. \<open>utf8_len\<close> is the length of the first encoded character, 0 if the
  bytes do not start with a well-formed one.
\<close>

definition utf8_len :: "string \<Rightarrow> nat" where
  "utf8_len s =
     (case s of
        [] \<Rightarrow> 0
      | c # r \<Rightarrow>
          (let b = bval c in
           if b < 128 then 1
           else if 194 \<le> b \<and> b \<le> 223 then
             (case r of c1 # _ \<Rightarrow> if is_cont c1 then 2 else 0 | _ \<Rightarrow> 0)
           else if 224 \<le> b \<and> b \<le> 239 then
             (case r of c1 # c2 # _ \<Rightarrow>
                if is_cont c1 \<and> is_cont c2 \<and> (b = 224 \<longrightarrow> 160 \<le> bval c1) \<and> (b = 237 \<longrightarrow> bval c1 \<le> 159)
                then 3 else 0
              | _ \<Rightarrow> 0)
           else if 240 \<le> b \<and> b \<le> 244 then
             (case r of c1 # c2 # c3 # _ \<Rightarrow>
                if is_cont c1 \<and> is_cont c2 \<and> is_cont c3 \<and>
                   (b = 240 \<longrightarrow> 144 \<le> bval c1) \<and> (b = 244 \<longrightarrow> bval c1 \<le> 143)
                then 4 else 0
              | _ \<Rightarrow> 0)
           else 0))"

function utf8_valid :: "string \<Rightarrow> bool" where
  "utf8_valid s =
     (if s = [] then True
      else if utf8_len s = 0 then False
      else utf8_valid (drop (utf8_len s) s))"
  by pat_completeness auto
termination
  by (relation "measure length") (auto simp: neq_Nil_conv)

declare utf8_valid.simps [simp del]

lemma utf8_valid_Nil [simp]: "utf8_valid []"
  by (simp add: utf8_valid.simps)

lemma utf8_valid_ascii_Cons [simp]: "is_ascii c \<Longrightarrow> utf8_valid (c # s) = utf8_valid s"
  by (subst utf8_valid.simps) (simp add: utf8_len_def is_ascii_def)

lemma utf8_valid_ascii: "list_all is_ascii s \<Longrightarrow> utf8_valid s"
  by (induction s) auto

text \<open>\<open>str::from_utf8(b).ok()\<close>.\<close>

definition from_utf8 :: "string \<Rightarrow> string option" where
  "from_utf8 s = (if utf8_valid s then Some s else None)"

lemma from_utf8_ascii [simp]: "list_all is_ascii s \<Longrightarrow> from_utf8 s = Some s"
  by (simp add: from_utf8_def utf8_valid_ascii)

lemma is_digit_ascii: "is_digit c \<Longrightarrow> is_ascii c"
  by (simp add: char_classes)

lemma is_hexdigit_ascii: "is_hexdigit c \<Longrightarrow> is_ascii c"
  by (auto simp: char_classes)

lemma is_graphic_ascii: "is_graphic c \<Longrightarrow> is_ascii c"
  by (auto simp: char_classes)

text \<open>\<open>is_char_boundary\<close> and \<open>&str\<close> slicing: both ends must lie on character boundaries.\<close>

definition is_char_boundary :: "string \<Rightarrow> nat \<Rightarrow> bool" where
  "is_char_boundary s i \<longleftrightarrow> i = 0 \<or> i = length s \<or> (i < length s \<and> \<not> is_cont (s ! i))"

definition str_slice :: "string \<Rightarrow> nat \<Rightarrow> nat \<Rightarrow> string panicking" where
  "str_slice s i j =
     (if i \<le> j \<and> is_char_boundary s i \<and> is_char_boundary s j
      then Some (take (j - i) (drop i s)) else None)"

lemma is_char_boundary_ascii:
  assumes "list_all is_ascii s" "i \<le> length s"
  shows "is_char_boundary s i"
proof -
  have "i < length s \<Longrightarrow> bval (s ! i) < 128"
    using assms(1) by (simp add: list_all_length is_ascii_def)
  with assms(2) show ?thesis by (auto simp: is_char_boundary_def is_cont_def)
qed

text \<open>
  \<open>String::from_utf8_lossy\<close>: each maximal ill-formed subsequence becomes U+FFFD.
  \<open>utf8_bad_len\<close> is the length of the ill-formed subsequence at the start of the bytes.
\<close>

definition utf8_bad_len :: "string \<Rightarrow> nat" where
  "utf8_bad_len s =
     (case s of
        c # c1 # r \<Rightarrow>
          (let b = bval c in
           if 224 \<le> b \<and> b \<le> 239 then
             (if is_cont c1 \<and> (b = 224 \<longrightarrow> 160 \<le> bval c1) \<and> (b = 237 \<longrightarrow> bval c1 \<le> 159) then 2 else 1)
           else if 240 \<le> b \<and> b \<le> 244 then
             (if is_cont c1 \<and> (b = 240 \<longrightarrow> 144 \<le> bval c1) \<and> (b = 244 \<longrightarrow> bval c1 \<le> 143)
              then (case r of c2 # _ \<Rightarrow> if is_cont c2 then 3 else 2 | [] \<Rightarrow> 2) else 1)
           else 1)
      | _ \<Rightarrow> 1)"

definition replacement_char :: string where
  "replacement_char = [char_of (239 :: nat), char_of (191 :: nat), char_of (189 :: nat)]"

lemma utf8_bad_len_pos: "0 < utf8_bad_len s"
  by (auto simp: utf8_bad_len_def Let_def split: list.splits)

function utf8_lossy :: "string \<Rightarrow> string" where
  "utf8_lossy s =
     (if s = [] then []
      else if utf8_len s = 0 then replacement_char @ utf8_lossy (drop (utf8_bad_len s) s)
      else take (utf8_len s) s @ utf8_lossy (drop (utf8_len s) s))"
  by pat_completeness auto
termination
  by (relation "measure length") (auto simp: neq_Nil_conv utf8_bad_len_pos)

declare utf8_lossy.simps [simp del]

lemma utf8_lossy_valid: "utf8_valid s \<Longrightarrow> utf8_lossy s = s"
proof (induction s rule: utf8_lossy.induct)
  case (1 s)
  then show ?case
    by (cases "s = []") (auto simp: utf8_lossy.simps [of s] utf8_lossy.simps [of "[]"] utf8_valid.simps [of s] split: if_splits)
qed

section \<open>Lines and white space\<close>

text \<open>\<open>lines()\<close>: a terminated line loses its \<open>\n\<close> and a \<open>\r\<close> before it.\<close>

fun lines_of :: "string list \<Rightarrow> string list" where
  "lines_of [] = []"
| "lines_of [l] = (if l = [] then [] else [l])"
| "lines_of (l # ls) =
     (if l \<noteq> [] \<and> last l = CHR 0x0D then butlast l else l) # lines_of ls"

definition lines :: "string \<Rightarrow> string list" where
  "lines s = lines_of (split_char CHR 0x0A s)"

text \<open>The characters with the property \<open>White_Space\<close>, encoded in UTF-8.\<close>

definition white_space :: "string list" where
  "white_space =
     map (map char_of)
       ([[9], [10], [11], [12], [13], [32], [194, 133], [194, 160], [225, 154, 128],
        [226, 128, 128], [226, 128, 129], [226, 128, 130], [226, 128, 131], [226, 128, 132],
        [226, 128, 133], [226, 128, 134], [226, 128, 135], [226, 128, 136], [226, 128, 137],
        [226, 128, 138], [226, 128, 168], [226, 128, 169], [226, 128, 175], [226, 129, 159],
        [227, 128, 128]] :: nat list list)"

fun trim_start_fuel :: "nat \<Rightarrow> string \<Rightarrow> string" where
  "trim_start_fuel 0 s = s"
| "trim_start_fuel (Suc k) s =
     (case find (\<lambda>w. starts_with s w) white_space of
        Some w \<Rightarrow> trim_start_fuel k (drop (length w) s)
      | None \<Rightarrow> s)"

fun trim_end_fuel :: "nat \<Rightarrow> string \<Rightarrow> string" where
  "trim_end_fuel 0 s = s"
| "trim_end_fuel (Suc k) s =
     (case find (\<lambda>w. ends_with s w) white_space of
        Some w \<Rightarrow> trim_end_fuel k (take (length s - length w) s)
      | None \<Rightarrow> s)"

text \<open>\<open>trim()\<close>; the fuel is the length, and each removed character is at least one byte long.\<close>

definition trim :: "string \<Rightarrow> string" where
  "trim s = (let t = trim_start_fuel (length s) s in trim_end_fuel (length t) t)"

end
