(* ===== verification/Audit_Parse.thy ===== *)
theory Audit_Parse
  imports Rust_Text
begin

text \<open>
  The parser of audit record text, \<open>src/src/audit_parse.rs\<close>: the header
  \<open>audit(SECONDS.MILLIS:SERIAL):\<close>, the \<open>key=value\<close> fields behind it (quoted or bare, with the
  double equals sign of SELinux), and the typed records built from them. The lemmas relate the
  index loop of \<open>find_field_ex\<close> to a scan over the field list, and give the exact value of the
  numeric parsers. \<open>hex::decode\<close> of the \<open>hex\<close> crate is the parameter \<open>hexd\<close>.
\<close>

section \<open>Numeric parsing\<close>

fun parse_u64_go :: "u64 \<Rightarrow> string \<Rightarrow> u64 option" where
  "parse_u64_go n [] = Some n"
| "parse_u64_go n (ch # b) =
     (if \<not> is_digit ch then None
      else do {
        m \<leftarrow> checked_mul n 10;
        k \<leftarrow> checked_add m (of_nat (digit_val ch));
        parse_u64_go k b
      })"

definition parse_u64_bytes :: "string \<Rightarrow> u64 option" where
  "parse_u64_bytes b = parse_u64_go 0 b"

definition parse_u32_bytes :: "string \<Rightarrow> u32 option" where
  "parse_u32_bytes b =
     (case parse_u64_bytes b of
        None \<Rightarrow> None
      | Some n \<Rightarrow> if unat n < 2 ^ 32 then Some (of_nat (unat n)) else None)"

fun parse_raw_hex_go :: "u64 \<Rightarrow> string \<Rightarrow> u64" where
  "parse_raw_hex_go n [] = n"
| "parse_raw_hex_go n (ch # b) =
     (if is_hexdigit ch then parse_raw_hex_go (n * 16 + of_nat (hex_val ch)) b else n)"

definition parse_raw_hex_bytes :: "string \<Rightarrow> u64" where
  "parse_raw_hex_bytes b = parse_raw_hex_go 0 b"

section \<open>Header parsing\<close>

definition audit_open :: string where
  "audit_open = ''audit(''"

definition parse_serial :: "string \<Rightarrow> u64 option panicking" where
  "parse_serial input =
     (case find_sub audit_open input of
        None \<Rightarrow> Some None
      | Some pos \<Rightarrow>
          let after = drop (pos + 6) input in
          case find_char CHR '':'' after of
            None \<Rightarrow> Some None
          | Some colon \<Rightarrow>
              (case find_char CHR '')'' after of
                 None \<Rightarrow> Some None
               | Some end \<Rightarrow>
                   map_option parse_u64_bytes (slice after (colon + 1) end)))"

text \<open>
  The unchecked \<open>secs * 1000 + ms\<close> panics on overflow in a debug build, which is the build the
  README runs.
\<close>

definition parse_timestamp_ms :: "string \<Rightarrow> u64 option panicking" where
  "parse_timestamp_ms input =
     (case find_sub audit_open input of
        None \<Rightarrow> Some None
      | Some pos \<Rightarrow>
          let after = drop (pos + 6) input in
          case find_char CHR '':'' after of
            None \<Rightarrow> Some None
          | Some colon \<Rightarrow>
              let ts_bytes = take colon after in
              (case find_char CHR ''.'' ts_bytes of
                 Some dot \<Rightarrow>
                   (case (parse_u64_bytes (take dot ts_bytes), parse_u64_bytes (drop (dot + 1) ts_bytes)) of
                      (Some secs, Some ms) \<Rightarrow>
                        (case checked_mul secs 1000 of
                           None \<Rightarrow> None
                         | Some s \<Rightarrow> map_option Some (checked_add s ms))
                    | _ \<Rightarrow> Some None)
               | None \<Rightarrow>
                   (case parse_u64_bytes ts_bytes of
                      Some secs \<Rightarrow> map_option Some (checked_mul secs 1000)
                    | None \<Rightarrow> Some None)))"

definition skip_header :: "string \<Rightarrow> string" where
  "skip_header input =
     (case find_sub ''): '' input of Some pos \<Rightarrow> drop (pos + 3) input | None \<Rightarrow> input)"

section \<open>Field extraction\<close>

text \<open>The value that starts at \<open>val_start\<close>, with the flag \<open>was_quoted\<close>.\<close>

definition field_value :: "string \<Rightarrow> nat \<Rightarrow> string \<times> bool" where
  "field_value input val_start0 =
     (let val_start = (if val_start0 < length input \<and> input ! val_start0 = CHR ''=''
                       then val_start0 + 1 else val_start0)
      in if length input \<le> val_start then ([], True)
         else if input ! val_start = CHR 0x22
         then (let content_start = val_start + 1;
                   end = (case find_char CHR 0x22 (drop content_start input) of
                            Some i \<Rightarrow> content_start + i | None \<Rightarrow> length input)
               in (take (end - content_start) (drop content_start input), True))
         else (let end = (case find_char CHR '' '' (drop val_start input) of
                            Some i \<Rightarrow> val_start + i | None \<Rightarrow> length input)
               in (take (end - val_start) (drop val_start input), False)))"

function find_field_from :: "string \<Rightarrow> string \<Rightarrow> nat \<Rightarrow> (string \<times> bool) option" where
  "find_field_from input key pos =
     (if pos < length input
      then if (pos = 0 \<or> input ! (pos - 1) = CHR '' '')
              \<and> pos + (length key + 1) \<le> length input
              \<and> take (length key) (drop pos input) = key
              \<and> input ! (pos + length key) = CHR ''=''
           then Some (field_value input (pos + (length key + 1)))
           else (case find_char CHR '' '' (drop pos input) of
                   Some skip \<Rightarrow> find_field_from input key (pos + (skip + 1))
                 | None \<Rightarrow> None)
      else None)"
  by pat_completeness auto
termination
  by (relation "measure (\<lambda>(input, key, pos). length input - pos)") auto

declare find_field_from.simps [simp del]

definition find_field_ex :: "string \<Rightarrow> string \<Rightarrow> (string \<times> bool) option" where
  "find_field_ex input key = find_field_from input key 0"

definition find_field :: "string \<Rightarrow> string \<Rightarrow> string option" where
  "find_field input key = map_option fst (find_field_ex input key)"

definition field_u32 :: "string \<Rightarrow> string \<Rightarrow> u32" where
  "field_u32 input key =
     (case Option.bind (find_field input key) parse_u32_bytes of Some n \<Rightarrow> n | None \<Rightarrow> 0)"

definition field_raw_hex :: "string \<Rightarrow> string \<Rightarrow> u64" where
  "field_raw_hex input key =
     (case find_field input key of Some b \<Rightarrow> parse_raw_hex_bytes b | None \<Rightarrow> 0)"

definition field_str :: "string \<Rightarrow> string \<Rightarrow> string" where
  "field_str input key =
     (case Option.bind (find_field input key) from_utf8 of Some s \<Rightarrow> s | None \<Rightarrow> [])"

definition field_eq :: "string \<Rightarrow> string \<Rightarrow> string \<Rightarrow> bool" where
  "field_eq input key expected =
     (case find_field input key of Some v \<Rightarrow> v = expected | None \<Rightarrow> False)"

section \<open>Hex-encoded arguments\<close>

definition looks_hex_encoded :: "string \<Rightarrow> bool" where
  "looks_hex_encoded b \<longleftrightarrow> 2 \<le> length b \<and> length b mod 2 = 0 \<and> list_all is_hexdigit b"

text \<open>The readable form of one decoded byte.\<close>

definition escape_byte :: "char \<Rightarrow> string" where
  "escape_byte b =
     (if bval b = 10 then [CHR 0x5C, CHR ''n'']
      else if bval b = 13 then [CHR 0x5C, CHR ''r'']
      else if bval b = 9 then [CHR 0x5C, CHR ''t'']
      else if bval b = 0 then [CHR 0x5C, CHR ''0'']
      else if 32 \<le> bval b \<and> bval b \<le> 126 then [b]
      else [CHR 0x5C, CHR ''x''] @ hex2 (bval b))"

definition decode_hex_string :: "(string \<Rightarrow> string option) \<Rightarrow> string \<Rightarrow> string" where
  "decode_hex_string hexd hex_bytes =
     (let hex_str = (case from_utf8 hex_bytes of Some s \<Rightarrow> s | None \<Rightarrow> [])
      in case hexd hex_str of
           Some bytes \<Rightarrow> concat (map escape_byte bytes)
         | None \<Rightarrow> hex_str)"

definition field_string_decoded :: "(string \<Rightarrow> string option) \<Rightarrow> string \<Rightarrow> string \<Rightarrow> string" where
  "field_string_decoded hexd input key =
     (case find_field_ex input key of
        Some (bytes, quoted) \<Rightarrow>
          if quoted then (case from_utf8 bytes of Some s \<Rightarrow> s | None \<Rightarrow> [])
          else if looks_hex_encoded bytes then decode_hex_string hexd bytes
          else (case from_utf8 bytes of Some s \<Rightarrow> s | None \<Rightarrow> [])
      | None \<Rightarrow> [])"

section \<open>Typed records\<close>

record SyscallFields =
  sf_pid :: u32
  sf_ppid :: u32
  sf_syscall :: u32
  sf_success :: bool
  sf_comm :: string
  sf_exe :: string
  sf_a0 :: u64
  sf_a1 :: u64
  sf_a2 :: u64
  sf_a3 :: u64
  sf_exit_value :: i64
  sf_subj :: string

definition parse_syscall :: "string \<Rightarrow> SyscallFields" where
  "parse_syscall payload =
     (let fields = skip_header payload
      in \<lparr>sf_pid = field_u32 fields ''pid'',
          sf_ppid = field_u32 fields ''ppid'',
          sf_syscall = field_u32 fields ''syscall'',
          sf_success = field_eq fields ''success'' ''yes'',
          sf_comm = field_str fields ''comm'',
          sf_exe = field_str fields ''exe'',
          sf_a0 = field_raw_hex fields ''a0'',
          sf_a1 = field_raw_hex fields ''a1'',
          sf_a2 = field_raw_hex fields ''a2'',
          sf_a3 = field_raw_hex fields ''a3'',
          sf_exit_value =
            (case Option.bind (Option.bind (find_field fields ''exit'') from_utf8) parse_i64 of
               Some n \<Rightarrow> n | None \<Rightarrow> -1),
          sf_subj = field_str fields ''subj''\<rparr>)"

record PathFields =
  pf_item :: u32
  pf_name :: string
  pf_nametype :: string

definition parse_path :: "string \<Rightarrow> PathFields" where
  "parse_path payload =
     (let fields = skip_header payload
      in \<lparr>pf_item = field_u32 fields ''item'',
          pf_name = field_str fields ''name'',
          pf_nametype = field_str fields ''nametype''\<rparr>)"

definition parse_sockaddr :: "string \<Rightarrow> string" where
  "parse_sockaddr payload = field_str (skip_header payload) ''saddr''"

definition parse_cwd :: "string \<Rightarrow> string" where
  "parse_cwd payload = field_str (skip_header payload) ''cwd''"

definition parse_execve_args :: "(string \<Rightarrow> string option) \<Rightarrow> string \<Rightarrow> string list" where
  "parse_execve_args hexd payload =
     (let fields = skip_header payload;
          argc = unat (field_u32 fields ''argc'')
      in map (\<lambda>i. field_string_decoded hexd fields (CHR ''a'' # dec i)) [0..<argc])"

section \<open>What the numeric parsers compute\<close>

definition dec_from :: "nat \<Rightarrow> string \<Rightarrow> nat" where
  "dec_from n s = foldl (\<lambda>n c. n * 10 + digit_val c) n s"

lemma dec_from_simps [simp]:
  "dec_from n [] = n" "dec_from n (c # s) = dec_from (n * 10 + digit_val c) s"
  by (simp_all add: dec_from_def)

lemma dec_from_ge: "n \<le> dec_from n s"
proof (induction s arbitrary: n)
  case (Cons c s)
  have "n \<le> n * 10 + digit_val c" by simp
  also have "\<dots> \<le> dec_from (n * 10 + digit_val c) s" by (rule Cons.IH)
  finally show ?case by simp
qed simp

lemma digit_val_less: "is_digit c \<Longrightarrow> digit_val c < 10"
  by (auto simp: is_digit_def digit_val_def)

lemma unat_of_digit: "is_digit c \<Longrightarrow> unat (of_nat (digit_val c) :: u64) = digit_val c"
  using digit_val_less [of c] by (simp add: unat_of_nat)

lemma parse_u64_go_spec:
  "parse_u64_go n s =
     (if list_all is_digit s \<and> dec_from (unat n) s < 2 ^ 64
      then Some (of_nat (dec_from (unat n) s)) else None)"
proof (induction s arbitrary: n)
  case Nil
  show ?case using unsigned_less [of n, where ?'a = nat] by simp
next
  case (Cons c s)
  show ?case
  proof (cases "is_digit c \<and> unat n * 10 + digit_val c < 2 ^ 64")
    case False
    then show ?thesis
      using dec_from_ge [of "unat n * 10 + digit_val c" s] unat_of_digit [of c]
      by (auto simp: checked_mul_def checked_add_def unat_word_ariths)
  next
    case True
    define k where "k = n * 10 + (of_nat (digit_val c) :: u64)"
    have k: "unat k = unat n * 10 + digit_val c"
      using True unat_of_digit [of c] by (simp add: k_def unat_word_ariths)
    have "parse_u64_go n (c # s) = parse_u64_go k s"
      using True unat_of_digit [of c]
      by (simp add: checked_mul_def checked_add_def unat_word_ariths k_def)
    with Cons.IH [of k] True k show ?thesis by simp
  qed
qed

lemma parse_u64_bytes_spec:
  "parse_u64_bytes s =
     (if list_all is_digit s \<and> digits_val s < 2 ^ 64 then Some (of_nat (digits_val s)) else None)"
  by (simp add: parse_u64_bytes_def parse_u64_go_spec dec_from_def digits_val_def)

lemma parse_u64_dec [simp]: "n < 2 ^ 64 \<Longrightarrow> parse_u64_bytes (dec n) = Some (of_nat n)"
  by (simp add: parse_u64_bytes_spec list_all_iff dec_digits)

lemma parse_u32_dec [simp]:
  assumes "n < 2 ^ 32"
  shows "parse_u32_bytes (dec n) = Some (of_nat n)"
proof -
  have "unat (of_nat n :: u64) = n" using assms by (simp add: unat_of_nat)
  with assms show ?thesis by (simp add: parse_u32_bytes_def)
qed

definition hex_str_val :: "string \<Rightarrow> nat" where
  "hex_str_val s = foldl (\<lambda>n c. n * 16 + hex_val c) 0 s"

lemma parse_raw_hex_go_spec:
  "parse_raw_hex_go (of_nat n) s =
     of_nat (foldl (\<lambda>n c. n * 16 + hex_val c) n (takeWhile is_hexdigit s))"
proof (induction s arbitrary: n)
  case (Cons c s)
  have "(of_nat n :: u64) * 16 + of_nat (hex_val c) = of_nat (n * 16 + hex_val c)"
    by simp
  then show ?case by (simp only: parse_raw_hex_go.simps Cons.IH) simp
qed simp

lemma parse_raw_hex_bytes_spec:
  "parse_raw_hex_bytes s = of_nat (hex_str_val (takeWhile is_hexdigit s))"
  using parse_raw_hex_go_spec [of 0 s] by (simp add: parse_raw_hex_bytes_def hex_str_val_def)

section \<open>Fields as a scan\<close>

definition value_at :: "string \<Rightarrow> string \<times> bool" where
  "value_at t0 =
     (let t = (case t0 of c # r \<Rightarrow> if c = CHR ''='' then r else t0 | [] \<Rightarrow> [])
      in case t of
           [] \<Rightarrow> ([], True)
         | c # r \<Rightarrow>
             if c = CHR 0x22 then (takeWhile (\<lambda>d. d \<noteq> CHR 0x22) r, True)
             else (takeWhile (\<lambda>d. d \<noteq> CHR '' '') t, False))"

lemma take_find_char:
  "(case find_char c s of Some i \<Rightarrow> take i s | None \<Rightarrow> s) = takeWhile (\<lambda>d. d \<noteq> c) s"
  by (induction s) (auto simp: find_char_def split: option.splits)

lemma take_upto:
  assumes "a \<le> length s"
  shows "take ((case find_char c (drop a s) of Some i \<Rightarrow> a + i | None \<Rightarrow> length s) - a) (drop a s) =
    takeWhile (\<lambda>d. d \<noteq> c) (drop a s)"
  using assms take_find_char [where c = c and s = "drop a s"] by (auto split: option.splits)

lemma nth_drop_Cons: "v < length s \<Longrightarrow> drop v s = s ! v # drop (Suc v) s"
  by (rule Cons_nth_drop_Suc [symmetric])

lemma field_value_at:
  assumes "v \<le> length s"
  shows "field_value s v = value_at (drop v s)"
proof -
  have body: "(if length s \<le> w then ([], True)
         else if s ! w = CHR 0x22
         then (take ((case find_char CHR 0x22 (drop (w + 1) s) of
                  Some i \<Rightarrow> (w + 1) + i | None \<Rightarrow> length s) - (w + 1)) (drop (w + 1) s), True)
         else (take ((case find_char CHR '' '' (drop w s) of
                  Some i \<Rightarrow> w + i | None \<Rightarrow> length s) - w) (drop w s), False)) =
     (case drop w s of
         [] \<Rightarrow> ([], True)
       | c # r \<Rightarrow>
           if c = CHR 0x22 then (takeWhile (\<lambda>d. d \<noteq> CHR 0x22) r, True)
           else (takeWhile (\<lambda>d. d \<noteq> CHR '' '') (drop w s), False))" for w
    using take_upto [of "w + 1" s "CHR 0x22"] take_upto [of w s "CHR '' ''"]
    by (cases "w < length s") (simp_all add: nth_drop_Cons)
  have start: "drop (if v < length s \<and> s ! v = CHR ''='' then v + 1 else v) s =
      (case drop v s of c # r \<Rightarrow> if c = CHR ''='' then r else drop v s | [] \<Rightarrow> [])"
    by (cases "v < length s") (simp_all add: nth_drop_Cons)
  show ?thesis
    unfolding field_value_def value_at_def Let_def start [symmetric]
    by (rule body [unfolded Let_def])
qed

function scan_field :: "string \<Rightarrow> string \<Rightarrow> (string \<times> bool) option" where
  "scan_field key s =
     (if s = [] then None
      else if starts_with s (key @ ''='') then Some (value_at (drop (length key + 1) s))
      else (case find_char CHR '' '' s of Some k \<Rightarrow> scan_field key (drop (k + 1) s) | None \<Rightarrow> None))"
  by pat_completeness auto
termination
  by (relation "measure (\<lambda>(key, s). length s)") auto

declare scan_field.simps [simp del]

lemma key_match:
  "pos + (length key + 1) \<le> length s \<and> take (length key) (drop pos s) = key \<and>
     s ! (pos + length key) = c \<longleftrightarrow> starts_with (drop pos s) (key @ [c])"
proof (cases "pos + length key < length s")
  case True
  then have "take (Suc (length key)) (drop pos s) = take (length key) (drop pos s) @ [s ! (pos + length key)]"
    by (simp add: take_Suc_conv_app_nth)
  with True show ?thesis by (auto simp: starts_with_def)
next
  case False
  then have "length (take (Suc (length key)) (drop pos s)) < length (key @ [c])" by simp
  then have "take (Suc (length key)) (drop pos s) \<noteq> key @ [c]" by force
  with False show ?thesis by (simp add: starts_with_def)
qed

lemma find_field_from_scan:
  assumes "pos = 0 \<or> (pos \<le> length s \<and> s ! (pos - 1) = CHR '' '')"
  shows "find_field_from s key pos = scan_field key (drop pos s)"
  using assms
proof (induction s key pos rule: find_field_from.induct)
  case (1 s key pos)
  have at_start: "pos = 0 \<or> s ! (pos - 1) = CHR '' ''" using "1.prems" by blast
  show ?case
  proof (cases "pos < length s")
    case False
    then show ?thesis by (simp add: find_field_from.simps [of s key pos] scan_field.simps [of key "[]"])
  next
    case True
    note unf = find_field_from.simps [of s key pos] scan_field.simps [of key "drop pos s"]
    show ?thesis
    proof (cases "starts_with (drop pos s) (key @ ''='')")
      case True
      then have "pos + (length key + 1) \<le> length s" using key_match by blast
      then have "field_value s (pos + (length key + 1)) = value_at (drop (pos + (length key + 1)) s)"
        by (rule field_value_at)
      with True \<open>pos < length s\<close> at_start show ?thesis
        using key_match [of pos key s "CHR ''=''"] by (simp add: unf add.commute)
    next
      case False
      then have nm: "\<not> (pos + (length key + 1) \<le> length s \<and> take (length key) (drop pos s) = key \<and>
          s ! (pos + length key) = CHR ''='')" using key_match by blast
      show ?thesis
      proof (cases "find_char CHR '' '' (drop pos s)")
        case None
        with nm False \<open>pos < length s\<close> show ?thesis by (simp add: unf)
      next
        case (Some k)
        from find_char_Some [OF Some] have k: "pos + k < length s" "s ! (pos + k) = CHR '' ''"
          by auto
        have "find_field_from s key (pos + (k + 1)) = scan_field key (drop (pos + (k + 1)) s)"
          using nm Some k \<open>pos < length s\<close> by (intro "1.IH") auto
        with nm False Some \<open>pos < length s\<close> show ?thesis by (auto simp: unf add.commute)
      qed
    qed
  qed
qed

lemma find_field_ex_scan: "find_field_ex s key = scan_field key s"
  by (simp add: find_field_ex_def find_field_from_scan)

end
