(* ===== verification/Audit_Format.thy ===== *)
theory Audit_Format
  imports Audit_Parse
begin

text \<open>
  The text the kernel writes, as the specification of the parser of \<open>Audit_Parse\<close>: the record
  header \<open>audit(SECONDS.MILLIS:SERIAL):\<close>, a list of bare and quoted fields separated by single
  spaces, the \<open>AUDIT_SYSCALL\<close> record, and the \<open>AUDIT_EXECVE\<close> record whose arguments are quoted or,
  when they hold a quote, a space or a byte outside the printable range, written in hexadecimal.
  The properties are the round trips: what the parser returns on a written record.
\<close>

section \<open>Fields\<close>

type_synonym field = "string \<times> bool \<times> string" \<comment> \<open>key, quoted, value\<close>

definition key_ok :: "string \<Rightarrow> bool" where
  "key_ok k \<longleftrightarrow> CHR '' '' \<notin> set k \<and> CHR ''='' \<notin> set k"

definition field_ok :: "field \<Rightarrow> bool" where
  "field_ok = (\<lambda>(k, q, v). key_ok k \<and> CHR '' '' \<notin> set v \<and>
     (if q then CHR 0x22 \<notin> set v else v \<noteq> [] \<and> hd v \<noteq> CHR ''='' \<and> hd v \<noteq> CHR 0x22))"

definition value_text :: "bool \<Rightarrow> string \<Rightarrow> string" where
  "value_text q v = (if q then CHR 0x22 # v @ [CHR 0x22] else v)"

definition render_field :: "field \<Rightarrow> string" where
  "render_field = (\<lambda>(k, q, v). k @ CHR ''='' # value_text q v)"

definition render_fields :: "field list \<Rightarrow> string" where
  "render_fields fs = join '' '' (map render_field fs)"

definition lookup_field :: "field list \<Rightarrow> string \<Rightarrow> (string \<times> bool) option" where
  "lookup_field fs key = map_of (map (\<lambda>(k, q, v). (k, (v, q))) fs) key"

lemma lookup_field_simps [simp]:
  "lookup_field [] key = None"
  "lookup_field ((k, q, v) # fs) key = (if key = k then Some (v, q) else lookup_field fs key)"
  by (simp_all add: lookup_field_def)

lemma takeWhile_stop: "c \<notin> set v \<Longrightarrow> takeWhile (\<lambda>d. d \<noteq> c) (v @ c # r) = v"
  by (induction v) auto

lemma takeWhile_all: "c \<notin> set v \<Longrightarrow> takeWhile (\<lambda>d. d \<noteq> c) v = v"
  by (induction v) auto

lemma value_at_text:
  assumes "field_ok (k, q, v)" and "r = [] \<or> (\<exists>s. r = CHR '' '' # s)"
  shows "value_at (value_text q v @ r) = (v, q)"
proof (cases q)
  case True
  with assms show ?thesis
    by (simp add: value_at_def value_text_def field_ok_def takeWhile_stop)
next
  case False
  with assms obtain c w where v: "v = c # w" "c \<noteq> CHR ''=''" "c \<noteq> CHR 0x22" "CHR '' '' \<notin> set v"
    by (auto simp: field_ok_def neq_Nil_conv)
  have "takeWhile (\<lambda>d. d \<noteq> CHR '' '') (v @ r) = v"
    using assms(2) v(4) by (auto simp: takeWhile_stop takeWhile_all)
  with False v show ?thesis by (simp add: value_at_def value_text_def)
qed

lemma key_eq_prefix:
  assumes "CHR ''='' \<notin> set key" "CHR ''='' \<notin> set k"
  shows "starts_with (k @ CHR ''='' # t) (key @ ''='') \<longleftrightarrow> key = k"
proof
  assume "starts_with (k @ CHR ''='' # t) (key @ ''='')"
  then obtain r where "k @ CHR ''='' # t = key @ CHR ''='' # r"
    by (auto simp: starts_with_iff)
  then have "takeWhile (\<lambda>d. d \<noteq> CHR ''='') (k @ CHR ''='' # t) =
      takeWhile (\<lambda>d. d \<noteq> CHR ''='') (key @ CHR ''='' # r)" by simp
  with assms show "key = k" by (simp add: takeWhile_stop)
qed (simp add: starts_with_iff)

lemma field_no_space:
  assumes "field_ok (k, q, v)"
  shows "CHR '' '' \<notin> set (render_field (k, q, v))"
  using assms by (auto simp: field_ok_def key_ok_def render_field_def value_text_def split: if_splits)

lemma scan_render_step:
  assumes ok: "field_ok (k, q, v)" and key: "key_ok key" and r: "r = [] \<or> (\<exists>s. r = CHR '' '' # s)"
  shows "scan_field key (render_field (k, q, v) @ r) =
     (if key = k then Some (v, q) else scan_field key (tl r))"
proof -
  let ?s = "render_field (k, q, v) @ r"
  have pre: "starts_with ?s (key @ ''='') \<longleftrightarrow> key = k"
    using ok key key_eq_prefix [of key k "value_text q v @ r"]
    by (simp add: render_field_def field_ok_def key_ok_def)
  show ?thesis
  proof (cases "key = k")
    case True
    with pre value_at_text [OF ok r] show ?thesis
      by (subst scan_field.simps) (simp add: render_field_def)
  next
    case False
    show ?thesis
    proof (cases "r = []")
      case True
      then show ?thesis
        using pre False find_char_None [THEN iffD2, OF field_no_space [OF ok]]
        by (simp add: scan_field.simps [of key "render_field (k, q, v)"]
            scan_field.simps [of key "[]"])
    next
      case False
      with r obtain s where "r = CHR '' '' # s" by blast
      then show ?thesis
        using pre \<open>key \<noteq> k\<close> find_char_append [OF field_no_space [OF ok], of s]
        by (subst scan_field.simps) simp
    qed
  qed
qed

lemma scan_render:
  assumes "list_all field_ok fs" "key_ok key"
  shows "scan_field key (render_fields fs) = lookup_field fs key"
  using assms(1)
proof (induction fs)
  case Nil
  show ?case by (simp add: render_fields_def scan_field.simps [of key "[]"])
next
  case (Cons f fs)
  obtain k q v where f: "f = (k, q, v)" by (cases f)
  show ?case
  proof (cases "fs = []")
    case True
    with Cons.prems f show ?thesis
      using scan_render_step [of k q v key "[]"] assms(2)
      by (simp add: render_fields_def scan_field.simps [of key "[]"])
  next
    case False
    then have "render_fields (f # fs) = render_field f @ CHR '' '' # render_fields fs"
      by (simp add: render_fields_def join_Cons)
    with Cons f assms(2) show ?thesis
      using scan_render_step [of k q v key "CHR '' '' # render_fields fs"] by simp
  qed
qed

section \<open>Headers\<close>

definition pad3 :: "nat \<Rightarrow> string" where
  "pad3 n = replicate (3 - length (dec n)) CHR ''0'' @ dec n"

definition header_text :: "nat \<Rightarrow> nat \<Rightarrow> nat \<Rightarrow> string" where
  "header_text secs ms serial =
     audit_open @ dec secs @ CHR ''.'' # pad3 ms @ CHR '':'' # dec serial @ '')''"

definition record_text :: "nat \<Rightarrow> nat \<Rightarrow> nat \<Rightarrow> field list \<Rightarrow> string" where
  "record_text secs ms serial fs = header_text secs ms serial @ '': '' @ render_fields fs"

lemma pad3_digits: "c \<in> set (pad3 n) \<Longrightarrow> is_digit c"
  using dec_digits by (auto simp: pad3_def is_digit_def bval_def)

lemma pad3_val [simp]: "digits_val (pad3 n) = n"
  by (simp add: pad3_def digits_val_zeros)

lemma parse_pad3 [simp]: "n < 2 ^ 64 \<Longrightarrow> parse_u64_bytes (pad3 n) = Some (of_nat n)"
  by (simp add: parse_u64_bytes_spec list_all_iff pad3_digits)

lemma not_digits:
  "\<not> is_digit CHR '':''" "\<not> is_digit CHR '')''" "\<not> is_digit CHR ''.''" "\<not> is_digit CHR ''=''"
  "\<not> is_digit CHR '' ''" "\<not> is_digit CHR 0x22"
  by (simp_all add: is_digit_def bval_def)

lemma not_in_digits:
  assumes "\<not> is_digit c"
  shows "c \<notin> set (dec n)" "c \<notin> set (pad3 n)"
  using assms dec_digits pad3_digits by blast+

lemma find_audit_open [simp]: "find_sub audit_open (audit_open @ s) = Some 0"
  by (rule find_sub_prefix)

lemma audit_open_length [simp]: "length audit_open = 6" "drop 6 audit_open = []"
  by (simp_all add: audit_open_def)

lemma parse_serial_header:
  assumes "CHR '':'' \<notin> set ts" "CHR '')'' \<notin> set ts" "CHR '')'' \<notin> set sn"
  shows "parse_serial (audit_open @ ts @ CHR '':'' # sn @ CHR '')'' # rest) = Some (parse_u64_bytes sn)"
proof -
  let ?a = "ts @ CHR '':'' # sn @ CHR '')'' # rest"
  have colon: "find_char CHR '':'' ?a = Some (length ts)"
    using assms(1) by (rule find_char_append)
  have "find_char CHR '')'' ((ts @ CHR '':'' # sn) @ CHR '')'' # rest) = Some (length (ts @ CHR '':'' # sn))"
    using assms by (intro find_char_append) (auto simp: bval_def)
  then have paren: "find_char CHR '')'' ?a = Some (length ts + (1 + length sn))" by simp
  have "slice ?a (length ts + 1) (length ts + (1 + length sn)) = Some sn"
    by (simp add: slice_def)
  with colon paren show ?thesis by (simp add: parse_serial_def Let_def)
qed

lemma parse_timestamp_header:
  assumes "CHR '':'' \<notin> set a" "CHR '':'' \<notin> set b" "CHR ''.'' \<notin> set a"
    and "parse_u64_bytes a = Some s" "parse_u64_bytes b = Some m"
  shows "parse_timestamp_ms (audit_open @ a @ CHR ''.'' # b @ CHR '':'' # rest) =
     Option.bind (checked_mul s 1000) (\<lambda>x. map_option Some (checked_add x m))"
proof -
  have "find_char CHR '':'' ((a @ CHR ''.'' # b) @ CHR '':'' # rest) = Some (length (a @ CHR ''.'' # b))"
    using assms by (intro find_char_append) (auto simp: bval_def)
  then have colon: "find_char CHR '':'' (a @ CHR ''.'' # b @ CHR '':'' # rest) = Some (length a + Suc (length b))"
    by simp
  show ?thesis
    using colon assms find_char_append [OF assms(3), of b]
    by (simp add: parse_timestamp_ms_def Let_def split: option.splits)
qed

lemma skip_header_text:
  "skip_header (header_text secs ms serial @ '': '' @ body) = body"
proof -
  define pre where "pre = audit_open @ dec secs @ CHR ''.'' # pad3 ms @ CHR '':'' # dec serial"
  have pre: "CHR '')'' \<notin> set pre"
    using not_in_digits [OF not_digits(2)] by (simp add: pre_def audit_open_def)
  let ?s = "pre @ ''): '' @ body"
  have hit: "starts_with (drop (length pre) ?s) ''): ''" by (simp add: starts_with_def)
  have miss: "\<not> starts_with (drop i ?s) ''): ''" if "i < length pre" for i
  proof -
    from that have "drop i ?s = pre ! i # drop (Suc i) pre @ ''): '' @ body"
      by (simp add: nth_drop_Cons)
    moreover from that pre have "pre ! i \<noteq> CHR '')''" by (metis nth_mem)
    ultimately show ?thesis by (simp add: starts_with_def)
  qed
  have "contains ?s ''): ''" unfolding contains_iff by blast
  then obtain k where k: "find_sub ''): '' ?s = Some k" by (auto simp: contains_def)
  from find_sub_Some [OF k] hit miss have "k = length pre"
    by (metis linorder_neqE_nat)
  with k have "skip_header ?s = body" by (simp add: skip_header_def)
  then show ?thesis by (simp add: header_text_def pre_def)
qed

lemma find_field_record:
  assumes "list_all field_ok fs" "key_ok key"
  shows "find_field_ex (skip_header (record_text secs ms serial fs)) key = lookup_field fs key"
  using scan_render [OF assms] by (simp add: record_text_def skip_header_text [simplified] find_field_ex_scan)

section \<open>The execve record\<close>

definition hex_upper :: "nat \<Rightarrow> char" where
  "hex_upper d = (if d < 10 then char_of (48 + d) else char_of (55 + d))"

definition hex_encode :: "string \<Rightarrow> string" where
  "hex_encode s = concat (map (\<lambda>c. [hex_upper (bval c div 16), hex_upper (bval c mod 16)]) s)"

text \<open>What the code relies on of \<open>hex::decode\<close>: it inverts the encoding, in upper case digits.\<close>

definition hexd_ok :: "(string \<Rightarrow> string option) \<Rightarrow> bool" where
  "hexd_ok hexd \<longleftrightarrow> (\<forall>s. hexd (hex_encode s) = Some s)"

text \<open>An argument is written between quotes when all its bytes are printable and none is a quote.\<close>

definition arg_plain :: "string \<Rightarrow> bool" where
  "arg_plain a = list_all (\<lambda>c. is_graphic c \<and> c \<noteq> CHR 0x22) a"

definition arg_field :: "nat \<Rightarrow> string \<Rightarrow> field" where
  "arg_field i a = (CHR ''a'' # dec i, if arg_plain a then (True, a) else (False, hex_encode a))"

definition execve_fields :: "string list \<Rightarrow> field list" where
  "execve_fields argv =
     (''argc'', False, dec (length argv)) # map (\<lambda>i. arg_field i (argv ! i)) [0..<length argv]"

text \<open>The form in which an argument reaches the receipts: hex-encoded ones have their bytes escaped.\<close>

definition shown_arg :: "string \<Rightarrow> string" where
  "shown_arg a = (if arg_plain a then a else concat (map escape_byte a))"

lemma hex_upper_props:
  assumes "d < 16"
  shows "is_hexdigit (hex_upper d)" "hex_val (hex_upper d) = d"
  using assms by (auto simp: hex_upper_def hex_val_def is_hexdigit_def is_digit_def)

lemma bval_nibbles [simp]: "bval c div 16 < 16" "bval c mod 16 < 16"
  using bval_less [of c] by (simp_all add: less_mult_imp_div_less)

lemma length_hex_encode [simp]: "length (hex_encode s) = 2 * length s"
  by (induction s) (simp_all add: hex_encode_def)

lemma hex_encode_hexdigits: "list_all is_hexdigit (hex_encode s)"
  by (auto simp: hex_encode_def list_all_iff hex_upper_props)

lemma hexdigit_not:
  assumes "is_hexdigit c"
  shows "c \<noteq> CHR '' ''" "c \<noteq> CHR ''=''" "c \<noteq> CHR 0x22" "is_ascii c"
  using assms by (auto simp: char_classes bval_def)

lemma graphic_not: "is_graphic c \<Longrightarrow> c \<noteq> CHR '' ''"
  by (auto simp: is_graphic_def bval_def)

lemma dec_value_ok: "CHR '' '' \<notin> set (dec n)" "hd (dec n) \<noteq> CHR ''=''" "hd (dec n) \<noteq> CHR 0x22"
proof -
  show "CHR '' '' \<notin> set (dec n)" by (rule not_in_digits(1) [OF not_digits(5)])
  have "is_digit (hd (dec n))" by (rule dec_digits [OF hd_in_set [OF dec_nonempty]])
  then show "hd (dec n) \<noteq> CHR ''=''" "hd (dec n) \<noteq> CHR 0x22" using not_digits by auto
qed

lemma arg_key_ok: "key_ok (CHR ''a'' # dec i)"
  using not_in_digits(1) [OF not_digits(4)] not_in_digits(1) [OF not_digits(5)] by (simp add: key_ok_def)

lemma arg_field_ok: "field_ok (arg_field i a)"
proof (cases "arg_plain a")
  case True
  then have "CHR '' '' \<notin> set a" "CHR 0x22 \<notin> set a"
    using graphic_not by (auto simp: arg_plain_def list_all_iff)
  with True show ?thesis by (simp add: arg_field_def field_ok_def arg_key_ok)
next
  case False
  then have "a \<noteq> []" by (auto simp: arg_plain_def)
  then have ne: "hex_encode a \<noteq> []"
    by (metis length_hex_encode length_0_conv mult_eq_0_iff zero_neq_numeral)
  have hex: "is_hexdigit c" if "c \<in> set (hex_encode a)" for c
    using that hex_encode_hexdigits [of a] by (simp add: list_all_iff)
  have "CHR '' '' \<notin> set (hex_encode a)" using hex hexdigit_not(1) by blast
  moreover have "is_hexdigit (hd (hex_encode a))" using ne hex by simp
  ultimately show ?thesis
    using False ne hexdigit_not(2,3) by (auto simp: arg_field_def field_ok_def arg_key_ok)
qed

lemma execve_fields_ok: "list_all field_ok (execve_fields argv)"
proof -
  have "field_ok (''argc'', False, dec (length argv))"
    by (simp add: field_ok_def key_ok_def dec_value_ok)
  then show ?thesis by (simp add: execve_fields_def list_all_iff arg_field_ok)
qed

lemma lookup_arg:
  assumes "i < n"
  shows "lookup_field (map (\<lambda>i. arg_field i (argv ! i)) [0..<n]) (CHR ''a'' # dec i) =
     Some (snd (snd (arg_field i (argv ! i))), fst (snd (arg_field i (argv ! i))))"
  using assms
proof (induction n)
  case (Suc n)
  have app: "lookup_field (fs @ [f]) k =
      (case lookup_field fs k of Some x \<Rightarrow> Some x | None \<Rightarrow> lookup_field [f] k)" for fs f k
    by (simp add: lookup_field_def map_add_def split: option.splits)
  have none: "lookup_field (map (\<lambda>i. arg_field i (argv ! i)) [0..<n]) (CHR ''a'' # dec n) = None"
    by (auto simp: lookup_field_def map_of_eq_None_iff arg_field_def split: if_splits)
  obtain q v where qv: "arg_field n (argv ! n) = (CHR ''a'' # dec n, q, v)"
    by (cases "arg_plain (argv ! n)") (auto simp: arg_field_def)
  show ?case
  proof (cases "i = n")
    case True
    with none qv show ?thesis by (simp add: app)
  next
    case False
    with Suc show ?thesis by (simp add: app)
  qed
qed simp

lemma lookup_execve:
  assumes "i < length argv"
  shows "lookup_field (execve_fields argv) (CHR ''a'' # dec i) =
     Some (snd (snd (arg_field i (argv ! i))), fst (snd (arg_field i (argv ! i))))"
proof -
  have "dec i \<noteq> ''rgc''"
    using dec_digits [of "CHR ''r''" i] by (auto simp: is_digit_def bval_def)
  then show ?thesis using lookup_arg [OF assms] by (simp add: execve_fields_def)
qed

lemma field_string_decoded_arg:
  assumes "find_field_ex flds key = Some (snd (snd (arg_field i a)), fst (snd (arg_field i a)))"
    and "hexd_ok hexd"
  shows "field_string_decoded hexd flds key = shown_arg a"
proof (cases "arg_plain a")
  case True
  then have "list_all is_ascii a"
    by (auto simp: arg_plain_def list_all_iff is_graphic_ascii)
  with True assms show ?thesis
    by (simp add: field_string_decoded_def arg_field_def shown_arg_def)
next
  case False
  then have "a \<noteq> []" by (auto simp: arg_plain_def)
  then have "looks_hex_encoded (hex_encode a)"
    using hex_encode_hexdigits [of a] by (cases a) (auto simp: looks_hex_encoded_def)
  moreover have "from_utf8 (hex_encode a) = Some (hex_encode a)"
    using hex_encode_hexdigits [of a] by (intro from_utf8_ascii) (auto simp: list_all_iff hexdigit_not)
  ultimately show ?thesis using False assms
    by (simp add: field_string_decoded_def decode_hex_string_def arg_field_def shown_arg_def hexd_ok_def)
qed

text \<open>every argument of an execve record is recovered: whatever the bytes of the arguments, the
  record the kernel writes for \<open>argv\<close> (quoted where printable, hexadecimal otherwise) is parsed into
  exactly \<open>argc\<close> arguments, in order, each the argument itself or, if it was hex-encoded, its
  bytes with the control characters escaped.\<close>

theorem execve_args_roundtrip:
  assumes "length argv < 2 ^ 32" and "hexd_ok hexd"
  shows "parse_execve_args hexd (record_text secs ms serial (execve_fields argv)) = map shown_arg argv"
proof -
  let ?f = "skip_header (record_text secs ms serial (execve_fields argv))"
  have look: "find_field_ex ?f key = lookup_field (execve_fields argv) key" if "key_ok key" for key
    using execve_fields_ok that by (rule find_field_record)
  have "find_field ?f ''argc'' = Some (dec (length argv))"
    using look [of "''argc''"] by (simp add: find_field_def execve_fields_def key_ok_def)
  then have argc: "unat (field_u32 ?f ''argc'') = length argv"
    using assms(1) by (simp add: field_u32_def unat_of_nat)
  have "field_string_decoded hexd ?f (CHR ''a'' # dec i) = shown_arg (argv ! i)" if "i < length argv" for i
  proof -
    show ?thesis
      using look [OF arg_key_ok] lookup_execve [OF that] assms(2) by (intro field_string_decoded_arg) simp_all
  qed
  then have "map (\<lambda>i. field_string_decoded hexd ?f (CHR ''a'' # dec i)) [0..<length argv] = map shown_arg argv"
    by (intro nth_equalityI) simp_all
  then show ?thesis by (simp add: parse_execve_args_def argc)
qed

text \<open>A decoder as the \<open>hex\<close> crate documents it: pairs of digits, nothing else accepted.\<close>

fun hex_decode_pairs :: "string \<Rightarrow> string option" where
  "hex_decode_pairs [] = Some []"
| "hex_decode_pairs [c] = None"
| "hex_decode_pairs (a # b # s) =
     (if is_hexdigit a \<and> is_hexdigit b
      then map_option ((#) (char_of (hex_val a * 16 + hex_val b))) (hex_decode_pairs s) else None)"

lemma hex_decode_pairs_ok: "hexd_ok hex_decode_pairs"
proof -
  have "hex_decode_pairs (hex_encode s) = Some s" for s
  proof (induction s)
    case (Cons c s)
    then show ?case by (simp add: hex_encode_def hex_upper_props)
  qed (simp add: hex_encode_def)
  then show ?thesis by (simp add: hexd_ok_def)
qed

theorem execve_args_roundtrip_witness:
  "parse_execve_args hex_decode_pairs (record_text 1 2 3 (execve_fields [''sh'', ''-c'', ''a b'']))
     = [''sh'', ''-c'', ''a b'']"
proof -
  have "map shown_arg [''sh'', ''-c'', ''a b''] = [''sh'', ''-c'', ''a b'']"
    by (simp add: shown_arg_def arg_plain_def escape_byte_def char_classes bval_def)
  then show ?thesis
    using execve_args_roundtrip [of "[''sh'', ''-c'', ''a b'']", OF _ hex_decode_pairs_ok, of 1 2 3] by simp
qed

section \<open>The syscall record\<close>

fun hexn :: "nat \<Rightarrow> string" where
  "hexn n = (if n < 16 then [hex_digit n] else hexn (n div 16) @ [hex_digit (n mod 16)])"

declare hexn.simps [simp del]

lemma hexn_props: "list_all is_hexdigit (hexn n) \<and> hex_str_val (hexn n) = n \<and> hexn n \<noteq> []"
proof (induction n rule: hexn.induct)
  case (1 n)
  have snoc: "hex_str_val (s @ [c]) = hex_str_val s * 16 + hex_val c" for s c
    by (simp add: hex_str_val_def)
  show ?case
  proof (cases "n < 16")
    case True
    then show ?thesis
      using snoc [of "[]"] by (simp add: hexn.simps [of n] hex_digit_props hex_str_val_def)
  next
    case False
    with "1.IH" show ?thesis
      by (simp add: hexn.simps [of n] snoc hex_digit_props)
  qed
qed

lemma parse_raw_hexn [simp]: "parse_raw_hex_bytes (hexn (unat w)) = w"
proof -
  have "takeWhile is_hexdigit (hexn (unat w)) = hexn (unat w)"
    using hexn_props [of "unat w"] by (intro takeWhile_eq_all_conv [THEN iffD2]) (simp add: list_all_iff)
  then have "parse_raw_hex_bytes (hexn (unat w)) = of_nat (hex_str_val (hexn (unat w)))"
    by (simp only: parse_raw_hex_bytes_spec)
  then show ?thesis using hexn_props [of "unat w"] by simp
qed

text \<open>The fields of an \<open>AUDIT_SYSCALL\<close> record in the kernel's order.\<close>

definition syscall_fields :: "SyscallFields \<Rightarrow> field list" where
  "syscall_fields r =
     [(''arch'', False, ''c000003e''), (''syscall'', False, dec (unat (sf_syscall r))),
      (''success'', False, if sf_success r then ''yes'' else ''no''),
      (''exit'', False, dec_int (sf_exit_value r)),
      (''a0'', False, hexn (unat (sf_a0 r))), (''a1'', False, hexn (unat (sf_a1 r))),
      (''a2'', False, hexn (unat (sf_a2 r))), (''a3'', False, hexn (unat (sf_a3 r))),
      (''ppid'', False, dec (unat (sf_ppid r))), (''pid'', False, dec (unat (sf_pid r))),
      (''comm'', True, sf_comm r), (''exe'', True, sf_exe r),
      (''subj'', False, sf_subj r), (''key'', True, ''syscon'')]"

text \<open>Records that the kernel writes without hex-encoding the names.\<close>

definition syscall_plain :: "SyscallFields \<Rightarrow> bool" where
  "syscall_plain r \<longleftrightarrow> arg_plain (sf_comm r) \<and> arg_plain (sf_exe r) \<and> arg_plain (sf_subj r) \<and>
     sf_subj r \<noteq> [] \<and> hd (sf_subj r) \<noteq> CHR ''='' \<and>
     - (2 ^ 63) \<le> sf_exit_value r \<and> sf_exit_value r < 2 ^ 63"

lemma dec_int_value_ok:
  "CHR '' '' \<notin> set (dec_int n)" "hd (dec_int n) \<noteq> CHR ''=''" "hd (dec_int n) \<noteq> CHR 0x22" "dec_int n \<noteq> []"
  using dec_value_ok by (simp_all add: dec_int_def)

lemma hexn_value_ok: "CHR '' '' \<notin> set (hexn n)" "hd (hexn n) \<noteq> CHR ''=''" "hd (hexn n) \<noteq> CHR 0x22" "hexn n \<noteq> []"
  using hexn_props [of n] hexdigit_not
  by (auto simp: list_all_iff) (metis hd_in_set hexdigit_not(2,3))+

lemma arg_plain_value:
  assumes "arg_plain a"
  shows "CHR '' '' \<notin> set a" "CHR 0x22 \<notin> set a" "list_all is_ascii a" "from_utf8 a = Some a"
  using assms graphic_not by (auto simp: arg_plain_def list_all_iff is_graphic_ascii)

lemma syscall_fields_ok:
  assumes "syscall_plain r"
  shows "list_all field_ok (syscall_fields r)"
proof -
  have "hd (sf_subj r) \<in> set (sf_subj r)" "CHR 0x22 \<notin> set (sf_subj r)"
    using assms arg_plain_value(2) [of "sf_subj r"] by (simp_all add: syscall_plain_def)
  then have "hd (sf_subj r) \<noteq> CHR 0x22" by metis
  with assms show ?thesis
    using arg_plain_value [of "sf_comm r"] arg_plain_value [of "sf_exe r"] arg_plain_value [of "sf_subj r"]
    by (simp add: syscall_fields_def field_ok_def key_ok_def syscall_plain_def
        dec_value_ok dec_int_value_ok hexn_value_ok)
qed

lemma dec_int_utf8: "from_utf8 (dec_int n) = Some (dec_int n)"
proof -
  have "list_all is_ascii (dec_int n)"
    using dec_digits is_digit_ascii by (auto simp: dec_int_def list_all_iff is_ascii_def bval_def)
  then show ?thesis by simp
qed

lemma unat_u32_less: "unat (w :: u32) < 2 ^ 32"
  using unsigned_less [of w, where ?'a = nat] by simp



text \<open>Serial number and timestamp of a record header are read back: the serial exactly, the
  timestamp as seconds times 1000 plus milliseconds, for every value that fits into 64 bits, and
  without a panic.\<close>

theorem header_roundtrip:
  assumes "serial < 2 ^ 64" and "secs * 1000 + ms < 2 ^ 64"
  shows "parse_serial (record_text secs ms serial fs) = Some (Some (of_nat serial)) \<and>
     parse_timestamp_ms (record_text secs ms serial fs) = Some (Some (of_nat (secs * 1000 + ms)))"
proof -
  have sm: "secs < 2 ^ 64" "ms < 2 ^ 64" "secs * 1000 < 2 ^ 64" using assms(2) by simp_all
  have serial: "parse_serial (record_text secs ms serial fs) = Some (parse_u64_bytes (dec serial))"
    using parse_serial_header [of "dec secs @ CHR ''.'' # pad3 ms" "dec serial" "'': '' @ render_fields fs"]
      not_in_digits [OF not_digits(1)] not_in_digits [OF not_digits(2)]
    by (simp add: record_text_def header_text_def)
  have u: "unat (of_nat secs :: u64) = secs" "unat (of_nat ms :: u64) = ms"
    "unat (of_nat secs * 1000 :: u64) = secs * 1000"
    using sm by (simp_all add: unat_of_nat unat_word_ariths)
  have "checked_mul (of_nat secs) 1000 = Some (of_nat secs * 1000)"
    using sm u by (simp add: checked_mul_def)
  moreover have "checked_add (of_nat secs * 1000) (of_nat ms) = Some (of_nat (secs * 1000 + ms))"
    using assms(2) u by (simp add: checked_add_def)
  ultimately have "parse_timestamp_ms (record_text secs ms serial fs) = Some (Some (of_nat (secs * 1000 + ms)))"
    using parse_timestamp_header [of "dec secs" "pad3 ms" "of_nat secs" "of_nat ms"]
      not_in_digits [OF not_digits(1)] not_in_digits [OF not_digits(3)] sm(1,2)
    by (simp add: record_text_def header_text_def)
  with serial assms(1) show ?thesis by simp
qed

theorem header_roundtrip_witness:
  "parse_serial (record_text 1775080751 254 146448013 []) = Some (Some 146448013) \<and>
   parse_timestamp_ms (record_text 1775080751 254 146448013 []) = Some (Some 1775080751254)"
  using header_roundtrip [of 146448013 1775080751 254 "[]"] by simp

text \<open>A header whose closing parenthesis comes before the colon makes \<open>parse_serial\<close> panic: the
  slice between them has a reversed range.\<close>

theorem parse_serial_panics:
  assumes "CHR '':'' \<notin> set a" "CHR '')'' \<notin> set a" "CHR '':'' \<notin> set b"
  shows "parse_serial (audit_open @ a @ CHR '')'' # b @ CHR '':'' # c) = None"
proof -
  let ?t = "a @ CHR '')'' # b @ CHR '':'' # c"
  have "find_char CHR '')'' ?t = Some (length a)" using assms(2) by (rule find_char_append)
  moreover have "find_char CHR '':'' ((a @ CHR '')'' # b) @ CHR '':'' # c) = Some (length (a @ CHR '')'' # b))"
    using assms by (intro find_char_append) auto
  ultimately show ?thesis
    by (simp add: parse_serial_def Let_def slice_def)
qed

theorem parse_serial_panics_witness: "parse_serial ''audit(1.2)3:4'' = None"
  using parse_serial_panics [of "''1.2''" "''3''" "''4''"] by (simp add: audit_open_def)

end
