(* ===== verification/Net_Addr.thy ===== *)
theory Net_Addr
  imports Rust_Text
begin

text \<open>
  Network addresses: \<open>Ipv4Addr\<close> and \<open>Ipv6Addr\<close> of the standard library with their text forms,
  and the \<open>SocketTarget\<close> of \<open>src/src/ingest.rs\<close>. An IPv4 address is its four octets, an IPv6
  address the list of its sixteen bytes.
\<close>

type_synonym ipv4 = "u8 \<times> u8 \<times> u8 \<times> u8"
type_synonym ipv6 = "u8 list"

definition is_loopback :: "ipv4 \<Rightarrow> bool" where
  "is_loopback = (\<lambda>(a, b, c, d). a = 127)"

definition dec8 :: "u8 \<Rightarrow> string" where
  "dec8 b = dec (unat b)"

definition show_ipv4 :: "ipv4 \<Rightarrow> string" where
  "show_ipv4 = (\<lambda>(a, b, c, d). join ''.'' [dec8 a, dec8 b, dec8 c, dec8 d])"

text \<open>
  \<open>str::parse::<Ipv4Addr>\<close>: four decimal numbers of at most three digits, none above 255, a
  leading zero only in \<open>0\<close> itself.
\<close>

definition parse_octet :: "string \<Rightarrow> u8 option" where
  "parse_octet s =
     (if s \<noteq> [] \<and> length s \<le> 3 \<and> list_all is_digit s \<and> (length s = 1 \<or> hd s \<noteq> CHR ''0'')
         \<and> digits_val s < 256
      then Some (of_nat (digits_val s)) else None)"

definition parse_ipv4 :: "string \<Rightarrow> ipv4 option" where
  "parse_ipv4 s =
     (case map parse_octet (split_char CHR ''.'' s) of
        [Some a, Some b, Some c, Some d] \<Rightarrow> Some (a, b, c, d)
      | _ \<Rightarrow> None)"

lemma dec_length_3: "n < 256 \<Longrightarrow> length (dec n) \<le> 3"
  by (simp add: dec.simps [of n] dec.simps [of "n div 10"] dec.simps [of "n div 10 div 10"])

lemma dec_hd_zero: "length (dec n) = 1 \<or> hd (dec n) \<noteq> CHR ''0''"
proof (induction n rule: dec.induct)
  case (1 n)
  show ?case
  proof (cases "n < 10")
    case True
    then show ?thesis by (simp add: dec.simps [of n])
  next
    case False
    then have nz: "n div 10 \<noteq> 0" by simp
    have "hd (dec (n div 10)) \<noteq> CHR ''0''"
    proof (cases "n div 10 < 10")
      case True
      then have "bval (digit_char (n div 10)) = 48 + n div 10" by (rule digit_char_props)
      then have "digit_char (n div 10) \<noteq> CHR ''0''" using nz by (auto simp: bval_def)
      with True show ?thesis by (simp add: dec.simps [of "n div 10"])
    next
      case False
      then have "length (dec (n div 10)) \<noteq> 1" by (simp add: dec.simps [of "n div 10"])
      with "1.IH" \<open>\<not> n < 10\<close> show ?thesis by blast
    qed
    with False show ?thesis by (simp add: dec.simps [of n])
  qed
qed

lemma parse_octet_dec8 [simp]: "parse_octet (dec8 b) = Some b"
  using unat_u8_less [of b] dec_hd_zero [of "unat b"] dec_length_3 [of "unat b"]
  by (auto simp: parse_octet_def dec8_def list_all_iff dec_digits)

lemma split_char_join:
  assumes "ps \<noteq> []" "\<And>p. p \<in> set ps \<Longrightarrow> c \<notin> set p"
  shows "split_char c (join [c] ps) = ps"
proof -
  have one: "c \<notin> set p \<Longrightarrow> split_char c p = [p]" for p
    by (induction p) auto
  have app: "c \<notin> set p \<Longrightarrow> split_char c (p @ c # r) = p # split_char c r" for p r
    by (induction p) auto
  from assms show ?thesis
  proof (induction ps)
    case (Cons p ps)
    then show ?case by (cases "ps = []") (simp_all add: one app join_Cons)
  qed simp
qed

lemma parse_show_ipv4 [simp]: "parse_ipv4 (show_ipv4 ip) = Some ip"
proof -
  obtain a b c d where ip: "ip = (a, b, c, d)" by (cases ip)
  have "CHR ''.'' \<notin> set (dec8 x)" for x
    using dec_not_in [of "CHR ''.''"] by (simp add: dec8_def is_digit_def bval_def)
  then have "split_char CHR ''.'' (show_ipv4 ip) = [dec8 a, dec8 b, dec8 c, dec8 d]"
    using split_char_join [of "[dec8 a, dec8 b, dec8 c, dec8 d]" "CHR ''.''"] ip
    by (auto simp: show_ipv4_def)
  then show ?thesis using ip by (simp add: parse_ipv4_def)
qed

section \<open>IPv6 text\<close>

fun segments :: "u8 list \<Rightarrow> nat list" where
  "segments (a # b # r) = (unat a * 256 + unat b) # segments r"
| "segments _ = []"

definition to_ipv4_mapped :: "ipv6 \<Rightarrow> ipv4 option" where
  "to_ipv4_mapped ip =
     (if length ip = 16 \<and> take 12 ip = replicate 10 0 @ [255, 255]
      then Some (ip ! 12, ip ! 13, ip ! 14, ip ! 15) else None)"

fun hex_lower :: "nat \<Rightarrow> string" where
  "hex_lower n = (if n < 16 then [hex_digit n] else hex_lower (n div 16) @ [hex_digit (n mod 16)])"

declare hex_lower.simps [simp del]

text \<open>The first longest run of zero segments, as (start, length).\<close>

fun zero_run :: "nat \<Rightarrow> nat \<times> nat \<Rightarrow> nat \<times> nat \<Rightarrow> nat list \<Rightarrow> nat \<times> nat" where
  "zero_run i cur best [] = best"
| "zero_run i cur best (x # xs) =
     (if x = 0
      then (let cur' = (if snd cur = 0 then (i, 1) else (fst cur, snd cur + 1));
                best' = (if snd best < snd cur' then cur' else best)
            in zero_run (Suc i) cur' best' xs)
      else zero_run (Suc i) (0, 0) best xs)"

definition show_segments :: "nat list \<Rightarrow> string" where
  "show_segments xs = join '':'' (map hex_lower xs)"

definition show_ipv6 :: "ipv6 \<Rightarrow> string" where
  "show_ipv6 ip =
     (case to_ipv4_mapped ip of
        Some v4 \<Rightarrow> ''::ffff:'' @ show_ipv4 v4
      | None \<Rightarrow>
          (let xs = segments ip; (start, len) = zero_run 0 (0, 0) (0, 0) xs
           in if 1 < len then show_segments (take start xs) @ ''::'' @ show_segments (drop (start + len) xs)
              else show_segments xs))"

section \<open>Socket targets\<close>

datatype SocketTarget =
    Inet ipv4 u16
  | Inet6 ipv6 u16
  | UnixSock string
  | UnknownSock u16 string

definition display_addr :: "SocketTarget \<Rightarrow> string" where
  "display_addr t =
     (case t of
        Inet addr port \<Rightarrow> show_ipv4 addr @ '':'' @ dec (unat port)
      | Inet6 addr port \<Rightarrow> ''['' @ show_ipv6 addr @ '']:'' @ dec (unat port)
      | UnixSock path \<Rightarrow> ''unix:'' @ path
      | UnknownSock family raw \<Rightarrow>
          if raw = [] then ''unknown(AF='' @ dec (unat family) @ '')'' else raw)"

text \<open>\<open>rsplit_once(':')\<close>, used on these texts to get the address before the port.\<close>

definition rsplit_once :: "char \<Rightarrow> string \<Rightarrow> (string \<times> string) option" where
  "rsplit_once c s =
     (case rfind_char c s of Some i \<Rightarrow> Some (take i s, drop (Suc i) s) | None \<Rightarrow> None)"

lemma rsplit_once_last:
  assumes "c \<notin> set b"
  shows "rsplit_once c (a @ c # b) = Some (a, b)"
proof -
  have "find_char c (rev b @ c # rev a) = Some (length (rev b))"
    using assms by (intro find_char_append) simp
  then show ?thesis by (simp add: rsplit_once_def rfind_char_def)
qed

text \<open>The address part of a displayed IPv4 target parses back.\<close>

lemma rsplit_display_inet:
  "rsplit_once CHR '':'' (display_addr (Inet ip port)) = Some (show_ipv4 ip, dec (unat port))"
  using rsplit_once_last [of "CHR '':''" "dec (unat port)" "show_ipv4 ip"] dec_not_in [of "CHR '':''" "unat port"]
  by (simp add: display_addr_def is_digit_def bval_def)

end
