(* ===== verification/Docker.thy ===== *)
theory Docker
  imports Net_Addr
begin

text \<open>
  \<open>src/src/docker.rs\<close>: container identifiers from cgroup paths, container addresses from
  \<open>fib_trie\<close>. The files are arguments: the content of \<open>/proc/PID/cgroup\<close> or
  \<open>/proc/PID/net/fib_trie\<close>, \<open>None\<close> where it cannot be read.
\<close>

section \<open>Container identifiers\<close>

definition hex_id :: "string \<Rightarrow> string option" where
  "hex_id candidate =
     (if 12 \<le> length candidate \<and> list_all is_hexdigit candidate then Some (take 12 candidate) else None)"

text \<open>
  The three patterns are tried in order: \<open>docker-ID.\<close> (systemd), \<open>/docker/ID\<close> (cgroupfs) and
  \<open>cri-containerd-ID.\<close>; a pattern whose candidate is not an identifier falls through.
\<close>

definition id_before_dot :: "string \<Rightarrow> string \<Rightarrow> string option" where
  "id_before_dot marker line =
     (case find_sub marker line of
        None \<Rightarrow> None
      | Some pos \<Rightarrow>
          let rest = drop (pos + length marker) line in
          case find_char CHR ''.'' rest of
            None \<Rightarrow> None
          | Some end \<Rightarrow> hex_id (take end rest))"

definition id_before_slash :: "string \<Rightarrow> string \<Rightarrow> string option" where
  "id_before_slash marker line =
     (case find_sub marker line of
        None \<Rightarrow> None
      | Some pos \<Rightarrow>
          let rest = drop (pos + length marker) line;
              end = (case find_char CHR ''/'' rest of Some e \<Rightarrow> e | None \<Rightarrow> length rest)
          in hex_id (take end rest))"

definition extract_container_id :: "string \<Rightarrow> string option" where
  "extract_container_id line =
     (case id_before_dot ''docker-'' line of
        Some i \<Rightarrow> Some i
      | None \<Rightarrow>
          (case id_before_slash ''/docker/'' line of
             Some i \<Rightarrow> Some i
           | None \<Rightarrow> id_before_dot ''cri-containerd-'' line))"

fun first_id :: "string list \<Rightarrow> string option" where
  "first_id [] = None"
| "first_id (l # ls) =
     (case extract_container_id l of Some i \<Rightarrow> Some i | None \<Rightarrow> first_id ls)"

definition container_from_pid :: "string option \<Rightarrow> string option" where
  "container_from_pid cgroup =
     (case cgroup of
        None \<Rightarrow> None
      | Some content \<Rightarrow>
          let lower = ascii_lower content in
          if contains lower ''buildkit'' \<or> contains lower ''buildx'' then None
          else first_id (lines content))"

text \<open>
  One directory entry of \<open>scan_container_pids\<close>: its name gives the container, its
  \<open>cgroup.procs\<close> the process ids. The slices \<open>[..12]\<close> are taken on names of ASCII characters.
\<close>

definition cgroup_dir_id :: "string \<Rightarrow> string option" where
  "cgroup_dir_id name =
     (case strip_prefix ''docker-'' name of
        Some rest \<Rightarrow> map_option (take 12) (strip_suffix ''.scope'' rest)
      | None \<Rightarrow>
          if length name = 64 \<and> list_all is_hexdigit name then Some (take 12 name) else None)"

definition procs_pids :: "string \<Rightarrow> u32 list" where
  "procs_pids content =
     map of_nat (List.map_filter (\<lambda>l. parse_unsigned (2 ^ 32) (trim l)) (lines content))"

definition scan_entry :: "(u32, string) hashmap \<Rightarrow> string \<times> string option \<Rightarrow> (u32, string) hashmap" where
  "scan_entry m e =
     (case (cgroup_dir_id (fst e), snd e) of
        (Some cid, Some content) \<Rightarrow> fold (\<lambda>pid m. hm_insert pid cid m) (procs_pids content) m
      | _ \<Rightarrow> m)"

definition scan_container_pids :: "(string \<times> string option) list \<Rightarrow> (u32, string) hashmap" where
  "scan_container_pids entries = foldl scan_entry [] entries"

section \<open>Container addresses\<close>

type_synonym fib_state = "ipv4 list \<times> ipv4 option"

definition fib_line :: "fib_state \<Rightarrow> string \<Rightarrow> fib_state" where
  "fib_line = (\<lambda>(ips, last_ip) line.
     let trimmed = trim line in
     case strip_prefix ''|-- '' trimmed of
       Some ip_str \<Rightarrow> (ips, parse_ipv4 ip_str)
     | None \<Rightarrow>
         if contains trimmed ''host LOCAL''
         then (case last_ip of
                 Some ip \<Rightarrow> (if \<not> is_loopback ip then push_unique ip ips else ips, None)
               | None \<Rightarrow> (ips, None))
         else (ips, None))"

definition container_ips_from_pid :: "string option \<Rightarrow> ipv4 list" where
  "container_ips_from_pid fib =
     (case fib of None \<Rightarrow> [] | Some content \<Rightarrow> fst (foldl fib_line ([], None) (lines content)))"

section \<open>Lemmas\<close>

lemma hex_id_Some: "hex_id s = Some i \<Longrightarrow> length i = 12 \<and> list_all is_hexdigit i"
  by (auto simp: hex_id_def list_all_iff split: if_splits dest: in_set_takeD)

lemma id_before_dot_Some: "id_before_dot m l = Some i \<Longrightarrow> length i = 12 \<and> list_all is_hexdigit i"
  by (auto simp: id_before_dot_def Let_def split: option.splits dest: hex_id_Some)

lemma id_before_slash_Some: "id_before_slash m l = Some i \<Longrightarrow> length i = 12 \<and> list_all is_hexdigit i"
  by (auto simp: id_before_slash_def Let_def split: option.splits dest: hex_id_Some)

lemma extract_container_id_Some:
  "extract_container_id l = Some i \<Longrightarrow> length i = 12 \<and> list_all is_hexdigit i"
  unfolding extract_container_id_def
  by (auto split: option.splits dest: id_before_dot_Some id_before_slash_Some)

lemma first_id_Some: "first_id ls = Some i \<Longrightarrow> length i = 12 \<and> list_all is_hexdigit i"
  by (induction ls) (auto split: option.splits dest: extract_container_id_Some)

lemma container_from_pid_Some:
  "container_from_pid c = Some i \<Longrightarrow> length i = 12 \<and> list_all is_hexdigit i"
  by (auto simp: container_from_pid_def Let_def split: option.splits if_splits dest: first_id_Some)

text \<open>A container identifier is the first twelve digits of the identifier in the cgroup path of
  the systemd driver, for every identifier of at least twelve hexadecimal digits and every prefix
  of the path in which the marker does not occur earlier.\<close>

theorem extract_container_id_systemd:
  assumes "12 \<le> length cid" and "list_all is_hexdigit cid"
    and "\<not> contains (pre @ ''docker'') ''docker-''"
  shows "extract_container_id (pre @ ''docker-'' @ cid @ ''.scope'') = Some (take 12 cid)"
proof -
  have "find_sub ''docker-'' (pre @ ''docker-'' @ (cid @ ''.scope'')) = Some (length pre)"
    using assms(3) by (intro find_sub_first) simp
  moreover have "find_char CHR ''.'' (cid @ CHR ''.'' # ''scope'') = Some (length cid)"
    using assms(2) by (intro find_char_append) (auto simp: list_all_iff char_classes bval_def)
  ultimately show ?thesis
    using assms(1,2) by (simp add: extract_container_id_def id_before_dot_def hex_id_def Let_def)
qed

theorem extract_container_id_systemd_witness:
  "extract_container_id ''0::/system.slice/docker-0123456789abcdef.scope'' = Some ''0123456789ab''"
proof -
  have "\<not> contains (''0::/system.slice/'' @ ''docker'') ''docker-''"
    by (simp add: contains_def starts_with_def)
  then show ?thesis
    using extract_container_id_systemd [of "''0123456789abcdef''" "''0::/system.slice/''"]
    by (simp add: char_classes bval_def)
qed

text \<open>
  The addresses reported for a container are never loopback addresses and never repeated.
\<close>

lemma fib_line_inv:
  "list_all (\<lambda>ip. \<not> is_loopback ip) (fst s) \<and> distinct (fst s) \<Longrightarrow>
   list_all (\<lambda>ip. \<not> is_loopback ip) (fst (fib_line s l)) \<and> distinct (fst (fib_line s l))"
  by (cases s) (auto simp: fib_line_def Let_def list_all_iff split: option.splits)

lemma container_ips_inv:
  "list_all (\<lambda>ip. \<not> is_loopback ip) (container_ips_from_pid f) \<and> distinct (container_ips_from_pid f)"
proof -
  have "list_all (\<lambda>ip. \<not> is_loopback ip) (fst (foldl fib_line s ls)) \<and> distinct (fst (foldl fib_line s ls))"
    if "list_all (\<lambda>ip. \<not> is_loopback ip) (fst s) \<and> distinct (fst s)" for s ls
    using that
  proof (induction ls arbitrary: s)
    case (Cons l ls)
    show ?case using Cons.IH [OF fib_line_inv [OF Cons.prems]] by simp
  qed simp
  from this [of "([], None)"] show ?thesis
    by (simp add: container_ips_from_pid_def split: option.splits)
qed

end
