(* ===== verification/Audit_Records.thy ===== *)
theory Audit_Records
  imports Audit_Format Docker
begin

text \<open>
  \<open>src/src/audit.rs\<close>: the assembly of multi-record audit events. A netlink message carries one
  record; the records of one event share a serial number, interleaved with those of other
  events. \<open>PendingEvents\<close> holds the partly assembled groups, the serials of events outside
  containers, and the highest serial for the eviction of stale groups. The socket calls are
  inputs: what \<open>recv\<close> returned, and the files read for the process at that moment.
\<close>

section \<open>State\<close>

record SyscallGroup =
  sg_serial :: u64
  sg_pid :: u32
  sg_ppid :: u32
  sg_syscall :: u32
  sg_success :: bool
  sg_comm :: string
  sg_exe :: string
  sg_a0 :: u64
  sg_a1 :: u64
  sg_a2 :: u64
  sg_a3 :: u64
  sg_exit_value :: i64
  sg_path_records :: "(u32 \<times> string \<times> string) list"
  sg_cwd :: string
  sg_sockaddr :: "SocketTarget option"
  sg_argv :: "string list"
  sg_is_container :: bool
  sg_container_id :: "string option"
  sg_timestamp_ms :: u64
  sg_container_ips :: "ipv4 list"

definition default_group :: SyscallGroup where
  "default_group =
     \<lparr>sg_serial = 0, sg_pid = 0, sg_ppid = 0, sg_syscall = 0, sg_success = False,
      sg_comm = [], sg_exe = [], sg_a0 = 0, sg_a1 = 0, sg_a2 = 0, sg_a3 = 0, sg_exit_value = 0,
      sg_path_records = [], sg_cwd = [], sg_sockaddr = None, sg_argv = [],
      sg_is_container = False, sg_container_id = None, sg_timestamp_ms = 0, sg_container_ips = []\<rparr>"

text \<open>The paths of a group: the records that do not name a parent directory, if there are any.\<close>

definition group_paths :: "SyscallGroup \<Rightarrow> string list" where
  "group_paths g =
     (let non_parent = map (\<lambda>(_, _, path). path)
            (filter (\<lambda>(_, nametype, _). nametype \<noteq> ''PARENT'') (sg_path_records g))
      in if non_parent \<noteq> [] then non_parent
         else map (\<lambda>(_, _, path). path) (sg_path_records g))"

record PendingEvents =
  pe_pending :: "(u64, SyscallGroup) hashmap"
  pe_skip_serials :: "u64 list"
  pe_max_serial :: u64

definition pending_new :: PendingEvents where
  "pending_new = \<lparr>pe_pending = [], pe_skip_serials = [], pe_max_serial = 0\<rparr>"

definition PENDING_GC_THRESHOLD :: nat where "PENDING_GC_THRESHOLD = 256"
definition PENDING_GC_SERIAL_WINDOW :: u64 where "PENDING_GC_SERIAL_WINDOW = 500"

definition gc :: "PendingEvents \<Rightarrow> PendingEvents" where
  "gc p =
     (if PENDING_GC_THRESHOLD < length (pe_pending p)
      then (let cutoff = saturating_sub (pe_max_serial p) PENDING_GC_SERIAL_WINDOW
            in p\<lparr>pe_pending := hm_retain (\<lambda>s. cutoff < s) (pe_pending p),
                 pe_skip_serials := filter (\<lambda>s. cutoff < s) (pe_skip_serials p)\<rparr>)
      else p)"

section \<open>Paths and socket addresses\<close>

definition strip_overlay_path :: "string \<Rightarrow> string" where
  "strip_overlay_path name =
     (case find_sub ''/merged/'' name of
        Some idx \<Rightarrow> drop (idx + 7) name
      | None \<Rightarrow>
          (case find_sub ''/fs/'' name of
             Some idx \<Rightarrow> drop (idx + 3) name
           | None \<Rightarrow>
               (case find_sub ''/rootfs/overlayfs/'' name of
                  Some idx \<Rightarrow>
                    (let after_prefix = drop (idx + 18) name
                     in case find_char CHR ''/'' after_prefix of
                          Some slash \<Rightarrow> drop slash after_prefix
                        | None \<Rightarrow> [])
                | None \<Rightarrow> name)))"

text \<open>The byte pairs of a hexadecimal text; a pair that is no number is skipped, a pair that cuts a
  multi-byte character panics.\<close>

fun hex_pair_bytes :: "string \<Rightarrow> u8 list panicking" where
  "hex_pair_bytes (a # b # s) =
     (if is_cont a \<or> (s \<noteq> [] \<and> is_cont (hd s)) then None
      else map_option (\<lambda>r. case u8_from_hex a b of Some v \<Rightarrow> v # r | None \<Rightarrow> r) (hex_pair_bytes s))"
| "hex_pair_bytes _ = Some []"

definition be16 :: "u8 \<Rightarrow> u8 \<Rightarrow> u16" where
  "be16 hi lo = of_nat (unat hi * 256 + unat lo)"

definition le16 :: "u8 \<Rightarrow> u8 \<Rightarrow> u16" where
  "le16 lo hi = of_nat (unat hi * 256 + unat lo)"

definition le32 :: "u8 \<Rightarrow> u8 \<Rightarrow> u8 \<Rightarrow> u8 \<Rightarrow> u32" where
  "le32 a b c d = of_nat (((unat d * 256 + unat c) * 256 + unat b) * 256 + unat a)"

definition netlink_names :: "(nat \<times> string) list" where
  "netlink_names =
     [(0, ''route''), (2, ''usersock''), (3, ''firewall''), (4, ''sock_diag''), (5, ''nflog''),
      (6, ''xfrm''), (7, ''selinux''), (8, ''iscsi''), (9, ''audit''), (10, ''fib_lookup''),
      (11, ''connector''), (12, ''netfilter''), (13, ''ip6_fw''), (15, ''kobject_uevent''),
      (16, ''generic''), (18, ''scsi''), (19, ''ecryptfs''), (20, ''rdma''), (21, ''crypto''), (22, ''smc'')]"

definition netlink_name :: "u32 \<Rightarrow> string" where
  "netlink_name proto =
     (case map_of netlink_names (unat proto) of Some n \<Rightarrow> n | None \<Rightarrow> ''unknown'')"

definition unix_path :: "u8 list \<Rightarrow> string" where
  "unix_path path_bytes =
     (if path_bytes \<noteq> [] \<and> hd path_bytes = 0
      then (let name = utf8_lossy (map char_of_byte (tl path_bytes))
            in CHR ''@'' # rev (dropWhile (\<lambda>c. c = CHR 0x00) (rev name)))
      else utf8_lossy (map char_of_byte (takeWhile (\<lambda>b. b \<noteq> 0) path_bytes)))"

definition sockaddr_target :: "u8 list \<Rightarrow> SocketTarget option" where
  "sockaddr_target bs =
     (if length bs < 2 then None
      else (let family = le16 (bs ! 0) (bs ! 1) in
        if family = 2 \<and> 8 \<le> length bs
        then Some (Inet (bs ! 4, bs ! 5, bs ! 6, bs ! 7) (be16 (bs ! 2) (bs ! 3)))
        else if family = 10 \<and> 8 \<le> length bs
        then (let port = be16 (bs ! 2) (bs ! 3);
                  copied = take 16 (drop 8 bs);
                  addr = copied @ replicate (16 - length copied) 0
              in case to_ipv4_mapped addr of
                   Some v4 \<Rightarrow> Some (Inet v4 port)
                 | None \<Rightarrow> Some (Inet6 addr port))
        else if family = 1 \<and> 2 < length bs then Some (UnixSock (unix_path (drop 2 bs)))
        else if family = 16
        then (let proto = (if 8 \<le> length bs then le32 (bs ! 4) (bs ! 5) (bs ! 6) (bs ! 7) else 0)
              in Some (UnknownSock family (''netlink:'' @ netlink_name proto)))
        else if family = 17 then Some (UnknownSock family ''packet:raw'')
        else Some (UnknownSock family (''af'' @ dec (unat family)))))"

definition decode_sockaddr :: "string \<Rightarrow> SocketTarget option panicking" where
  "decode_sockaddr hex = map_option sockaddr_target (hex_pair_bytes hex)"

section \<open>One record\<close>

text \<open>What the code reads from outside while it handles a record.\<close>

record audit_env =
  env_hexd :: "string \<Rightarrow> string option"
  env_cgroup :: "u32 \<Rightarrow> string option"
  env_fib :: "u32 \<Rightarrow> string option"

datatype recv_result = Record SyscallGroup | Pending | WouldBlock

datatype audit_error = AuditIo nat

definition serial_or_0 :: "string \<Rightarrow> u64 panicking" where
  "serial_or_0 payload =
     map_option (\<lambda>s. case s of Some n \<Rightarrow> n | None \<Rightarrow> 0) (parse_serial payload)"

definition fill_group :: "audit_env \<Rightarrow> u64 \<Rightarrow> u64 \<Rightarrow> SyscallFields \<Rightarrow> SyscallGroup \<Rightarrow> SyscallGroup" where
  "fill_group env serial ts f g0 =
     (let g = g0\<lparr>sg_serial := serial, sg_timestamp_ms := ts, sg_pid := sf_pid f, sg_ppid := sf_ppid f,
                 sg_syscall := sf_syscall f, sg_success := sf_success f, sg_comm := sf_comm f,
                 sg_exe := sf_exe f, sg_a0 := sf_a0 f, sg_a1 := sf_a1 f, sg_a2 := sf_a2 f,
                 sg_a3 := sf_a3 f, sg_exit_value := sf_exit_value f, sg_is_container := True\<rparr>
      in if sg_container_id g = None
         then (let cid = container_from_pid (env_cgroup env (sf_pid f));
                   g' = g\<lparr>sg_container_id := cid\<rparr>
               in if cid \<noteq> None
                  then g'\<lparr>sg_container_ips := container_ips_from_pid (env_fib env (sf_pid f))\<rparr>
                  else g')
         else g)"

definition recv_syscall :: "audit_env \<Rightarrow> string \<Rightarrow> PendingEvents \<Rightarrow> (recv_result \<times> PendingEvents) panicking" where
  "recv_syscall env payload p =
     do {
       serial \<leftarrow> serial_or_0 payload;
       if serial = 0 then Some (Pending, p)
       else
         let p1 = p\<lparr>pe_max_serial := max (pe_max_serial p) serial\<rparr>;
             f = parse_syscall payload
         in if sf_subj f \<noteq> ''docker-default''
            then Some (Pending, p1\<lparr>pe_skip_serials := push_unique serial (pe_skip_serials p1)\<rparr>)
            else do {
              ts \<leftarrow> parse_timestamp_ms payload;
              let pend = hm_or_insert serial default_group (pe_pending p1);
              Some (Pending, p1\<lparr>pe_pending :=
                hm_modify serial (fill_group env serial (case ts of Some t \<Rightarrow> t | None \<Rightarrow> 0) f) pend\<rparr>)
            }
     }"

text \<open>The ancillary records: ignored for skipped serials and for serials without a group.\<close>

definition on_group ::
  "string \<Rightarrow> (SyscallGroup \<Rightarrow> SyscallGroup panicking) \<Rightarrow> PendingEvents \<Rightarrow> (recv_result \<times> PendingEvents) panicking" where
  "on_group payload f p =
     do {
       serial \<leftarrow> serial_or_0 payload;
       if serial \<in> set (pe_skip_serials p) then Some (Pending, p)
       else case hm_get (pe_pending p) serial of
              None \<Rightarrow> Some (Pending, p)
            | Some g \<Rightarrow> do {
                g' \<leftarrow> f g;
                Some (Pending, p\<lparr>pe_pending := hm_insert serial g' (pe_pending p)\<rparr>)
              }
     }"

definition add_path :: "string \<Rightarrow> SyscallGroup \<Rightarrow> SyscallGroup panicking" where
  "add_path payload g =
     (let f = parse_path payload; name = pf_name f
      in Some (if name \<noteq> [] \<and> \<not> starts_with name ''/proc/'' \<and> name \<noteq> ''(null)'' \<and> name \<noteq> ''.'' \<and> name \<noteq> ''/''
         then (let path = strip_overlay_path name
               in if path \<noteq> [] then g\<lparr>sg_path_records := sg_path_records g @ [(pf_item f, pf_nametype f, path)]\<rparr>
                  else g)
         else g))"

definition set_sockaddr :: "string \<Rightarrow> SyscallGroup \<Rightarrow> SyscallGroup panicking" where
  "set_sockaddr payload g =
     (let saddr = parse_sockaddr payload
      in if saddr \<noteq> []
         then (let hex = (case find_sub ''SADDR'' saddr of Some idx \<Rightarrow> take idx saddr | None \<Rightarrow> saddr)
               in map_option (\<lambda>t. g\<lparr>sg_sockaddr := t\<rparr>) (decode_sockaddr hex))
         else Some g)"

definition set_cwd :: "string \<Rightarrow> SyscallGroup \<Rightarrow> SyscallGroup panicking" where
  "set_cwd payload g =
     (let cwd = parse_cwd payload in Some (if cwd \<noteq> [] then g\<lparr>sg_cwd := cwd\<rparr> else g))"

definition set_argv :: "audit_env \<Rightarrow> string \<Rightarrow> SyscallGroup \<Rightarrow> SyscallGroup panicking" where
  "set_argv env payload g = Some (g\<lparr>sg_argv := parse_execve_args (env_hexd env) payload\<rparr>)"

definition emits :: "SyscallGroup \<Rightarrow> bool" where
  "emits g \<longleftrightarrow> 0 < sg_pid g \<and> (sg_success g \<or> sg_sockaddr g \<noteq> None)"

definition recv_eoe :: "string \<Rightarrow> PendingEvents \<Rightarrow> (recv_result \<times> PendingEvents) panicking" where
  "recv_eoe payload p =
     do {
       serial \<leftarrow> serial_or_0 payload;
       Some (if serial \<in> set (pe_skip_serials p)
         then (Pending, p\<lparr>pe_skip_serials := filter (\<lambda>s. s \<noteq> serial) (pe_skip_serials p)\<rparr>)
         else (case hm_get (pe_pending p) serial of
                 Some g \<Rightarrow>
                   let p1 = p\<lparr>pe_pending := hm_remove serial (pe_pending p)\<rparr>
                   in (if emits g then (Record g, gc p1) else (Pending, gc p1))
               | None \<Rightarrow> (Pending, gc p)))
     }"

definition recv_record :: "audit_env \<Rightarrow> nat \<Rightarrow> string \<Rightarrow> PendingEvents \<Rightarrow> (recv_result \<times> PendingEvents) panicking" where
  "recv_record env msg_type payload p =
     (if msg_type = 1300 then recv_syscall env payload p
      else if msg_type = 1302 then on_group payload (add_path payload) p
      else if msg_type = 1306 then on_group payload (set_sockaddr payload) p
      else if msg_type = 1307 then on_group payload (set_cwd payload) p
      else if msg_type = 1309 then on_group payload (set_argv env payload) p
      else if msg_type = 1320 then recv_eoe payload p
      else Some (Pending, p))"

text \<open>The outcome of \<open>recv\<close>: an error number or the received bytes. The errors EAGAIN (11), EINTR
  (4) and ENOBUFS (105) mean that there is nothing to read now.\<close>

datatype os_recv = OsError nat | OsBytes string

definition try_recv ::
  "audit_env \<Rightarrow> os_recv \<Rightarrow> PendingEvents \<Rightarrow> ((audit_error + recv_result) \<times> PendingEvents) panicking" where
  "try_recv env input p =
     (case input of
        OsError e \<Rightarrow> Some (if e \<in> {11, 4, 105} then Inr WouldBlock else Inl (AuditIo e), p)
      | OsBytes buf \<Rightarrow>
          if length buf < 16 then Some (Inr Pending, p)
          else (let msg_type = bval (buf ! 4) + 256 * bval (buf ! 5)
                in if length buf \<le> 16 then Some (Inr Pending, p)
                   else map_option (\<lambda>(r, p'). (Inr r, p')) (recv_record env msg_type (drop 16 buf) p)))"

end
