(* ===== verification/Ingest.thy ===== *)
theory Ingest
  imports Audit_Records Syscalls
begin

text \<open>
  \<open>src/src/ingest.rs\<close>: the event that the ingestion hands to the handlers, and the classification
  of an assembled audit group by its system call name; \<open>src/src/util.rs\<close>: the decoding of process
  names. A \<open>BStr\<close> is its bytes; it becomes a \<open>String\<close> by lossy UTF-8 conversion.
\<close>

section \<open>Process names\<close>

record CommBuf =
  cb_buf :: string
  cb_len :: nat

definition CommBuf_new :: "string \<Rightarrow> CommBuf" where
  "CommBuf_new s =
     (let len = min (length s) 16
      in \<lparr>cb_buf = take len s @ replicate (16 - len) CHR 0x00, cb_len = len\<rparr>)"

definition CommBuf_as_str :: "CommBuf \<Rightarrow> string" where
  "CommBuf_as_str c = (case from_utf8 (take (cb_len c) (cb_buf c)) of Some s \<Rightarrow> s | None \<Rightarrow> [])"

lemma CommBuf_new_wf: "length (cb_buf (CommBuf_new s)) = 16 \<and> cb_len (CommBuf_new s) \<le> 16"
  by (simp add: CommBuf_new_def Let_def)

lemma CommBuf_as_str_new:
  "CommBuf_as_str (CommBuf_new s) = (case from_utf8 (take 16 s) of Some t \<Rightarrow> t | None \<Rightarrow> [])"
  by (simp add: CommBuf_as_str_def CommBuf_new_def Let_def min_def)

lemma CommBuf_ascii: "list_all is_ascii s \<Longrightarrow> CommBuf_as_str (CommBuf_new s) = take 16 s"
proof -
  assume "list_all is_ascii s"
  then have "list_all is_ascii (take 16 s)" by (auto simp: list_all_iff dest: in_set_takeD)
  then show ?thesis by (simp add: CommBuf_as_str_new)
qed

text \<open>\<open>decode_comm\<close>: the pairs of digits before the end, an odd last digit is left out.\<close>

fun hex_pairs :: "string \<Rightarrow> string" where
  "hex_pairs (a # b # s) =
     (case u8_from_hex a b of Some v \<Rightarrow> char_of_byte v # hex_pairs s | None \<Rightarrow> hex_pairs s)"
| "hex_pairs _ = []"

definition decode_comm :: "string \<Rightarrow> string" where
  "decode_comm comm =
     (if 8 < length comm \<and> list_all is_hexdigit comm
      then (case from_utf8 (hex_pairs comm) of
              Some s \<Rightarrow> if list_all (\<lambda>c. is_graphic c \<or> c = CHR '' '') s then s else comm
            | None \<Rightarrow> comm)
      else comm)"

text \<open>\<open>read_ppid\<close>, over the contents of \<open>/proc/{pid}/status\<close>.\<close>

definition read_ppid :: "string option \<Rightarrow> u32 option" where
  "read_ppid status =
     (case status of
        None \<Rightarrow> None
      | Some t \<Rightarrow>
          (case find (\<lambda>l. starts_with l (''PPid:'' @ [CHR 0x09])) (lines t) of
             None \<Rightarrow> None
           | Some l \<Rightarrow> map_option of_nat (parse_unsigned (2 ^ 32) (trim (drop 6 l)))))"

section \<open>Events\<close>

type_synonym BStr = string

definition to_str_lossy :: "BStr \<Rightarrow> string" where
  "to_str_lossy b = utf8_lossy b"

datatype SyscallDetail =
    File BStr u64 i64
  | Network SocketTarget u64
  | ExecDetail "BStr option"
  | Transfer u64 u64
  | Ipc string i64
  | ProcessDetail

record SyscallEvent =
  se_pid :: u32
  se_ppid :: u32
  se_syscall :: u32
  se_comm :: CommBuf
  se_exe :: BStr
  se_container_id :: string
  se_cmdline :: BStr
  se_detail :: SyscallDetail
  se_timestamp_ms :: u64
  se_container_ips :: "ipv4 list"

definition first_path :: "SyscallGroup \<Rightarrow> string" where
  "first_path g = (case group_paths g of [] \<Rightarrow> [] | p # ps \<Rightarrow> p)"

definition O_CREAT_WRONLY_TRUNC :: u64 where "O_CREAT_WRONLY_TRUNC = 577"

definition classify_syscall_group :: "string \<Rightarrow> SyscallGroup \<Rightarrow> SyscallDetail" where
  "classify_syscall_group name g =
     (if name \<in> {''openat'', ''openat2''} then File (first_path g) (sg_a2 g) (sg_exit_value g)
      else if name = ''open'' then File (first_path g) (sg_a1 g) (sg_exit_value g)
      else if name = ''creat'' then File (first_path g) O_CREAT_WRONLY_TRUNC (sg_exit_value g)
      else if name \<in> {''rename'', ''renameat'', ''renameat2''} then File (first_path g) 0 (sg_exit_value g)
      else if name \<in> {''unlink'', ''unlinkat'', ''chmod'', ''fchmodat'', ''chown'', ''fchownat''}
      then File (first_path g) 0 (sg_exit_value g)
      else if name \<in> {''execve'', ''execveat''}
      then ExecDetail (case group_paths g of [] \<Rightarrow> None | p # ps \<Rightarrow> Some p)
      else if name \<in> {''connect'', ''bind'', ''sendto'', ''sendmsg'', ''sendmmsg''}
      then (case sg_sockaddr g of Some target \<Rightarrow> Network target (sg_a0 g) | None \<Rightarrow> ProcessDetail)
      else if name \<in> {''recvmsg'', ''recvmmsg''}
      then (case sg_sockaddr g of Some target \<Rightarrow> Network target (sg_a0 g) | None \<Rightarrow> ProcessDetail)
      else if name = ''msgget'' then Ipc (''sysv_mq:'' @ dec_int (sg_exit_value g)) (sg_exit_value g)
      else if name \<in> {''msgsnd'', ''msgrcv'', ''msgctl''}
      then Ipc (''sysv_mq:'' @ dec (unat (sg_a0 g))) (u64_as_i64 (sg_a0 g))
      else if name = ''mq_open'' then Ipc (''posix_mq:'' @ first_path g) (sg_exit_value g)
      else if name \<in> {''mq_timedsend'', ''mq_timedreceive''} then Ipc [] (u64_as_i64 (sg_a0 g))
      else if name = ''sendfile'' then Transfer (sg_a1 g) (sg_a0 g)
      else if name \<in> {''splice'', ''copy_file_range''} then Transfer (sg_a0 g) (sg_a2 g)
      else if name = ''tee'' then Transfer (sg_a0 g) (sg_a1 g)
      else ProcessDetail)"

section \<open>Properties\<close>

lemma hex_pairs_hex2: "hex_pairs (concat (map (\<lambda>c. hex2 (bval c)) s)) = s"
proof (induction s)
  case (Cons c s)
  have "u8_from_hex (hex_digit (bval c div 16)) (hex_digit (bval c mod 16)) = Some (of_nat (bval c))"
    by (rule u8_from_hex_hex2) simp
  moreover have "char_of_byte (of_nat (bval c)) = c" using char_of_byte_byte_of [of c] by (simp add: byte_of_def)
  ultimately show ?case using Cons.IH by (simp add: hex2_def)
qed simp

lemma hex2_text_props:
  "length (concat (map (\<lambda>c. hex2 (bval c)) s)) = 2 * length s"
  "list_all is_hexdigit (concat (map (\<lambda>c. hex2 (bval c)) s))"
  by (induction s) (auto simp: hex2_def hex_digit_props less_mult_imp_div_less)

lemma decode_comm_hex:
  assumes "4 < length s" "list_all (\<lambda>c. is_graphic c \<or> c = CHR '' '') s"
  shows "decode_comm (concat (map (\<lambda>c. hex2 (bval c)) s)) = s"
proof -
  have "is_ascii CHR '' ''" by (simp add: is_ascii_def bval_def)
  with assms(2) have "list_all is_ascii s" by (auto simp: list_all_iff is_graphic_ascii)
  with assms show ?thesis
    by (simp only: decode_comm_def hex2_text_props hex_pairs_hex2 from_utf8_ascii) simp
qed

text \<open>
  A printable name of more than four bytes that the kernel logged in hexadecimal is decoded to
  the name, and a name that is not all hexadecimal digits is left alone.
\<close>

theorem decode_comm_roundtrip:
  "(4 < length s \<and> list_all (\<lambda>c. is_graphic c \<or> c = CHR '' '') s \<longrightarrow>
      decode_comm (concat (map (\<lambda>c. hex2 (bval c)) s)) = s) \<and>
   (\<not> list_all is_hexdigit s \<or> length s \<le> 8 \<longrightarrow> decode_comm s = s)"
  using decode_comm_hex by (auto simp: decode_comm_def)

theorem decode_comm_roundtrip_witness:
  "decode_comm ''6e706d2072756e'' = ''npm run'' \<and> decode_comm ''bash'' = ''bash''"
proof -
  have "concat (map (\<lambda>c. hex2 (bval c)) ''npm run'') = ''6e706d2072756e''" by code_simp
  moreover have "list_all (\<lambda>c. is_graphic c \<or> c = CHR '' '') ''npm run''" by code_simp
  ultimately show ?thesis
    using decode_comm_roundtrip [of "''npm run''"] decode_comm_roundtrip [of "''bash''"] by simp
qed

text \<open>
  The buffer of a process name holds at most its first 16 bytes, so a printable name is cut to
  16 bytes and nothing else; in particular a hexadecimal name of a longer command keeps only its
  first 8 characters when it is decoded after the buffer.
\<close>

theorem comm_buffer_truncates:
  assumes "list_all (\<lambda>c. is_graphic c \<or> c = CHR '' '') s"
  shows "CommBuf_as_str (CommBuf_new s) = take 16 s \<and>
    (8 \<le> length s \<longrightarrow>
       decode_comm (CommBuf_as_str (CommBuf_new (concat (map (\<lambda>c. hex2 (bval c)) s)))) = take 8 s)"
proof
  have "is_ascii CHR '' ''" by (simp add: is_ascii_def bval_def)
  with assms have "list_all is_ascii s" by (auto simp: list_all_iff is_graphic_ascii)
  then show "CommBuf_as_str (CommBuf_new s) = take 16 s" by (rule CommBuf_ascii)
  show "8 \<le> length s \<longrightarrow>
       decode_comm (CommBuf_as_str (CommBuf_new (concat (map (\<lambda>c. hex2 (bval c)) s)))) = take 8 s"
  proof
    assume len: "8 \<le> length s"
    let ?t = "take 8 s" and ?r = "drop 8 s"
    let ?h = "\<lambda>s. concat (map (\<lambda>c. hex2 (bval c)) s)"
    have "length (?h ?t) = 16" using hex2_text_props(1) [of ?t] len by simp
    moreover have "?h s = ?h ?t @ ?h ?r"
      by (simp flip: concat_append map_append)
    ultimately have "take 16 (?h s) = ?h ?t" by simp
    moreover have "list_all is_ascii (?h s)"
      using hex2_text_props(2) [of s] by (auto simp: list_all_iff is_hexdigit_ascii)
    ultimately have "CommBuf_as_str (CommBuf_new (?h s)) = ?h ?t" by (simp add: CommBuf_ascii)
    moreover have "list_all (\<lambda>c. is_graphic c \<or> c = CHR '' '') ?t"
      using assms by (auto simp: list_all_iff dest: in_set_takeD)
    then have "decode_comm (?h ?t) = ?t" using decode_comm_hex [of ?t] len by simp
    ultimately show "decode_comm (CommBuf_as_str (CommBuf_new (?h s))) = take 8 s" by simp
  qed
qed

theorem comm_buffer_truncates_witness:
  "CommBuf_as_str (CommBuf_new ''containerd-shim-runc-v2'') = ''containerd-shim-''"
proof -
  have "list_all (\<lambda>c. is_graphic c \<or> c = CHR '' '') ''containerd-shim-runc-v2''" by code_simp
  from comm_buffer_truncates [OF this] show ?thesis by simp
qed

end
