(* ===== verification/Events.thy ===== *)
theory Events
  imports Rust_Str
begin

text \<open>
  \<open>src/src/events.rs\<close>: the observed events and the log of one action. File and network events are
  counted per process and operation, the first file event of each pair is kept in full, process
  events are all kept. The counters are natural numbers (2^64 events are out of reach); the wall
  clock is an input.
\<close>

datatype FileOp = Open | OpenWrite | Read | Write | Unlink | Rename | Chmod | Chown | Exec

definition show_FileOp :: "FileOp \<Rightarrow> string" where
  "show_FileOp op =
     (case op of Open \<Rightarrow> ''open_read'' | OpenWrite \<Rightarrow> ''open_write'' | Read \<Rightarrow> ''read''
      | Write \<Rightarrow> ''write'' | Unlink \<Rightarrow> ''unlink'' | Rename \<Rightarrow> ''rename'' | Chmod \<Rightarrow> ''chmod''
      | Chown \<Rightarrow> ''chown'' | Exec \<Rightarrow> ''exec'')"

record FileEvent =
  fe_pid :: u32
  fe_timestamp :: u64
  fe_operation :: FileOp
  fe_path :: string
  fe_flags :: u32
  fe_is_sensitive :: bool
  fe_is_new_binary :: bool

datatype NetOp = Socket | Connect | Bind | Accept | SendTo | RecvFrom

definition show_NetOp :: "NetOp \<Rightarrow> string" where
  "show_NetOp op =
     (case op of Socket \<Rightarrow> ''socket'' | Connect \<Rightarrow> ''connect'' | Bind \<Rightarrow> ''bind''
      | Accept \<Rightarrow> ''accept'' | SendTo \<Rightarrow> ''sendto'' | RecvFrom \<Rightarrow> ''recvfrom'')"

record NetworkEvent =
  ne_pid :: u32
  ne_timestamp :: u64
  ne_operation :: NetOp
  ne_remote_addr :: "string option"

datatype ProcessOp = POFork | POExec | POExit | POSignal

definition show_ProcessOp :: "ProcessOp \<Rightarrow> string" where
  "show_ProcessOp op =
     (case op of POFork \<Rightarrow> ''fork'' | POExec \<Rightarrow> ''exec'' | POExit \<Rightarrow> ''exit'' | POSignal \<Rightarrow> ''signal'')"

record ProcessEvent =
  pv_pid :: u32
  pv_timestamp :: u64
  pv_operation :: ProcessOp
  pv_target_pid :: "u32 option"
  pv_exe :: string
  pv_comm :: string

section \<open>The log of an action\<close>

record ActionLog =
  al_action_id :: nat
  al_command :: string
  al_start_time :: u64
  al_end_time :: "u64 option"
  al_wall_start_ms :: u64
  al_wall_end_ms :: "u64 option"
  al_file_op_counts :: "(u32 \<times> FileOp, nat) hashmap"
  al_file_events :: "FileEvent list"
  al_net_op_counts :: "(u32 \<times> NetOp, nat) hashmap"
  al_process_events :: "ProcessEvent list"

definition ActionLog_new :: "u64 \<Rightarrow> nat \<Rightarrow> string \<Rightarrow> u64 \<Rightarrow> ActionLog" where
  "ActionLog_new wall_ms action_id command start_time =
     \<lparr>al_action_id = action_id, al_command = command, al_start_time = start_time, al_end_time = None,
      al_wall_start_ms = wall_ms, al_wall_end_ms = None, al_file_op_counts = [], al_file_events = [],
      al_net_op_counts = [], al_process_events = []\<rparr>"

definition hm_sum :: "('k, nat) hashmap \<Rightarrow> nat" where
  "hm_sum m = sum_list (map snd m)"

definition total_events :: "ActionLog \<Rightarrow> nat" where
  "total_events a =
     hm_sum (al_file_op_counts a) + hm_sum (al_net_op_counts a) + length (al_process_events a)"

text \<open>\<open>*entry(key).or_insert(0) += 1\<close>.\<close>

definition hm_bump :: "'k \<Rightarrow> ('k, nat) hashmap \<Rightarrow> ('k, nat) hashmap" where
  "hm_bump k m = hm_modify k Suc (hm_or_insert k 0 m)"

definition record_file :: "FileEvent \<Rightarrow> ActionLog \<Rightarrow> ActionLog" where
  "record_file ev a =
     (let key = (fe_pid ev, fe_operation ev);
          a' = a\<lparr>al_file_op_counts := hm_bump key (al_file_op_counts a)\<rparr>
      in if hm_get (al_file_op_counts a') key = Some 1
         then a'\<lparr>al_file_events := al_file_events a @ [ev]\<rparr> else a')"

definition record_net :: "NetworkEvent \<Rightarrow> ActionLog \<Rightarrow> ActionLog" where
  "record_net ev a =
     a\<lparr>al_net_op_counts := hm_bump (ne_pid ev, ne_operation ev) (al_net_op_counts a)\<rparr>"

definition record_process :: "ProcessEvent \<Rightarrow> ActionLog \<Rightarrow> ActionLog" where
  "record_process ev a = a\<lparr>al_process_events := al_process_events a @ [ev]\<rparr>"

section \<open>Counters\<close>

lemma hm_get_bump [hm_simps]:
  "hm_get (hm_bump k m) k' = (if k' = k then Some (case hm_get m k of None \<Rightarrow> 1 | Some n \<Rightarrow> Suc n) else hm_get m k')"
  by (auto simp: hm_bump_def hm_simps split: option.splits)

lemma hm_wf_bump [simp, intro]: "hm_wf m \<Longrightarrow> hm_wf (hm_bump k m)"
  by (simp add: hm_bump_def hm_wf_or_insert)

lemma hm_keys_bump: "set (hm_keys (hm_bump k m)) = insert k (set (hm_keys m))"
  by (simp only: hm_bump_def hm_keys_modify hm_keys_or_insert)

lemma hm_sum_modify: "hm_wf m \<Longrightarrow> k \<in> set (hm_keys m) \<Longrightarrow> hm_sum (hm_modify k Suc m) = Suc (hm_sum m)"
proof (induction m)
  case (Cons kv m)
  obtain k1 v where kv: "kv = (k1, v)" by (cases kv)
  show ?case
  proof (cases "k1 = k")
    case True
    then have "k \<notin> set (hm_keys m)" using Cons.prems(1) kv by simp
    then have "hm_modify k Suc m = m" by (induction m) (auto simp: hm_modify_def)
    then show ?thesis using True by (simp add: kv hm_modify_def hm_sum_def)
  next
    case False
    then show ?thesis using Cons by (simp add: kv hm_modify_def hm_sum_def)
  qed
qed simp

lemma hm_sum_bump [simp]: "hm_wf m \<Longrightarrow> hm_sum (hm_bump k m) = Suc (hm_sum m)"
proof -
  assume wf: "hm_wf m"
  have "hm_sum (hm_or_insert k 0 m) = hm_sum m" by (simp add: hm_or_insert_def hm_sum_def)
  moreover have "k \<in> set (hm_keys (hm_or_insert k 0 m))" by (simp only: hm_keys_or_insert insertI1)
  ultimately show ?thesis using hm_sum_modify [OF hm_wf_or_insert [OF wf]] by (simp add: hm_bump_def)
qed

section \<open>Well-formed logs\<close>

text \<open>The kept file events are the first of each counted pair, one per pair.\<close>

definition file_key :: "FileEvent \<Rightarrow> u32 \<times> FileOp" where
  "file_key e = (fe_pid e, fe_operation e)"

definition action_wf :: "ActionLog \<Rightarrow> bool" where
  "action_wf a \<longleftrightarrow>
     hm_wf (al_file_op_counts a) \<and> hm_wf (al_net_op_counts a) \<and>
     0 \<notin> snd ` set (al_file_op_counts a) \<and>
     distinct (map file_key (al_file_events a)) \<and>
     file_key ` set (al_file_events a) = set (hm_keys (al_file_op_counts a))"

lemma action_wf_new [simp]: "action_wf (ActionLog_new w i c t)"
  by (simp add: action_wf_def ActionLog_new_def)

lemma modify_nonzero:
  "\<forall>(k', v) \<in> set m. k' \<noteq> k \<longrightarrow> v \<noteq> 0 \<Longrightarrow> 0 \<notin> snd ` set (hm_modify k Suc m)"
  by (induction m) (auto simp: hm_modify_def)

lemma bump_nonzero: "0 \<notin> snd ` set m \<Longrightarrow> 0 \<notin> snd ` set (hm_bump k m)"
  unfolding hm_bump_def by (rule modify_nonzero) (auto simp: hm_or_insert_def image_iff split: if_splits)

lemma record_file_wf [simp, inv_intros]:
  assumes "action_wf a"
  shows "action_wf (record_file ev a)"
proof -
  let ?m = "al_file_op_counts a"
  have nz: "n \<noteq> 0" if "hm_get ?m (file_key ev) = Some n" for n
    using assms map_of_SomeD [OF that] by (auto simp: action_wf_def image_iff)
  have keys: "file_key ` set (al_file_events a) = set (hm_keys ?m)" using assms by (simp add: action_wf_def)
  have dom: "file_key ev \<in> set (hm_keys ?m) \<longleftrightarrow> hm_get ?m (file_key ev) \<noteq> None"
    by (simp add: map_of_eq_None_iff)
  have ev: "record_file ev a =
      (if hm_get ?m (file_key ev) = None
       then a\<lparr>al_file_op_counts := hm_bump (file_key ev) ?m, al_file_events := al_file_events a @ [ev]\<rparr>
       else a\<lparr>al_file_op_counts := hm_bump (file_key ev) ?m\<rparr>)"
    using nz by (auto simp: record_file_def Let_def hm_simps file_key_def split: option.splits)
  note wf = assms [unfolded action_wf_def]
  have m: "hm_wf (hm_bump (file_key ev) ?m)" "0 \<notin> snd ` set (hm_bump (file_key ev) ?m)"
      "set (hm_keys (hm_bump (file_key ev) ?m)) = insert (file_key ev) (file_key ` set (al_file_events a))"
    using wf hm_wf_bump [of ?m] bump_nonzero [of ?m] hm_keys_bump [of "file_key ev" ?m] by auto
  show ?thesis
  proof (cases "hm_get ?m (file_key ev) = None")
    case True
    then have "file_key ev \<notin> set (map file_key (al_file_events a))" using dom keys by simp
    then show ?thesis using True wf m unfolding ev action_wf_def by (simp del: set_map hm_wf_bump)
  next
    case False
    then have "file_key ev \<in> file_key ` set (al_file_events a)" using dom keys by simp
    then show ?thesis using False wf m unfolding ev action_wf_def by (auto simp add: insert_absorb simp del: set_map hm_wf_bump)
  qed
qed

lemma record_net_wf [simp, inv_intros]: "action_wf a \<Longrightarrow> action_wf (record_net ev a)"
  by (simp add: action_wf_def record_net_def hm_wf_bump)

lemma record_process_wf [simp, inv_intros]: "action_wf a \<Longrightarrow> action_wf (record_process ev a)"
  by (simp add: action_wf_def record_process_def)

lemma record_fields [simp]:
  "al_action_id (record_file fe a) = al_action_id a" "al_action_id (record_net ne a) = al_action_id a"
  "al_action_id (record_process pe a) = al_action_id a"
  "al_wall_start_ms (record_file fe a) = al_wall_start_ms a" "al_wall_start_ms (record_net ne a) = al_wall_start_ms a"
  "al_wall_start_ms (record_process pe a) = al_wall_start_ms a"
  "al_wall_end_ms (record_file fe a) = al_wall_end_ms a" "al_wall_end_ms (record_net ne a) = al_wall_end_ms a"
  "al_wall_end_ms (record_process pe a) = al_wall_end_ms a"
  by (simp_all add: record_file_def record_net_def record_process_def Let_def)

lemma total_events_new [simp]: "total_events (ActionLog_new w i c t) = 0"
  by (simp add: total_events_def ActionLog_new_def hm_sum_def)

lemma total_events_record:
  assumes "action_wf a"
  shows "total_events (record_file fe a) = Suc (total_events a)"
    and "total_events (record_net ne a) = Suc (total_events a)"
    and "total_events (record_process pe a) = Suc (total_events a)"
  using assms
  by (simp_all add: action_wf_def total_events_def record_file_def record_net_def record_process_def Let_def)

end
