(* ===== verification/Paths.thy ===== *)
theory Paths
  imports Rust_Str
begin

text \<open>
  \<open>canonicalize_path\<close> of \<open>src/src/state.rs\<close>, the textual normalisation under which file accesses
  are recorded, with its specification on absolute paths: the resolution of parent references on
  the list of path components.
\<close>

definition dotdot :: string where
  "dotdot = ''/../''"

text \<open>The loop on parent references: each round shortens the text.\<close>

function canon_loop :: "string \<Rightarrow> string" where
  "canon_loop result =
     (case find_sub dotdot result of
        None \<Rightarrow> result
      | Some pos \<Rightarrow>
          if pos = 0 then result
          else (let parent_start = (case rfind_char CHR ''/'' (take pos result) of Some i \<Rightarrow> i | None \<Rightarrow> 0)
                in canon_loop (take parent_start result @ drop (pos + 3) result)))"
  by pat_completeness auto
termination
proof (relation "measure length")
  fix result pos parent_start
  assume pos: "find_sub dotdot result = Some pos" "pos \<noteq> 0"
    and parent: "parent_start = (case rfind_char CHR ''/'' (take pos result) of Some i \<Rightarrow> i | None \<Rightarrow> 0)"
  have "pos + 4 \<le> length result" using find_sub_Some [OF pos(1)] by (simp add: dotdot_def)
  moreover have "parent_start < pos"
    using pos(2) parent rfind_char_Some [of "CHR ''/''" "take pos result"] by (auto split: option.splits)
  ultimately show "(take parent_start result @ drop (pos + 3) result, result) \<in> measure length" by simp
qed simp

declare canon_loop.simps [simp del]

definition canonicalize_path :: "string \<Rightarrow> string" where
  "canonicalize_path path =
     (let result = replace_all ''//'' ''/'' (replace_all ''/./'' ''/'' path);
          result = (if starts_with result ''./'' then drop 2 result else result)
      in canon_loop result)"

section \<open>Paths as component lists\<close>

definition abs_path :: "string list \<Rightarrow> string" where
  "abs_path segs = concat (map (\<lambda>s. CHR ''/'' # s) segs)"

lemma abs_path_simps [simp]:
  "abs_path [] = []" "abs_path (s # segs) = CHR ''/'' # s @ abs_path segs"
  "abs_path (xs @ ys) = abs_path xs @ abs_path ys"
  by (simp_all add: abs_path_def)

text \<open>Parent references resolved on a stack of components; \<open>None\<close> when they climb above the root.\<close>

fun resolve :: "string list \<Rightarrow> string list \<Rightarrow> string list option" where
  "resolve stack [] = Some (rev stack)"
| "resolve stack (x # segs) =
     (if x = ''..'' then (case stack of [] \<Rightarrow> None | t # stack' \<Rightarrow> resolve stack' segs)
      else resolve (x # stack) segs)"

definition component :: "string \<Rightarrow> bool" where
  "component s \<longleftrightarrow> s \<noteq> [] \<and> s \<noteq> ''.'' \<and> CHR ''/'' \<notin> set s"

lemma find_sub_skip:
  assumes "CHR ''/'' \<notin> set x"
  shows "find_sub (CHR ''/'' # q) (x @ r) = map_option ((+) (length x)) (find_sub (CHR ''/'' # q) r)"
  using assms
proof (induction x)
  case Nil
  show ?case by (cases "find_sub (CHR ''/'' # q) r") auto
next
  case (Cons c x)
  then have "\<not> starts_with (c # x @ r) (CHR ''/'' # q)" by (auto simp: starts_with_def)
  with Cons show ?case by (simp add: option.map_comp comp_def)
qed

lemma component_prefix:
  assumes "CHR ''/'' \<notin> set x" "CHR ''/'' \<notin> set q" "r = [] \<or> hd r = CHR ''/''"
  shows "starts_with (x @ r) (q @ ''/'') \<longleftrightarrow> x = q \<and> r \<noteq> []"
proof
  assume "starts_with (x @ r) (q @ ''/'')"
  then obtain t where t: "x @ r = q @ CHR ''/'' # t" by (auto simp: starts_with_iff)
  moreover have "takeWhile (\<lambda>c. c \<noteq> CHR ''/'') (q @ CHR ''/'' # t) = q"
  proof -
    have "\<And>c. c \<in> set q \<Longrightarrow> c \<noteq> CHR ''/''" using assms(2) by auto
    then show ?thesis by simp
  qed
  moreover have "takeWhile (\<lambda>c. c \<noteq> CHR ''/'') (x @ r) = x"
  proof -
    have "takeWhile (\<lambda>c. c \<noteq> CHR ''/'') r = []" using assms(3) by (cases r) auto
    moreover have "\<And>c. c \<in> set x \<Longrightarrow> c \<noteq> CHR ''/''" using assms(1) by auto
    ultimately show ?thesis by simp
  qed
  ultimately have "x = q" by simp
  with t show "x = q \<and> r \<noteq> []" by auto
next
  assume a: "x = q \<and> r \<noteq> []"
  with assms(3) obtain t where "r = CHR ''/'' # t" by (cases r) auto
  with a show "starts_with (x @ r) (q @ ''/'')" by (simp add: starts_with_iff)
qed

lemma abs_path_hd: "abs_path segs = [] \<or> hd (abs_path segs) = CHR ''/''"
  by (cases segs) auto

text \<open>The first occurrence of a component \<open>q\<close> between slashes.\<close>

lemma find_component:
  assumes "CHR ''/'' \<notin> set q" "\<forall>s \<in> set segs. CHR ''/'' \<notin> set s" "q \<notin> set segs"
  shows "find_sub (CHR ''/'' # q @ ''/'') (abs_path segs @ abs_path (q # s # post)) = Some (length (abs_path segs))"
  using assms(2,3)
proof (induction segs)
  case Nil
  have "abs_path (q # s # post) = (CHR ''/'' # q @ ''/'') @ s @ abs_path post" by simp
  then show ?case by (simp only: abs_path_simps append_Nil find_sub_prefix) simp
next
  case (Cons x segs)
  let ?r = "abs_path segs @ abs_path (q # s # post)"
  have "?r = [] \<or> hd ?r = CHR ''/''" using abs_path_hd [of segs] by (cases "abs_path segs") auto
  then have "\<not> starts_with (CHR ''/'' # x @ ?r) (CHR ''/'' # q @ ''/'')"
    using component_prefix [of x q ?r] Cons.prems assms(1) by (auto simp: starts_with_def)
  with Cons show ?case by (simp add: find_sub_skip)
qed

lemma no_component:
  assumes "CHR ''/'' \<notin> set q" "\<forall>s \<in> set segs. CHR ''/'' \<notin> set s" "q \<notin> set (butlast segs)"
  shows "find_sub (CHR ''/'' # q @ ''/'') (abs_path segs) = None"
  using assms(2,3)
proof (induction segs)
  case (Cons x segs)
  have ns: "\<not> starts_with (CHR ''/'' # x @ abs_path segs) (CHR ''/'' # q @ ''/'')"
    using component_prefix [of x q "abs_path segs"] Cons.prems assms(1) abs_path_hd [of segs]
    by (cases segs) (auto simp: starts_with_def)
  have "q \<notin> set (butlast segs)" using Cons.prems(2) by (cases segs) auto
  with Cons ns show ?case by (simp add: find_sub_skip)
qed simp

lemma rfind_last_component:
  assumes "CHR ''/'' \<notin> set q"
  shows "rfind_char CHR ''/'' (a @ CHR ''/'' # q) = Some (length a)"
proof -
  have "find_char CHR ''/'' (rev q @ CHR ''/'' # rev a) = Some (length (rev q))"
    using assms by (intro find_char_append) simp
  then show ?thesis by (simp add: rfind_char_def)
qed

lemma canon_loop_step:
  assumes "find_sub dotdot s = Some pos" "pos \<noteq> 0" "take pos s = u" "rfind_char CHR ''/'' u = Some i"
    and "take i s = a" "drop (pos + 3) s = b"
  shows "canon_loop s = canon_loop (a @ b)"
  using assms by (subst canon_loop.simps) (simp add: Let_def)

lemma canon_loop_resolves:
  assumes "resolve stack segs = Some r" "segs \<noteq> [] \<longrightarrow> last segs \<noteq> ''..''" "''..'' \<notin> set stack"
    and "\<forall>s \<in> set stack \<union> set segs. CHR ''/'' \<notin> set s"
  shows "canon_loop (abs_path (rev stack @ segs)) = abs_path r"
  using assms
proof (induction stack segs rule: resolve.induct)
  case (1 stack)
  have "find_sub dotdot (abs_path (rev stack)) = None"
    using no_component [of "''..''" "rev stack"] "1.prems" by (cases stack) (auto simp: dotdot_def)
  then show ?case using "1.prems" by (simp add: canon_loop.simps)
next
  case (2 stack x segs)
  show ?case
  proof (cases "x = ''..''")
    case False
    with 2 show ?thesis by (auto split: if_splits)
  next
    case True
    with "2.prems" obtain t st where st: "stack = t # st" by (cases stack) auto
    from True "2.prems"(2) obtain y segs' where y: "segs = y # segs'" by (cases segs) auto
    let ?a = "abs_path (rev st)"
    let ?p = "abs_path (rev stack @ x # segs)"
    have p: "?p = (?a @ CHR ''/'' # t) @ ''/..'' @ abs_path segs" by (simp add: st True)
    have pre: "abs_path (rev stack) = ?a @ CHR ''/'' # t" by (simp add: st)
    have "find_sub dotdot (abs_path (rev stack) @ abs_path (''..'' # y # segs')) = Some (length (abs_path (rev stack)))"
      using find_component [of "''..''" "rev stack" y segs'] "2.prems"(3,4) by (auto simp: dotdot_def)
    then have "find_sub dotdot ?p = Some (length (?a @ CHR ''/'' # t))"
      unfolding pre by (simp add: st True y)
    moreover have "take (length (?a @ CHR ''/'' # t)) ?p = ?a @ CHR ''/'' # t" unfolding p by simp
    moreover have "rfind_char CHR ''/'' (?a @ CHR ''/'' # t) = Some (length ?a)"
      using "2.prems"(4) st by (intro rfind_last_component) simp
    moreover have "take (length ?a) ?p = ?a" "drop (length (?a @ CHR ''/'' # t) + 3) ?p = abs_path segs"
    proof -
      have d: "drop (length u + 3) (u @ ''/..'' @ v) = v" for u v :: string by simp
      show "drop (length (?a @ CHR ''/'' # t) + 3) ?p = abs_path segs" unfolding p by (rule d)
      show "take (length ?a) ?p = ?a" unfolding p by simp
    qed
    ultimately have "canon_loop ?p = canon_loop (?a @ abs_path segs)"
      by (intro canon_loop_step [where pos = "length (?a @ CHR ''/'' # t)" and i = "length ?a"]) simp_all
    also have "\<dots> = abs_path r"
      using "2.IH"(1) [OF True st] "2.prems" True st y by (auto split: if_splits)
    finally show ?thesis .
  qed
qed

section \<open>Properties\<close>

text \<open>
  On an absolute path without empty or \<open>.\<close> components, whose parent references stay below the
  root and which does not end in one, the textual normalisation is the resolution of the
  components.
\<close>

theorem canonicalize_resolves:
  assumes "list_all component segs" "resolve [] segs = Some r" "segs \<noteq> []" "last segs \<noteq> ''..''"
  shows "canonicalize_path (abs_path segs) = abs_path r"
proof -
  have free: "\<forall>s \<in> set segs. CHR ''/'' \<notin> set s" and "[] \<notin> set segs" "''.'' \<notin> set segs"
    using assms(1) by (auto simp: list_all_iff component_def)
  then have "\<not> contains (abs_path segs) ''/./''" "\<not> contains (abs_path segs) ''//''"
    using no_component [of "''.''" segs] no_component [of "[]" segs]
    by (auto simp: contains_def dest: in_set_butlastD)
  moreover have "\<not> starts_with (abs_path segs) ''./''"
    using assms(3) by (cases segs) (auto simp: starts_with_def)
  moreover have "canon_loop (abs_path segs) = abs_path r"
    using canon_loop_resolves [of "[]" segs r] assms free by simp
  ultimately show ?thesis by (simp add: canonicalize_path_def Let_def replace_all_absent)
qed

theorem canonicalize_resolves_witness:
  "canonicalize_path ''/srv/app/../data/x/../y'' = ''/srv/data/y''"
  using canonicalize_resolves [of "[''srv'', ''app'', ''..'', ''data'', ''x'', ''..'', ''y'']" "[''srv'', ''data'', ''y'']"]
  by (simp add: component_def)

text \<open>
  For every path, no parent reference with a component before it is left, and the result is no
  longer than the path.
\<close>

theorem canonicalize_no_parent:
  "(find_sub dotdot (canonicalize_path p) = None \<or> find_sub dotdot (canonicalize_path p) = Some 0) \<and>
   length (canonicalize_path p) \<le> length p"
proof -
  have loop: "(find_sub dotdot (canon_loop s) = None \<or> find_sub dotdot (canon_loop s) = Some 0) \<and>
      length (canon_loop s) \<le> length s" for s
  proof (induction s rule: canon_loop.induct)
    case (1 s)
    show ?case
    proof (cases "find_sub dotdot s")
      case None
      then show ?thesis by (simp add: canon_loop.simps)
    next
      case (Some pos)
      show ?thesis
      proof (cases "pos = 0")
        case True
        with Some show ?thesis by (simp add: canon_loop.simps)
      next
        case False
        define ps where "ps = (case rfind_char CHR ''/'' (take pos s) of Some i \<Rightarrow> i | None \<Rightarrow> 0)"
        have "ps < pos" using False rfind_char_Some [of "CHR ''/''" "take pos s"]
          by (auto simp: ps_def split: option.splits)
        moreover have "pos + 4 \<le> length s" using find_sub_Some [OF Some] by (simp add: dotdot_def)
        moreover have "canon_loop s = canon_loop (take ps s @ drop (pos + 3) s)"
          by (subst canon_loop.simps) (simp add: Some False ps_def Let_def)
        ultimately show ?thesis using "1.IH" [OF Some False ps_def] by (auto simp: min_def)
      qed
    qed
  qed
  have rep: "length (replace_all old ''/'' s) \<le> length s" if "old \<noteq> []" for old s
    using that
  proof (induction old "''/''" s rule: replace_all.induct)
    case (1 old s)
    show ?case
    proof (cases "length s < length old")
      case True
      then show ?thesis by (simp add: replace_all.simps)
    next
      case False
      then have "1 \<le> length old" "length old \<le> length s" using "1.prems" by (simp_all add: Suc_le_eq)
      with "1.hyps" "1.prems" False show ?thesis
        by (auto simp: replace_all.simps [of old _ s])
    qed
  qed
  have "length (replace_all ''//'' ''/'' (replace_all ''/./'' ''/'' p)) \<le> length p"
    using rep [of "''//''" "replace_all ''/./'' ''/'' p"] rep [of "''/./''" p] by simp
  moreover have "length (canon_loop (if b then drop 2 s else s)) \<le> length s" for b s
    using loop [of "drop 2 s"] loop [of s] by auto
  ultimately show ?thesis using loop unfolding canonicalize_path_def Let_def by (meson le_trans)
qed

text \<open>
  The normalisation is not canonical: a path and its normal form can be different keys that
  normalise further, a relative path with a parent reference becomes absolute.
\<close>

theorem canonicalize_not_canonical:
  "canonicalize_path ''/a/././b'' = ''/a/./b'' \<and> canonicalize_path ''/a/./b'' = ''/a/b'' \<and>
   canonicalize_path ''a/../b'' = ''/b''"
  by code_simp

end
