(* ===== verification/Float64.thy ===== *)
theory Float64
  imports Complex_Main "HOL-Library.Log_Nat" Rust_Text
begin

text \<open>
  The \<open>f64\<close> arithmetic of the taint scores: IEEE 754 binary64 with round-to-nearest-even, over the
  rationals. A score is the rational it denotes; a product or sum of two values is the exact
  result rounded. The range of the model is the finite values (scores and their bounds stay
  below 2, so overflow, infinities and NaN do not arise). \<open>format_2\<close> is \<open>{:.2}\<close>.
\<close>

declare map_of_eq_Some_iff [simp del]

section \<open>Rounding\<close>

definition exp2_floor :: "rat \<Rightarrow> int" where
  "exp2_floor x =
     (case quotient_of x of (p, q) \<Rightarrow>
        let d = bitlen p - bitlen q in if 2 powi d \<le> x then d else d - 1)"

definition round_even :: "rat \<Rightarrow> int" where
  "round_even x =
     (let n = \<lfloor>x\<rfloor>; r = x - of_int n
      in if r < 1/2 then n else if 1/2 < r then n + 1 else if even n then n else n + 1)"

text \<open>The exponent of the last place: 52 bits below the leading one, not below that of the
  subnormal numbers.\<close>

definition f64_exp :: "rat \<Rightarrow> int" where
  "f64_exp x = max (exp2_floor x - 52) (- 1074)"

definition f64_round :: "rat \<Rightarrow> rat" where
  "f64_round x =
     (if x = 0 then 0
      else (let u = f64_exp \<bar>x\<bar> in of_int (round_even (x / 2 powi u)) * 2 powi u))"

definition is_f64 :: "rat \<Rightarrow> bool" where
  "is_f64 x \<longleftrightarrow> f64_round x = x"

definition fmul :: "rat \<Rightarrow> rat \<Rightarrow> rat" where
  "fmul a b = f64_round (a * b)"

definition fadd :: "rat \<Rightarrow> rat \<Rightarrow> rat" where
  "fadd a b = f64_round (a + b)"

text \<open>\<open>{:.2}\<close> of a non-negative value: the exact value rounded to two decimals, ties to even.\<close>

definition format_2 :: "rat \<Rightarrow> string" where
  "format_2 x =
     (let n = nat (round_even (x * 100))
      in dec (n div 100) @ ''.'' @ [digit_char (n div 10 mod 10), digit_char (n mod 10)])"

section \<open>The integer rounding\<close>

lemma round_even_of_int [simp]: "round_even (of_int n) = n"
  by (simp add: round_even_def)

lemma round_even_0 [simp]: "round_even 0 = 0"
  using round_even_of_int [of 0] by simp

lemma round_even_bounds: "of_int (round_even x) \<le> x + 1/2" "x - 1/2 \<le> of_int (round_even x)"
  by (auto simp: round_even_def Let_def) linarith+

lemma round_even_mono:
  assumes "x \<le> y"
  shows "round_even x \<le> round_even y"
proof (cases "\<lfloor>x\<rfloor> = \<lfloor>y\<rfloor>")
  case True
  with assms show ?thesis by (auto simp: round_even_def Let_def)
next
  case False
  with floor_mono [OF assms] have "\<lfloor>x\<rfloor> + 1 \<le> \<lfloor>y\<rfloor>" by linarith
  moreover have "round_even x \<le> \<lfloor>x\<rfloor> + 1" "\<lfloor>y\<rfloor> \<le> round_even y" by (auto simp: round_even_def Let_def)
  ultimately show ?thesis by linarith
qed

section \<open>The leading exponent\<close>

lemma powi_less: "a < b \<Longrightarrow> (2::rat) powi a < 2 powi b"
  by (rule power_int_strict_increasing) simp_all

lemma powi_le: "a \<le> b \<Longrightarrow> (2::rat) powi a \<le> 2 powi b"
  by (rule power_int_increasing) simp_all

lemma powi_le_iff: "(2::rat) powi a \<le> 2 powi b \<longleftrightarrow> a \<le> b"
  using powi_less [of b a] powi_le [of a b] by fastforce

lemma powi_add: "(2::rat) powi (a + b) = 2 powi a * 2 powi b"
  by (rule power_int_add) simp

lemma powi_diff: "(2::rat) powi (a - b) = 2 powi a / 2 powi b"
  by (rule power_int_diff) simp

lemma powi_pos [simp]: "(0::rat) < 2 powi a"
  by simp

lemma powi_nonneg_int: "0 \<le> a \<Longrightarrow> (2::rat) powi a = of_int (2 ^ nat a)"
  by (simp add: power_int_nonneg_exp)

lemma bitlen_powi:
  assumes "0 < p"
  shows "2 powi (bitlen p - 1) \<le> (of_int p :: rat)" "(of_int p :: rat) < 2 powi bitlen p"
proof -
  have b: "1 \<le> bitlen p" using assms bitlen_nonneg [of p] bitlen_eq_zero_iff [of p] by linarith
  have "2 ^ nat (bitlen p - 1) \<le> p" "p < 2 ^ nat (bitlen p)" using bitlen_bounds [OF assms] by auto
  then have "(of_int (2 ^ nat (bitlen p - 1)) :: rat) \<le> of_int p" "(of_int p :: rat) < of_int (2 ^ nat (bitlen p))"
    by (simp_all only: of_int_le_iff of_int_less_iff)
  then show "2 powi (bitlen p - 1) \<le> (of_int p :: rat)" "(of_int p :: rat) < 2 powi bitlen p"
    using b by (simp_all add: powi_nonneg_int)
qed

lemma exp2_floor:
  assumes "0 < x"
  shows "2 powi exp2_floor x \<le> x" "x < 2 powi (exp2_floor x + 1)"
proof -
  obtain p q where pq: "quotient_of x = (p, q)" by (cases "quotient_of x")
  have q: "0 < q" and x: "x = of_int p / of_int q"
    using quotient_of_denom_pos [OF pq] quotient_of_div [OF pq] by auto
  have p: "0 < p" using assms q by (simp add: x zero_less_divide_iff)
  let ?d = "bitlen p - bitlen q"
  note P = bitlen_powi [OF p] and Q = bitlen_powi [OF q]
  have up: "x < 2 powi (?d + 1)"
  proof -
    have "x < 2 powi bitlen p / 2 powi (bitlen q - 1)"
      unfolding x using P Q q p by (intro frac_less) auto
    also have "\<dots> = 2 powi (?d + 1)" by (simp flip: powi_diff add: algebra_simps)
    finally show ?thesis .
  qed
  have low: "2 powi (?d - 1) \<le> x"
  proof -
    have "2 powi (?d - 1) = 2 powi (bitlen p - 1) / (2::rat) powi bitlen q"
      by (simp flip: powi_diff add: algebra_simps)
    also have "\<dots> \<le> x"
      unfolding x using P Q q p by (intro frac_le) auto
    finally show ?thesis .
  qed
  show "2 powi exp2_floor x \<le> x" "x < 2 powi (exp2_floor x + 1)"
    using up low by (auto simp: exp2_floor_def pq Let_def)
qed

lemma exp2_floor_mono:
  assumes "0 < x" "x \<le> y"
  shows "exp2_floor x \<le> exp2_floor y"
proof -
  have "0 < y" using assms by simp
  then have "(2::rat) powi exp2_floor x < 2 powi (exp2_floor y + 1)"
    using exp2_floor [OF assms(1)] exp2_floor [of y] assms by linarith
  then show ?thesis using powi_le_iff [of "exp2_floor y + 1" "exp2_floor x"] by linarith
qed

lemma exp2_floor_less: "0 < x \<Longrightarrow> x < 2 powi k \<Longrightarrow> exp2_floor x < k"
  using exp2_floor [of x] powi_le_iff [of k "exp2_floor x"] by force

section \<open>The rounding to binary64\<close>

lemma f64_round_0 [simp]: "f64_round 0 = 0"
  by (simp add: f64_round_def)

lemma f64_round_pos:
  "0 < x \<Longrightarrow> f64_round x = of_int (round_even (x / 2 powi f64_exp x)) * 2 powi f64_exp x"
  by (simp add: f64_round_def Let_def)

lemma f64_round_nonneg: "0 \<le> x \<Longrightarrow> 0 \<le> f64_round x"
proof (cases "x = 0")
  case False
  assume "0 \<le> x"
  with False have x: "0 < x" by simp
  have "round_even (of_int 0) \<le> round_even (x / 2 powi f64_exp x)"
    using x by (intro round_even_mono) simp
  then show ?thesis by (simp add: f64_round_pos [OF x])
qed simp

lemma grid_point:
  assumes "u \<le> k"
  shows "of_int (round_even (of_int m * 2 powi k / 2 powi u)) * 2 powi u = of_int m * (2::rat) powi k"
proof -
  have "of_int m * 2 powi k / (2::rat) powi u = of_int m * 2 powi (k - u)"
    by (simp add: powi_diff)
  also have "\<dots> = of_int (m * 2 ^ nat (k - u))"
    using assms by (simp add: powi_nonneg_int)
  finally have e: "of_int m * 2 powi k / (2::rat) powi u = of_int (m * 2 ^ nat (k - u))" .
  show ?thesis unfolding e round_even_of_int unfolding e [symmetric] by simp
qed

text \<open>Every value with a mantissa of at most 53 bits and no place below the smallest subnormal is
  represented.\<close>

lemma f64_representable:
  assumes "0 \<le> m" "m \<le> 2 ^ 53" "-1074 \<le> k"
  shows "is_f64 (of_int m * 2 powi k)"
proof (cases "m = 0")
  case False
  let ?x = "of_int m * (2::rat) powi k"
  from False assms have x: "0 < ?x" by simp
  show ?thesis
  proof (cases "m = 2 ^ 53")
    case True
    then have e: "?x = of_int 1 * 2 powi (k + 53)" by (simp add: powi_add)
    have "exp2_floor ?x < k + 54" by (rule exp2_floor_less [OF x]) (simp add: e powi_less)
    then have "f64_exp ?x \<le> k + 53" using assms by (simp add: f64_exp_def)
    from grid_point [OF this, of 1] show ?thesis
      unfolding is_f64_def f64_round_pos [OF x] by (simp only: e)
  next
    case False
    then have "of_int m < (2::rat) ^ 53" using assms(2)
      by (metis le_less of_int_less_iff of_int_numeral of_int_power)
    then have "?x < 2 powi (k + 53)" by (simp add: powi_add)
    then have "exp2_floor ?x < k + 53" by (rule exp2_floor_less [OF x])
    then have "f64_exp ?x \<le> k" using assms by (simp add: f64_exp_def)
    from grid_point [OF this, of m] show ?thesis
      unfolding is_f64_def f64_round_pos [OF x] .
  qed
qed (simp add: is_f64_def)

lemma f64_exp_bounds: "- 1074 \<le> f64_exp x" "exp2_floor x - 52 \<le> f64_exp x"
  by (simp_all add: f64_exp_def)

lemma f64_round_is_f64 [simp]: "0 \<le> x \<Longrightarrow> is_f64 (f64_round x)"
proof (cases "x = 0")
  case False
  assume "0 \<le> x"
  with False have x: "0 < x" by simp
  let ?u = "f64_exp x"
  let ?m = "round_even (x / 2 powi ?u)"
  have "x / 2 powi ?u \<le> 2 powi (exp2_floor x + 1) / 2 powi ?u"
    using exp2_floor [OF x] by (simp add: divide_right_mono)
  also have "\<dots> = 2 powi (exp2_floor x + 1 - ?u)" by (simp add: powi_diff)
  also have "\<dots> \<le> 2 powi 53" using f64_exp_bounds(2) [of x] by (intro powi_le) simp
  finally have "x / 2 powi ?u \<le> of_int (2 ^ 53)" by simp
  then have "?m \<le> 2 ^ 53" using round_even_mono round_even_of_int by metis
  moreover have "round_even (of_int 0) \<le> ?m" using x by (intro round_even_mono) simp
  ultimately show ?thesis
    using f64_representable [of ?m ?u] f64_exp_bounds(1) [of x] x by (simp add: f64_round_pos)
qed (simp add: is_f64_def)

lemma is_f64_0 [simp]: "is_f64 0"
  by (simp add: is_f64_def)

lemma is_f64_1 [simp]: "is_f64 1"
  using f64_representable [of 1 0] by simp

lemma f64_round_mono:
  assumes "0 \<le> x" "x \<le> y"
  shows "f64_round x \<le> f64_round y"
proof (cases "x = 0")
  case True
  then show ?thesis using assms f64_round_nonneg [of y] by simp
next
  case False
  with assms have x: "0 < x" and y: "0 < y" by simp_all
  let ?u = "f64_exp x" and ?v = "f64_exp y"
  have uv: "?u \<le> ?v" using exp2_floor_mono [OF x assms(2)] by (simp add: f64_exp_def)
  show ?thesis
  proof (cases "?u = ?v")
    case True
    have "x / 2 powi ?v \<le> y / 2 powi ?v" using assms(2) by (simp add: divide_right_mono)
    then show ?thesis using round_even_mono True by (simp add: f64_round_pos x y mult_right_mono)
  next
    case False
    let ?e = "exp2_floor y"
    have v: "?v = ?e - 52" "?u \<le> ?e" "exp2_floor x < ?e"
      using uv False by (auto simp: f64_exp_def max_def split: if_splits)
    have B: "of_int (round_even (2 powi ?e / 2 powi w)) * 2 powi w = (2::rat) powi ?e" if "w \<le> ?e" for w
      using grid_point [OF that, of 1] by simp
    have "x \<le> 2 powi ?e" using exp2_floor(2) [OF x] powi_le [of "exp2_floor x + 1" ?e] v(3) by linarith
    then have "x / 2 powi ?u \<le> 2 powi ?e / 2 powi ?u" by (simp add: divide_right_mono)
    then have "f64_round x \<le> 2 powi ?e"
      using B [OF v(2)] round_even_mono [of "x / 2 powi ?u" "2 powi ?e / 2 powi ?u"]
      by (metis f64_round_pos x mult_right_mono of_int_le_iff powi_pos less_imp_le)
    moreover have "2 powi ?e / 2 powi ?v \<le> y / 2 powi ?v"
      using exp2_floor(1) [OF y] by (simp add: divide_right_mono)
    then have "2 powi ?e \<le> f64_round y"
      using B [of ?v] v(1) round_even_mono [of "2 powi ?e / 2 powi ?v" "y / 2 powi ?v"]
      by (metis f64_round_pos y mult_right_mono of_int_le_iff powi_pos less_imp_le diff_le_eq le_add_same_cancel1 zero_le_numeral)
    ultimately show ?thesis by linarith
  qed
qed

text \<open>All values are multiples of the smallest subnormal.\<close>

definition f64_tiny :: rat where
  "f64_tiny = 2 powi (- 1074)"

lemma f64_tiny_pos [simp]: "0 < f64_tiny"
  by (simp only: f64_tiny_def powi_pos)

lemma f64_granular:
  assumes "0 \<le> x" "is_f64 x"
  shows "\<exists>n::nat. x = of_nat n * f64_tiny"
proof (cases "x = 0")
  case False
  with assms have x: "0 < x" by simp
  let ?u = "f64_exp x"
  let ?m = "round_even (x / 2 powi ?u)"
  have m: "0 \<le> ?m" using round_even_mono [of "of_int 0" "x / 2 powi ?u"] x by simp
  have u: "2 powi ?u = of_int (2 ^ nat (?u + 1074)) * f64_tiny"
  proof -
    have "?u = (?u + 1074) + (- 1074)" by simp
    then have "2 powi ?u = 2 powi (?u + 1074) * f64_tiny" unfolding f64_tiny_def by (metis powi_add)
    moreover have "0 \<le> ?u + 1074" using f64_exp_bounds(1) [of x] by simp
    ultimately show ?thesis by (simp only: powi_nonneg_int)
  qed
  have "x = of_int ?m * 2 powi ?u" using assms(2) by (simp add: is_f64_def f64_round_pos [OF x])
  also have "\<dots> = of_nat (nat (?m * 2 ^ nat (?u + 1074))) * f64_tiny"
    using m by (simp add: u of_nat_nat)
  finally show ?thesis by blast
qed (auto intro: exI [of _ 0])

section \<open>Products and sums\<close>

lemma fmul_nonneg [simp]: "0 \<le> a \<Longrightarrow> 0 \<le> b \<Longrightarrow> 0 \<le> fmul a b"
  by (simp add: fmul_def f64_round_nonneg)

lemma fmul_is_f64 [simp]: "0 \<le> a \<Longrightarrow> 0 \<le> b \<Longrightarrow> is_f64 (fmul a b)"
  by (simp add: fmul_def)

lemma fadd_is_f64 [simp]: "0 \<le> a \<Longrightarrow> 0 \<le> b \<Longrightarrow> is_f64 (fadd a b)"
  by (simp add: fadd_def)

text \<open>A factor of at most one never increases a represented value.\<close>

lemma fmul_le:
  assumes "0 \<le> a" "is_f64 a" "0 \<le> b" "b \<le> 1"
  shows "fmul a b \<le> a"
proof -
  have "a * b \<le> a" using assms by (simp add: mult_left_le)
  then have "f64_round (a * b) \<le> f64_round a" using assms by (intro f64_round_mono) simp_all
  then show ?thesis using assms(2) by (simp add: fmul_def is_f64_def)
qed

lemma fmul_mono: "0 \<le> a \<Longrightarrow> a \<le> a' \<Longrightarrow> 0 \<le> b \<Longrightarrow> b \<le> b' \<Longrightarrow> fmul a b \<le> fmul a' b'"
  by (simp add: fmul_def f64_round_mono mult_mono)

lemma fadd_ge:
  assumes "0 \<le> a" "is_f64 a" "0 \<le> b"
  shows "a \<le> fadd a b"
proof -
  have "f64_round a \<le> f64_round (a + b)" using assms by (intro f64_round_mono) simp_all
  then show ?thesis using assms(2) by (simp add: fadd_def is_f64_def)
qed

end
