(* ===== verification/State.thy ===== *)
theory State
  imports Events Paths Float64 Net_Addr
begin

text \<open>
  \<open>src/src/state.rs\<close>: the per-container state (process table, taint graph, action logs, file and
  IPC nodes, descriptor table) and its operations, in the order of the source. Action ids and
  counters are natural numbers, taint scores the values of \<open>f64\<close> (theory \<open>Float64\<close>). Where the code
  iterates over a hash map or a hash set, the order is the argument \<open>H\<close>. The propagation of taint
  is in theory \<open>Taint\<close>.
\<close>

section \<open>Processes\<close>

definition TAINT_THRESHOLD :: rat where
  "TAINT_THRESHOLD = f64_round (1/10)"

record ProcessInfo =
  pi_pid :: u32
  pi_ppid :: u32
  pi_comm :: string
  pi_exec_path :: string
  pi_cmdline :: string
  pi_open_files :: "string list"
  pi_net_connections :: "string list"
  pi_taint_score :: rat
  pi_taint_source :: string
  pi_exited :: bool
  pi_children :: "u32 list"
  pi_attributed_action :: nat

definition is_tainted :: "ProcessInfo \<Rightarrow> bool" where
  "is_tainted p \<longleftrightarrow> TAINT_THRESHOLD \<le> pi_taint_score p"

type_synonym ProcessTable = "(u32, ProcessInfo) hashmap"

definition pt_add :: "ProcessInfo \<Rightarrow> ProcessTable \<Rightarrow> ProcessTable" where
  "pt_add info t =
     hm_modify (pi_ppid info)
       (\<lambda>parent. parent\<lparr>pi_children := push_unique (pi_pid info) (pi_children parent)\<rparr>)
       (hm_insert (pi_pid info) info t)"

definition mark_tainted :: "u32 \<Rightarrow> rat \<Rightarrow> string \<Rightarrow> ProcessTable \<Rightarrow> ProcessTable" where
  "mark_tainted pid score source t =
     (case hm_get t pid of
        None \<Rightarrow> t
      | Some info \<Rightarrow>
          if pi_taint_score info < score
          then hm_insert pid (info\<lparr>pi_taint_score := score, pi_taint_source := source\<rparr>) t
          else t)"

definition taint_score :: "ProcessTable \<Rightarrow> u32 \<Rightarrow> rat" where
  "taint_score t pid = (case hm_get t pid of Some p \<Rightarrow> pi_taint_score p | None \<Rightarrow> 0)"

section \<open>The taint graph\<close>

datatype ChannelType = Fork | Pipe | FileFlow | MessageQueue

definition decay_factor :: "ChannelType \<Rightarrow> rat" where
  "decay_factor c =
     f64_round (case c of Fork \<Rightarrow> 9/10 | Pipe \<Rightarrow> 7/10 | FileFlow \<Rightarrow> 5/10 | MessageQueue \<Rightarrow> 7/10)"

definition show_ChannelType :: "ChannelType \<Rightarrow> string" where
  "show_ChannelType c =
     (case c of Fork \<Rightarrow> ''fork'' | Pipe \<Rightarrow> ''pipe'' | FileFlow \<Rightarrow> ''file'' | MessageQueue \<Rightarrow> ''mqueue'')"

record TaintEdge =
  te_source_pid :: u32
  te_target_pid :: u32
  te_channel :: string
  te_channel_type :: ChannelType
  te_first_seen :: u64
  te_last_seen :: u64
  te_event_count :: nat

record TaintGraph =
  tg_edges :: "TaintEdge list"
  tg_edge_index :: "(u32 \<times> u32 \<times> ChannelType, nat) hashmap"

definition graph_empty :: TaintGraph where
  "graph_empty = \<lparr>tg_edges = [], tg_edge_index = []\<rparr>"

definition add_edge :: "u32 \<Rightarrow> u32 \<Rightarrow> string \<Rightarrow> ChannelType \<Rightarrow> u64 \<Rightarrow> TaintGraph \<Rightarrow> TaintGraph" where
  "add_edge source_pid target_pid channel channel_type timestamp g =
     (let key = (source_pid, target_pid, channel_type);
          fresh = (let idx = length (tg_edges g) in
            g\<lparr>tg_edge_index := hm_insert key idx (tg_edge_index g),
              tg_edges := tg_edges g @
                [\<lparr>te_source_pid = source_pid, te_target_pid = target_pid, te_channel = channel,
                  te_channel_type = channel_type, te_first_seen = timestamp, te_last_seen = timestamp,
                  te_event_count = 1\<rparr>]\<rparr>)
      in case hm_get (tg_edge_index g) key of
           Some idx \<Rightarrow>
             if idx < length (tg_edges g)
             then g\<lparr>tg_edges := (tg_edges g)[idx := (tg_edges g ! idx)
                     \<lparr>te_last_seen := timestamp, te_event_count := te_event_count (tg_edges g ! idx) + 1\<rparr>]\<rparr>
             else fresh
         | None \<Rightarrow> fresh)"

section \<open>The baseline\<close>

record ContainerBaseline =
  sensitive_paths :: "string list"

definition baseline_new :: ContainerBaseline where
  "baseline_new =
     \<lparr>sensitive_paths = [''/etc/shadow'', ''/etc/passwd'', ''/etc/sudoers'', ''/root/.ssh'',
        ''/home/*/.ssh'', ''/etc/ssl/private'', ''/etc/crontab'', ''/var/spool/cron'']\<rparr>"

definition is_sensitive :: "ContainerBaseline \<Rightarrow> string \<Rightarrow> bool" where
  "is_sensitive b path =
     list_ex (\<lambda>sp.
       if contains sp ''*''
       then (case split_char CHR ''*'' sp of
               [pre, post] \<Rightarrow> starts_with path pre \<and> ends_with path post
             | _ \<Rightarrow> False)
       else starts_with path sp) (sensitive_paths b)"

section \<open>Container state\<close>

record FileNode =
  fn_writers :: "(u32 \<times> nat) list"
  fn_readers :: "(u32 \<times> nat) list"
  fn_executors :: "(u32 \<times> nat) list"
  fn_deleters :: "(u32 \<times> nat) list"
  fn_modifiers :: "(u32 \<times> nat) list"

definition FileNode_new :: FileNode where
  "FileNode_new = \<lparr>fn_writers = [], fn_readers = [], fn_executors = [], fn_deleters = [], fn_modifiers = []\<rparr>"

record IpcNode =
  in_senders :: "(u32 \<times> nat) list"
  in_receivers :: "(u32 \<times> nat) list"

definition IpcNode_new :: IpcNode where
  "IpcNode_new = \<lparr>in_senders = [], in_receivers = []\<rparr>"

datatype FdTarget = FdFile string | FdNetwork string | FdIpc string

record ContainerState =
  process_table :: ProcessTable
  taint_graph :: TaintGraph
  baseline :: ContainerBaseline
  current_action :: "ActionLog option"
  completed_actions :: "ActionLog list"
  last_receipt_time :: u64
  file_nodes :: "(string, FileNode) hashmap"
  current_action_id :: nat
  fd_table :: "(u32 \<times> u64, FdTarget) hashmap"
  ipc_nodes :: "(string, IpcNode) hashmap"

definition ContainerState_new :: "u64 \<Rightarrow> ContainerBaseline \<Rightarrow> ContainerState" where
  "ContainerState_new wall_ms b =
     \<lparr>process_table = [], taint_graph = graph_empty, baseline = b,
      current_action = Some (ActionLog_new wall_ms 0 ''(container lifecycle)'' 0),
      completed_actions = [], last_receipt_time = 0, file_nodes = [], current_action_id = 0,
      fd_table = [], ipc_nodes = []\<rparr>"

section \<open>Attribution\<close>

text \<open>The exact window match of \<open>action_at_time\<close>: newest completed action first, then the current one.\<close>

definition in_window :: "u64 \<Rightarrow> ActionLog \<Rightarrow> bool" where
  "in_window ts a =
     (case al_wall_end_ms a of Some end \<Rightarrow> al_wall_start_ms a \<le> ts \<and> ts \<le> end | None \<Rightarrow> False)"

definition exact_action :: "ContainerState \<Rightarrow> u64 \<Rightarrow> nat option" where
  "exact_action c ts =
     (case find (in_window ts) (rev (completed_actions c)) of
        Some a \<Rightarrow> Some (al_action_id a)
      | None \<Rightarrow>
          (case current_action c of
             Some a \<Rightarrow> if al_wall_start_ms a \<le> ts then Some (al_action_id a) else None
           | None \<Rightarrow> None))"

definition end_or_0 :: "ActionLog \<Rightarrow> u64" where
  "end_or_0 a = (case al_wall_end_ms a of Some e \<Rightarrow> e | None \<Rightarrow> 0)"

definition nearest_step :: "ActionLog list \<Rightarrow> u64 \<Rightarrow> nat \<times> ActionLog \<Rightarrow> nat \<times> u64 \<Rightarrow> nat \<times> u64" where
  "nearest_step done_actions ts = (\<lambda>(i, action) (best_id, best_gap).
     if ts < al_wall_start_ms action
     then (let gap = al_wall_start_ms action - ts;
               prev_end = (if 0 < i then end_or_0 (done_actions ! (i - 1)) else 0)
           in if gap < best_gap \<and> gap < 2000 \<and> prev_end < ts then (al_action_id action, gap)
              else (best_id, best_gap))
     else (best_id, best_gap))"

definition nearest_action :: "ContainerState \<Rightarrow> u64 \<Rightarrow> nat" where
  "nearest_action c ts =
     (let done_actions = completed_actions c;
          (best_id, best_gap) = fold (nearest_step done_actions ts) (List.enumerate 0 done_actions)
                                     (current_action_id c, - 1)
      in case current_action c of
           Some action \<Rightarrow>
             if ts < al_wall_start_ms action
             then (let gap = al_wall_start_ms action - ts;
                       prev_end = (if done_actions = [] then 0 else end_or_0 (last done_actions))
                   in if gap < best_gap \<and> gap < 2000 \<and> prev_end < ts then al_action_id action else best_id)
             else best_id
         | None \<Rightarrow> best_id)"

definition action_at_time :: "ContainerState \<Rightarrow> u64 \<Rightarrow> nat" where
  "action_at_time c timestamp_ms =
     (if timestamp_ms = 0 then current_action_id c
      else case exact_action c timestamp_ms of
             Some i \<Rightarrow> i
           | None \<Rightarrow> nearest_action c timestamp_ms)"

fun update_first :: "('a \<Rightarrow> bool) \<Rightarrow> ('a \<Rightarrow> 'a) \<Rightarrow> 'a list \<Rightarrow> 'a list" where
  "update_first P f [] = []"
| "update_first P f (x # xs) = (if P x then f x # xs else x # update_first P f xs)"

text \<open>\<open>action_for\<close> with the update made through the reference it returns: the current action if it
  has the id, else the first completed one with it, else the current one.\<close>

definition action_for :: "nat \<Rightarrow> (ActionLog \<Rightarrow> ActionLog) \<Rightarrow> ContainerState \<Rightarrow> ContainerState" where
  "action_for action_id f c =
     (let in_current = c\<lparr>current_action := map_option f (current_action c)\<rparr>
      in if (case current_action c of Some a \<Rightarrow> al_action_id a = action_id | None \<Rightarrow> False) then in_current
         else if list_ex (\<lambda>a. al_action_id a = action_id) (completed_actions c)
         then c\<lparr>completed_actions := update_first (\<lambda>a. al_action_id a = action_id) f (completed_actions c)\<rparr>
         else in_current)"

definition attribution :: "ContainerState \<Rightarrow> u32 \<Rightarrow> nat" where
  "attribution c pid =
     (case hm_get (process_table c) pid of
        Some p \<Rightarrow> pi_attributed_action p
      | None \<Rightarrow> current_action_id c)"

definition record_process_event :: "u32 \<Rightarrow> ProcessEvent \<Rightarrow> ContainerState \<Rightarrow> ContainerState" where
  "record_process_event pid ev c = action_for (attribution c pid) (record_process ev) c"

definition record_file_event :: "u32 \<Rightarrow> FileEvent \<Rightarrow> ContainerState \<Rightarrow> ContainerState" where
  "record_file_event pid ev c = action_for (attribution c pid) (record_file ev) c"

definition record_net_event :: "u32 \<Rightarrow> NetworkEvent \<Rightarrow> ContainerState \<Rightarrow> ContainerState" where
  "record_net_event pid ev c = action_for (attribution c pid) (record_net ev) c"

section \<open>File and IPC nodes\<close>

definition file_access :: "u32 \<Rightarrow> nat \<Rightarrow> FileOp \<Rightarrow> FileNode \<Rightarrow> FileNode" where
  "file_access pid action_id op node =
     (let entry = (pid, action_id) in
      case op of
        Write \<Rightarrow> node\<lparr>fn_writers := push_unique entry (fn_writers node)\<rparr>
      | OpenWrite \<Rightarrow> node\<lparr>fn_writers := push_unique entry (fn_writers node)\<rparr>
      | Read \<Rightarrow> if pid \<in> fst ` set (fn_writers node) then node
               else node\<lparr>fn_readers := push_unique entry (fn_readers node)\<rparr>
      | Open \<Rightarrow> if pid \<in> fst ` set (fn_writers node) then node
               else node\<lparr>fn_readers := push_unique entry (fn_readers node)\<rparr>
      | Exec \<Rightarrow> node\<lparr>fn_executors := push_unique entry (fn_executors node)\<rparr>
      | Unlink \<Rightarrow> node\<lparr>fn_deleters := push_unique entry (fn_deleters node)\<rparr>
      | Chmod \<Rightarrow> node\<lparr>fn_modifiers := push_unique entry (fn_modifiers node)\<rparr>
      | Chown \<Rightarrow> node\<lparr>fn_modifiers := push_unique entry (fn_modifiers node)\<rparr>
      | Rename \<Rightarrow> node\<lparr>fn_modifiers := push_unique entry (fn_modifiers node)\<rparr>)"

definition record_file_access :: "string \<Rightarrow> u32 \<Rightarrow> FileOp \<Rightarrow> ContainerState \<Rightarrow> ContainerState" where
  "record_file_access path0 pid op c =
     (if path0 = [] then c
      else (let path = canonicalize_path path0; action_id = attribution c pid
            in c\<lparr>file_nodes := hm_modify path (file_access pid action_id op)
                   (hm_or_insert path FileNode_new (file_nodes c))\<rparr>))"

definition record_ipc_send :: "string \<Rightarrow> u32 \<Rightarrow> ContainerState \<Rightarrow> ContainerState" where
  "record_ipc_send channel pid c =
     (if channel = [] then c
      else c\<lparr>ipc_nodes := hm_modify channel
               (\<lambda>n. n\<lparr>in_senders := push_unique (pid, attribution c pid) (in_senders n)\<rparr>)
               (hm_or_insert channel IpcNode_new (ipc_nodes c))\<rparr>)"

definition record_ipc_recv :: "string \<Rightarrow> u32 \<Rightarrow> ContainerState \<Rightarrow> ContainerState" where
  "record_ipc_recv channel pid c =
     (if channel = [] then c
      else c\<lparr>ipc_nodes := hm_modify channel
               (\<lambda>n. n\<lparr>in_receivers := push_unique (pid, attribution c pid) (in_receivers n)\<rparr>)
               (hm_or_insert channel IpcNode_new (ipc_nodes c))\<rparr>)"

section \<open>Flow edges\<close>

type_synonym linking = "(u32 \<times> u32) list \<times> TaintGraph" \<comment> \<open>the pairs seen, the graph\<close>

definition link :: "string \<Rightarrow> ChannelType \<Rightarrow> (u32 \<Rightarrow> bool) \<Rightarrow> u32 \<Rightarrow> u32 \<Rightarrow> linking \<Rightarrow> linking" where
  "link channel ct skip a b = (\<lambda>(seen, g).
     if a \<noteq> b \<and> \<not> skip b \<and> (a, b) \<notin> set seen
     then ((a, b) # seen, add_edge a b channel ct 0 g) else (seen, g))"

definition link_all :: "string \<Rightarrow> ChannelType \<Rightarrow> (u32 \<Rightarrow> bool) \<Rightarrow> u32 list \<Rightarrow> u32 list \<Rightarrow> linking \<Rightarrow> linking" where
  "link_all channel ct skip as bs = fold (\<lambda>a. fold (\<lambda>b. link channel ct skip a b) bs) as"

definition ipc_links :: "hash_order \<Rightarrow> string \<Rightarrow> IpcNode \<Rightarrow> linking \<Rightarrow> linking" where
  "ipc_links H channel node st =
     (if in_senders node = [] \<or> in_receivers node = [] then st
      else link_all (''ipc:'' @ channel) MessageQueue (\<lambda>_. False)
             (ord_pid H (map fst (in_senders node))) (ord_pid H (map fst (in_receivers node))) st)"

definition build_ipc_flow_edges :: "hash_order \<Rightarrow> ContainerState \<Rightarrow> ContainerState" where
  "build_ipc_flow_edges H c =
     c\<lparr>taint_graph := snd (fold (\<lambda>channel st.
          case hm_get (ipc_nodes c) channel of Some node \<Rightarrow> ipc_links H channel node st | None \<Rightarrow> st)
        (ord_str H (hm_keys (ipc_nodes c))) ([], taint_graph c))\<rparr>"

definition noise_path :: "string \<Rightarrow> bool" where
  "noise_path path \<longleftrightarrow>
     starts_with path ''/proc/'' \<or> starts_with path ''/dev/'' \<or> starts_with path ''/sys/''
     \<or> starts_with path ''/usr/lib/'' \<or> starts_with path ''/lib/'' \<or> contains path ''.so''
     \<or> starts_with path ''/usr/include/'' \<or> starts_with path ''/usr/share/''
     \<or> starts_with path ''/etc/apk/'' \<or> starts_with path ''/etc/terminfo/''"

definition file_links :: "hash_order \<Rightarrow> string \<Rightarrow> FileNode \<Rightarrow> linking \<Rightarrow> linking" where
  "file_links H path node st =
     (if noise_path path then st
      else if fn_writers node = [] \<or> (fn_readers node = [] \<and> fn_executors node = []) then st
      else (let writer_pids = map fst (fn_writers node);
                reader_pids = map fst (fn_readers node) @ map fst (fn_executors node)
            in link_all (''file:'' @ path) FileFlow (\<lambda>b. b \<in> set writer_pids)
                 (ord_pid H writer_pids) (ord_pid H reader_pids) st))"

definition build_file_flow_edges :: "hash_order \<Rightarrow> ContainerState \<Rightarrow> ContainerState" where
  "build_file_flow_edges H c =
     c\<lparr>taint_graph := snd (fold (\<lambda>path st.
          case hm_get (file_nodes c) path of Some node \<Rightarrow> file_links H path node st | None \<Rightarrow> st)
        (ord_str H (hm_keys (file_nodes c))) ([], taint_graph c))\<rparr>"

section \<open>Experiments and the daemon state\<close>

record Experiment =
  ex_id :: string
  ex_name :: string
  ex_container_ids :: "string list"

record DaemonState =
  containers :: "(string, ContainerState) hashmap"
  ip_to_container :: "(ipv4, string) hashmap"
  experiments :: "(string, Experiment) hashmap"
  container_to_experiment :: "(string, string) hashmap"
  next_experiment_id :: nat

definition DaemonState_new :: "DaemonState" where
  "DaemonState_new =
     \<lparr>containers = [], ip_to_container = [], experiments = [], container_to_experiment = [],
      next_experiment_id = 1\<rparr>"

definition create_experiment :: "string \<Rightarrow> DaemonState \<Rightarrow> string \<times> DaemonState" where
  "create_experiment name d =
     (let i = ''exp-'' @ dec (next_experiment_id d)
      in (i, d\<lparr>next_experiment_id := next_experiment_id d + 1,
               experiments := hm_insert i \<lparr>ex_id = i, ex_name = name, ex_container_ids = []\<rparr> (experiments d)\<rparr>))"

definition add_container_to_experiment ::
  "string \<Rightarrow> string \<Rightarrow> DaemonState \<Rightarrow> bool \<times> DaemonState" where
  "add_container_to_experiment experiment_id container_id d =
     (case hm_get (experiments d) experiment_id of
        Some ex \<Rightarrow>
          (True, d\<lparr>experiments := hm_insert experiment_id
                     (ex\<lparr>ex_container_ids := push_unique container_id (ex_container_ids ex)\<rparr>) (experiments d),
                   container_to_experiment := hm_insert container_id experiment_id (container_to_experiment d)\<rparr>)
      | None \<Rightarrow> (False, d))"

definition ensure_container :: "u64 \<Rightarrow> string \<Rightarrow> DaemonState \<Rightarrow> DaemonState" where
  "ensure_container wall_ms container_id d =
     (if hm_contains (containers d) container_id then d
      else d\<lparr>containers := hm_insert container_id (ContainerState_new wall_ms baseline_new) (containers d)\<rparr>)"

end
