(* ===== verification/Taint.thy ===== *)
theory Taint
  imports State "HOL-Library.While_Combinator"
begin

text \<open>
  \<open>propagate_taint\<close> of \<open>src/src/state.rs\<close>: the relaxation of the taint graph's edges until no score
  rises. The loop is a \<open>while_option\<close>, so that not returning is the value \<open>None\<close>; here
  are the invariant rule of the loop and its termination argument (every raise of a score is a
  multiple of the smallest subnormal, and the scores stay below 1). The properties are in theory
  \<open>Taint_Correct\<close>.
\<close>

declare map_of_eq_Some_iff [simp del]

definition taint_epsilon :: rat where
  "taint_epsilon = f64_round (1 / 10 ^ 9)"

definition arrow :: string where
  "arrow = [CHR 0xE2, CHR 0x86, CHR 0x92]"

definition taint_note :: "TaintEdge \<Rightarrow> rat \<Rightarrow> rat \<Rightarrow> string" where
  "taint_note e source_score propagated =
     show_ChannelType (te_channel_type e) @ '' from pid '' @ dec (unat (te_source_pid e)) @
     '' (score '' @ format_2 source_score @ arrow @ format_2 propagated @ '')''"

type_synonym taint_state = "bool \<times> u32 list \<times> ProcessTable"

definition relax :: "TaintEdge \<Rightarrow> taint_state \<Rightarrow> taint_state" where
  "relax e = (\<lambda>(changed, newly, t).
     (let source_score = taint_score t (te_source_pid e) in
      if source_score < TAINT_THRESHOLD then (changed, newly, t)
      else if \<not> hm_contains t (te_target_pid e) then (changed, newly, t)
      else (let propagated = fmul source_score (decay_factor (te_channel_type e));
                current = taint_score t (te_target_pid e)
            in if fadd current taint_epsilon < propagated
               then (True,
                     (if current < TAINT_THRESHOLD \<and> TAINT_THRESHOLD \<le> propagated
                      then newly @ [te_target_pid e] else newly),
                     mark_tainted (te_target_pid e) propagated (taint_note e source_score propagated) t)
               else (changed, newly, t))))"

definition propagate_pass :: "TaintEdge list \<Rightarrow> taint_state \<Rightarrow> taint_state" where
  "propagate_pass edges = (\<lambda>(_, newly, t). fold relax edges (False, newly, t))"

definition propagate_taint :: "TaintEdge list \<Rightarrow> ProcessTable \<Rightarrow> (u32 list \<times> ProcessTable) option" where
  "propagate_taint edges t =
     map_option snd (while_option fst (propagate_pass edges) (True, [], t))"

section \<open>Proper scores\<close>

definition proper_score :: "rat \<Rightarrow> bool" where
  "proper_score x \<longleftrightarrow> 0 \<le> x \<and> x \<le> 1 \<and> is_f64 x"

definition scores_wf :: "ProcessTable \<Rightarrow> bool" where
  "scores_wf t \<longleftrightarrow> (\<forall>pid p. hm_get t pid = Some p \<longrightarrow> proper_score (pi_taint_score p))"

lemma proper_score_0 [simp]: "proper_score 0" and proper_score_1 [simp]: "proper_score 1"
  by (simp_all add: proper_score_def)

lemma taint_score_proper: "scores_wf t \<Longrightarrow> proper_score (taint_score t pid)"
  by (auto simp: taint_score_def scores_wf_def split: option.splits)

lemma f64_round_unit: "0 \<le> x \<Longrightarrow> x \<le> 1 \<Longrightarrow> proper_score (f64_round x)"
  using f64_round_mono [of x 1] is_f64_1 f64_round_nonneg [of x] f64_round_is_f64 [of x]
  by (simp add: proper_score_def is_f64_def)

lemma decay_proper: "proper_score (decay_factor c)"
  unfolding decay_factor_def by (rule f64_round_unit) (cases c; simp)+

lemma decay_bounds: "0 \<le> decay_factor c" "decay_factor c \<le> 1"
  using decay_proper [of c] by (simp_all add: proper_score_def)

lemma epsilon_nonneg: "0 \<le> taint_epsilon"
  by (simp add: taint_epsilon_def f64_round_nonneg)

lemma fmul_proper: "proper_score x \<Longrightarrow> proper_score (fmul x (decay_factor c))"
  using fmul_le [of x "decay_factor c"] decay_bounds [of c] by (simp add: proper_score_def)

section \<open>One relaxation\<close>

text \<open>An edge whose relaxation changes the table.\<close>

definition raises :: "ProcessTable \<Rightarrow> TaintEdge \<Rightarrow> bool" where
  "raises t e \<longleftrightarrow>
     TAINT_THRESHOLD \<le> taint_score t (te_source_pid e) \<and> hm_contains t (te_target_pid e) \<and>
     fadd (taint_score t (te_target_pid e)) taint_epsilon <
       fmul (taint_score t (te_source_pid e)) (decay_factor (te_channel_type e))"

definition raised :: "TaintEdge \<Rightarrow> ProcessTable \<Rightarrow> ProcessTable" where
  "raised e t =
     (let s = taint_score t (te_source_pid e); p = fmul s (decay_factor (te_channel_type e))
      in mark_tainted (te_target_pid e) p (taint_note e s p) t)"

lemma relax_raises:
  "raises t e \<Longrightarrow> relax e (ch, newly, t) =
     (True, if taint_score t (te_target_pid e) < TAINT_THRESHOLD \<and>
               TAINT_THRESHOLD \<le> fmul (taint_score t (te_source_pid e)) (decay_factor (te_channel_type e))
            then newly @ [te_target_pid e] else newly, raised e t)"
  "\<not> raises t e \<Longrightarrow> relax e (ch, newly, t) = (ch, newly, t)"
  by (auto simp: relax_def raises_def raised_def Let_def)

lemma raises_strict:
  assumes "scores_wf t" "raises t e"
  shows "taint_score t (te_target_pid e) < fmul (taint_score t (te_source_pid e)) (decay_factor (te_channel_type e))"
  using fadd_ge [of "taint_score t (te_target_pid e)" taint_epsilon] assms epsilon_nonneg
    taint_score_proper [OF assms(1), of "te_target_pid e"]
  by (simp add: raises_def proper_score_def)

lemma raised_get:
  assumes "scores_wf t" "raises t e"
  shows "hm_get (raised e t) pid =
    (if pid = te_target_pid e
     then map_option (\<lambda>p. p\<lparr>pi_taint_score := fmul (taint_score t (te_source_pid e)) (decay_factor (te_channel_type e)),
        pi_taint_source := taint_note e (taint_score t (te_source_pid e))
          (fmul (taint_score t (te_source_pid e)) (decay_factor (te_channel_type e)))\<rparr>) (hm_get t pid)
     else hm_get t pid)"
proof -
  obtain p where p: "hm_get t (te_target_pid e) = Some p"
    using assms(2) by (auto simp: raises_def hm_contains_def)
  with raises_strict [OF assms] show ?thesis
    by (auto simp: raised_def mark_tainted_def taint_score_def [of t "te_target_pid e"] Let_def hm_simps)
qed

lemma raised_score:
  assumes "scores_wf t" "raises t e"
  shows "taint_score (raised e t) pid =
    (if pid = te_target_pid e then fmul (taint_score t (te_source_pid e)) (decay_factor (te_channel_type e))
     else taint_score t pid)"
proof -
  obtain p where p: "hm_get t (te_target_pid e) = Some p"
    using assms(2) by (auto simp: raises_def hm_contains_def)
  then show ?thesis
    by (simp add: taint_score_def [of "raised e t" pid] raised_get [OF assms] taint_score_def [of t pid])
qed

lemma raised_keys: "scores_wf t \<Longrightarrow> raises t e \<Longrightarrow> hm_keys (raised e t) = hm_keys t"
  by (auto simp: raised_def mark_tainted_def raises_def hm_contains_iff Let_def update_keys
      split: option.splits)

lemma raised_scores_wf:
  assumes "scores_wf t" "raises t e"
  shows "scores_wf (raised e t)"
  using assms fmul_proper [OF taint_score_proper [OF assms(1)]]
  by (auto simp: scores_wf_def raised_get [OF assms] split: if_splits)

section \<open>Passes\<close>

text \<open>A property of the reported list and the table that every raising edge keeps.\<close>

definition kept_by :: "TaintEdge list \<Rightarrow> (u32 list \<Rightarrow> ProcessTable \<Rightarrow> bool) \<Rightarrow> bool" where
  "kept_by edges P \<longleftrightarrow>
     (\<forall>e n t. e \<in> set edges \<longrightarrow> scores_wf t \<longrightarrow> P n t \<longrightarrow> raises t e \<longrightarrow>
        P (if taint_score t (te_target_pid e) < TAINT_THRESHOLD \<and>
              TAINT_THRESHOLD \<le> fmul (taint_score t (te_source_pid e)) (decay_factor (te_channel_type e))
           then n @ [te_target_pid e] else n) (raised e t))"

lemma fold_relax_kept:
  assumes "kept_by edges P" "set es \<subseteq> set edges" "scores_wf t" "P n t" "fold relax es (ch, n, t) = (ch', n', t')"
  shows "scores_wf t' \<and> P n' t'"
  using assms(2-)
proof (induction es arbitrary: ch n t)
  case (Cons e es)
  show ?case
  proof (cases "raises t e")
    case True
    let ?n = "if taint_score t (te_target_pid e) < TAINT_THRESHOLD \<and>
          TAINT_THRESHOLD \<le> fmul (taint_score t (te_source_pid e)) (decay_factor (te_channel_type e))
        then n @ [te_target_pid e] else n"
    have "P ?n (raised e t)" using assms(1) Cons.prems(1,2,3) True by (simp add: kept_by_def)
    moreover have "fold relax es (True, ?n, raised e t) = (ch', n', t')"
      using Cons.prems(4) by (simp only: fold_simps relax_raises(1) [OF True] comp_def)
    ultimately show ?thesis
      using Cons.IH Cons.prems(1,2) raised_scores_wf [OF Cons.prems(2) True] by simp
  next
    case False
    then show ?thesis using Cons by (simp add: relax_raises(2))
  qed
qed simp

lemma fold_relax_changed: "fst (fold relax es (True, n, t))"
proof (induction es arbitrary: n t)
  case (Cons e es)
  then show ?case by (cases "raises t e") (simp_all add: relax_raises)
qed simp

lemma fold_relax_no_reset: "fold relax es (True, n, t) \<noteq> (False, n', t')"
  using fold_relax_changed [of es n t] by auto

text \<open>A pass that reports no change has left everything and no edge raises.\<close>

lemma fold_relax_quiet:
  assumes "fold relax es (False, n, t) = (False, n', t')"
  shows "n' = n \<and> t' = t \<and> (\<forall>e \<in> set es. \<not> raises t e)"
  using assms
proof (induction es)
  case (Cons e es)
  show ?case
  proof (cases "raises t e")
    case True
    then show ?thesis
      using Cons.prems by (simp add: relax_raises(1) fold_relax_no_reset)
  next
    case False
    then show ?thesis using Cons by (simp add: relax_raises)
  qed
qed simp

section \<open>Termination\<close>

definition level :: "rat \<Rightarrow> nat" where
  "level x = nat \<lfloor>x / f64_tiny\<rfloor>"

definition slack :: "ProcessTable \<Rightarrow> nat" where
  "slack t = (\<Sum>pid \<in> set (hm_keys t). level 1 - level (taint_score t pid))"

lemma level_granular: "level (of_nat n * f64_tiny) = n"
  by (simp add: level_def less_imp_neq [OF f64_tiny_pos, symmetric])

lemma level_less:
  assumes "proper_score x" "proper_score y" "x < y"
  shows "level x < level y"
proof -
  obtain m n where mn: "x = of_nat m * f64_tiny" "y = of_nat n * f64_tiny"
    using assms f64_granular by (metis proper_score_def)
  then have "(of_nat m :: rat) < of_nat n" using assms(3) f64_tiny_pos by (simp add: mult_less_cancel_right)
  then show ?thesis unfolding mn level_granular by simp
qed

lemma slack_raised:
  assumes "scores_wf t" "raises t e"
  shows "slack (raised e t) < slack t"
proof -
  let ?y = "te_target_pid e" and ?v = "fmul (taint_score t (te_source_pid e)) (decay_factor (te_channel_type e))"
  have y: "?y \<in> set (hm_keys t)" using assms(2) by (simp only: raises_def hm_contains_iff)
  have v: "proper_score ?v" by (rule fmul_proper [OF taint_score_proper [OF assms(1)]])
  have less: "level (taint_score t ?y) < level ?v"
    by (rule level_less [OF taint_score_proper [OF assms(1)] v raises_strict [OF assms]])
  have top: "level ?v \<le> level 1"
  proof (cases "?v = 1")
    case False
    then have "?v < 1" using v by (simp add: proper_score_def)
    from level_less [OF v proper_score_1 this] show ?thesis by simp
  qed simp
  have "slack (raised e t) = (\<Sum>pid \<in> set (hm_keys t). level 1 - level (taint_score (raised e t) pid))"
    by (simp only: slack_def raised_keys [OF assms])
  also have "\<dots> < slack t"
    unfolding slack_def
  proof (rule sum_strict_mono_ex1)
    show "\<exists>pid \<in> set (hm_keys t). level 1 - level (taint_score (raised e t) pid) < level 1 - level (taint_score t pid)"
      using y less top by (intro bexI [of _ ?y]) (simp_all add: raised_score [OF assms] diff_less_mono2)
  qed (use less in \<open>auto simp: raised_score [OF assms]\<close>)
  finally show ?thesis .
qed

lemma fold_relax_slack:
  assumes "scores_wf t" "fold relax es (ch, n, t) = (ch', n', t')"
  shows "slack t' \<le> slack t \<and> (ch' \<longrightarrow> ch \<or> slack t' < slack t)"
  using assms
proof (induction es arbitrary: ch n t)
  case (Cons e es)
  show ?case
  proof (cases "raises t e")
    case True
    from Cons.prems(2) obtain n1 where "fold relax es (True, n1, raised e t) = (ch', n', t')"
      by (auto simp: relax_raises(1) [OF True])
    from Cons.IH [OF raised_scores_wf [OF Cons.prems(1) True] this] slack_raised [OF Cons.prems(1) True]
    show ?thesis by auto
  next
    case False
    then have "fold relax es (ch, n, t) = (ch', n', t')" using Cons.prems(2) by (simp add: relax_raises(2))
    from Cons.IH [OF Cons.prems(1) this] show ?thesis .
  qed
qed simp

lemma kept_by_True: "kept_by edges (\<lambda>_ _. True)"
  by (simp add: kept_by_def)

lemma loop_returns:
  assumes "scores_wf t"
  shows "\<exists>st. while_option fst (propagate_pass edges) (True, [], t) = Some st"
proof (rule measure_while_option_Some [where P = "\<lambda>(ch, n, t). scores_wf t"
      and f = "\<lambda>(ch, n, t). 2 * slack t + (if ch then 1 else 0)"])
  fix st :: taint_state
  assume "case st of (ch, n, t) \<Rightarrow> scores_wf t" and ch: "fst st"
  then obtain n u where st: "st = (True, n, u)" "scores_wf u" by (cases st) auto
  obtain ch' n' u' where r: "fold relax edges (False, n, u) = (ch', n', u')" by (metis prod_cases3)
  have "scores_wf u'" using fold_relax_kept [OF kept_by_True subset_refl st(2) _ r] by simp
  moreover have "2 * slack u' + (if ch' then 1 else 0) < 2 * slack u + 1"
    using fold_relax_slack [OF st(2) r] by auto
  ultimately show "(case propagate_pass edges st of (ch, n, t) \<Rightarrow> scores_wf t) \<and>
      (case propagate_pass edges st of (ch, n, t) \<Rightarrow> 2 * slack t + (if ch then 1 else 0))
        < (case st of (ch, n, t) \<Rightarrow> 2 * slack t + (if ch then 1 else 0))"
    by (simp add: propagate_pass_def st(1) r)
qed (use assms in simp)

section \<open>What the loop keeps and where it stops\<close>

lemma loop_rule:
  assumes "propagate_taint edges t = Some (newly, t')" "scores_wf t" "kept_by edges P" "P [] t"
  shows "scores_wf t' \<and> P newly t' \<and> (\<forall>e \<in> set edges. \<not> raises t' e)"
proof -
  let ?I = "\<lambda>(ch, n, u). scores_wf u \<and> P n u \<and> (ch \<or> (\<forall>e \<in> set edges. \<not> raises u e))"
  obtain ch where w: "while_option fst (propagate_pass edges) (True, [], t) = Some (ch, newly, t')"
    using assms(1) by (auto simp: propagate_taint_def)
  have "?I (ch, newly, t')"
  proof (rule while_option_rule [OF _ w])
    fix st :: taint_state assume I: "?I st" "fst st"
    obtain n u where st: "st = (True, n, u)" using I(2) by (cases st) auto
    obtain ch' n' u' where r: "fold relax edges (False, n, u) = (ch', n', u')" by (metis prod_cases3)
    have "scores_wf u' \<and> P n' u'"
      using fold_relax_kept [OF assms(3) subset_refl _ _ r] I(1) st by simp
    moreover have "ch' \<or> (\<forall>e \<in> set edges. \<not> raises u' e)"
      using fold_relax_quiet [of edges n u n' u'] r by (cases ch') auto
    ultimately show "?I (propagate_pass edges st)" by (simp add: propagate_pass_def st r)
  qed (use assms in simp)
  moreover have "\<not> ch" using while_option_stop [OF w] by simp
  ultimately show ?thesis by auto
qed

end
