(* ===== verification/Handlers.thy ===== *)
theory Handlers
  imports Ingest Taint
begin

text \<open>
  \<open>src/src/handlers.rs\<close>: the effect of one system call event on a container's state. \<open>dispatch\<close> makes
  sure that the process is known, then runs the handler of the call's name. Handlers are total
  and pure here: the timestamp is an argument, the state is threaded explicitly.
\<close>

section \<open>Helpers\<close>

definition ev_exe :: "SyscallEvent \<Rightarrow> string" where
  "ev_exe ev = to_str_lossy (se_exe ev)"

definition ev_comm :: "SyscallEvent \<Rightarrow> string" where
  "ev_comm ev = CommBuf_as_str (se_comm ev)"

definition process_event :: "SyscallEvent \<Rightarrow> u64 \<Rightarrow> ProcessOp \<Rightarrow> string \<Rightarrow> ProcessEvent" where
  "process_event ev ts op exe =
     \<lparr>pv_pid = se_pid ev, pv_timestamp = ts, pv_operation = op, pv_target_pid = None,
      pv_exe = exe, pv_comm = ev_comm ev\<rparr>"

definition file_event :: "SyscallEvent \<Rightarrow> u64 \<Rightarrow> FileOp \<Rightarrow> string \<Rightarrow> u32 \<Rightarrow> bool \<Rightarrow> FileEvent" where
  "file_event ev ts op path flags sensitive =
     \<lparr>fe_pid = se_pid ev, fe_timestamp = ts, fe_operation = op, fe_path = path, fe_flags = flags,
      fe_is_sensitive = sensitive, fe_is_new_binary = False\<rparr>"

text \<open>\<open>process_table.processes.get_mut(&pid)\<close> with an update of the record.\<close>

definition modify_process :: "u32 \<Rightarrow> (ProcessInfo \<Rightarrow> ProcessInfo) \<Rightarrow> ContainerState \<Rightarrow> ContainerState" where
  "modify_process pid f c = c\<lparr>process_table := hm_modify pid f (process_table c)\<rparr>"

definition set_fd :: "u32 \<Rightarrow> u64 \<Rightarrow> FdTarget \<Rightarrow> ContainerState \<Rightarrow> ContainerState" where
  "set_fd pid fd target c = c\<lparr>fd_table := hm_insert (pid, fd) target (fd_table c)\<rparr>"

section \<open>Processes\<close>

definition refresh_process :: "SyscallEvent \<Rightarrow> ProcessInfo \<Rightarrow> ProcessInfo" where
  "refresh_process ev info =
     (let cmdline = to_str_lossy (se_cmdline ev); comm = ev_comm ev; exe = ev_exe ev;
          info = (if cmdline \<noteq> [] \<and> cmdline \<noteq> pi_cmdline info then info\<lparr>pi_cmdline := cmdline\<rparr> else info);
          info = (if comm \<noteq> [] then info\<lparr>pi_comm := comm\<rparr> else info)
      in if exe \<noteq> [] then info\<lparr>pi_exec_path := exe\<rparr> else info)"

definition new_process :: "ContainerState \<Rightarrow> SyscallEvent \<Rightarrow> ProcessInfo" where
  "new_process c ev =
     (let ppid = se_ppid ev;
          parent_score = taint_score (process_table c) ppid;
          is_first_process = (process_table c = []);
          has_active_action = (current_action c \<noteq> None \<and> 0 < current_action_id c);
          score = (if is_first_process then 0
                   else if has_active_action \<and> parent_score = 0 then 1
                   else fmul parent_score (decay_factor Fork))
      in \<lparr>pi_pid = se_pid ev, pi_ppid = ppid, pi_comm = ev_comm ev, pi_exec_path = ev_exe ev,
          pi_cmdline = to_str_lossy (se_cmdline ev), pi_open_files = [], pi_net_connections = [],
          pi_taint_score = score,
          pi_taint_source =
            (if has_active_action \<and> parent_score = 0
             then ''agent action #'' @ dec (current_action_id c)
             else if 0 < parent_score
             then ''fork from pid '' @ dec (unat ppid) @ '' (score '' @ format_2 score @ '')''
             else []),
          pi_exited = False, pi_children = [],
          pi_attributed_action =
            (case hm_get (process_table c) ppid of
               Some parent \<Rightarrow> pi_attributed_action parent
             | None \<Rightarrow> action_at_time c (se_timestamp_ms ev))\<rparr>)"

definition ensure_process :: "SyscallEvent \<Rightarrow> ContainerState \<Rightarrow> ContainerState" where
  "ensure_process ev c =
     (if hm_contains (process_table c) (se_pid ev)
      then modify_process (se_pid ev) (refresh_process ev) c
      else (let ppid = se_ppid ev;
                is_first_process = (process_table c = []);
                c1 = c\<lparr>process_table := pt_add (new_process c ev) (process_table c)\<rparr>
            in if \<not> is_first_process \<and> hm_contains (process_table c1) ppid
               then c1\<lparr>taint_graph := add_edge ppid (se_pid ev)
                        (''fork (child of pid '' @ dec (unat ppid) @ '')'') Fork 0 (taint_graph c1)\<rparr>
               else c1))"

section \<open>Handlers\<close>

definition handle_process_op :: "ProcessOp \<Rightarrow> SyscallEvent \<Rightarrow> u64 \<Rightarrow> ContainerState \<Rightarrow> ContainerState" where
  "handle_process_op op ev ts c =
     record_process_event (se_pid ev) (process_event ev ts op (ev_exe ev)) c"

definition handle_memfd :: "SyscallEvent \<Rightarrow> u64 \<Rightarrow> ContainerState \<Rightarrow> ContainerState" where
  "handle_memfd = handle_process_op POFork"

definition handle_ptrace :: "SyscallEvent \<Rightarrow> u64 \<Rightarrow> ContainerState \<Rightarrow> ContainerState" where
  "handle_ptrace = handle_process_op POSignal"

definition handle_fork :: "SyscallEvent \<Rightarrow> u64 \<Rightarrow> ContainerState \<Rightarrow> ContainerState" where
  "handle_fork = handle_process_op POFork"

definition handle_signal :: "SyscallEvent \<Rightarrow> u64 \<Rightarrow> ContainerState \<Rightarrow> ContainerState" where
  "handle_signal = handle_process_op POSignal"

definition fd_target_desc :: "FdTarget option \<Rightarrow> u64 option \<Rightarrow> string" where
  "fd_target_desc target fd =
     (case target of
        Some (FdFile p) \<Rightarrow> p
      | Some (FdNetwork a) \<Rightarrow> ''net:'' @ a
      | Some (FdIpc name) \<Rightarrow> ''mq:'' @ name
      | None \<Rightarrow> (case fd of Some n \<Rightarrow> ''fd:'' @ dec (unat n) | None \<Rightarrow> []))"

definition handle_kernel_transfer :: "string \<Rightarrow> SyscallEvent \<Rightarrow> u64 \<Rightarrow> ContainerState \<Rightarrow> ContainerState" where
  "handle_kernel_transfer syscall ev ts c =
     (let (src_fd, dst_fd) = (case se_detail ev of Transfer s d \<Rightarrow> (Some s, Some d) | _ \<Rightarrow> (None, None));
          target = (\<lambda>fd. Option.bind fd (\<lambda>n. hm_get (fd_table c) (se_pid ev, n)));
          src_target = target src_fd; dst_target = target dst_fd;
          src_desc = fd_target_desc src_target src_fd; dst_desc = fd_target_desc dst_target dst_fd;
          path = (if src_desc \<noteq> [] \<and> dst_desc \<noteq> []
                  then ''(kernel:'' @ syscall @ '' '' @ src_desc @ '' '' @ arrow @ '' '' @ dst_desc @ '')''
                  else ''(kernel:'' @ syscall @ '')'');
          c1 = (case src_target of
                  Some (FdFile src_path) \<Rightarrow> record_file_access src_path (se_pid ev) Read c
                | _ \<Rightarrow> c)
      in record_file_event (se_pid ev) (file_event ev ts Read path 0 False) c1)"

definition handle_exec :: "SyscallEvent \<Rightarrow> u64 \<Rightarrow> ContainerState \<Rightarrow> ContainerState" where
  "handle_exec ev ts c =
     (let exe = (case se_detail ev of
                   ExecDetail (Some p) \<Rightarrow> if p \<noteq> [] then to_str_lossy p else ev_exe ev
                 | _ \<Rightarrow> ev_exe ev);
          c = modify_process (se_pid ev) (\<lambda>info. info\<lparr>pi_exec_path := exe, pi_comm := ev_comm ev\<rparr>) c;
          c = record_file_access exe (se_pid ev) Exec c;
          c = record_process_event (se_pid ev) (process_event ev ts POExec exe) c
      in record_file_event (se_pid ev) (file_event ev ts Exec exe 0 False) c)"

definition handle_exit :: "SyscallEvent \<Rightarrow> u64 \<Rightarrow> ContainerState \<Rightarrow> ContainerState" where
  "handle_exit ev ts c =
     (let c = handle_process_op POExit ev ts c;
          c = modify_process (se_pid ev) (\<lambda>info. info\<lparr>pi_exited := True\<rparr>) c
      in c\<lparr>fd_table := hm_retain (\<lambda>(pid, _). pid \<noteq> se_pid ev) (fd_table c)\<rparr>)"

text \<open>\<open>O_WRONLY | O_RDWR | O_CREAT | O_TRUNC\<close> on x86_64.\<close>

definition write_flags :: u32 where "write_flags = 0x243"

definition handle_open :: "SyscallEvent \<Rightarrow> u64 \<Rightarrow> ContainerState \<Rightarrow> ContainerState" where
  "handle_open ev ts c =
     (let (path, flags, ret) =
            (case se_detail ev of
               File p fl r \<Rightarrow> (to_str_lossy p, ucast fl :: u32, r)
             | _ \<Rightarrow> ([], 0, - 1));
          sensitive = (path \<noteq> [] \<and> is_sensitive (baseline c) path);
          is_write = (and flags write_flags \<noteq> 0);
          op = (if is_write then OpenWrite else Open);
          c1 = (if path \<noteq> []
                then (let c = record_file_access path (se_pid ev) op c;
                          c = modify_process (se_pid ev)
                                (\<lambda>info. info\<lparr>pi_open_files := push_unique path (pi_open_files info)\<rparr>) c
                      in if 0 \<le> ret then set_fd (se_pid ev) (i64_as_u64 ret) (FdFile path) c else c)
                else c)
      in record_file_event (se_pid ev) (file_event ev ts op path flags sensitive) c1)"

definition handle_file_rw :: "FileOp \<Rightarrow> SyscallEvent \<Rightarrow> u64 \<Rightarrow> ContainerState \<Rightarrow> ContainerState" where
  "handle_file_rw op ev ts c =
     record_file_event (se_pid ev) (file_event ev ts op [] 0 False) c"

definition handle_file_meta :: "FileOp \<Rightarrow> SyscallEvent \<Rightarrow> u64 \<Rightarrow> ContainerState \<Rightarrow> ContainerState" where
  "handle_file_meta op ev ts c =
     (let path = (case se_detail ev of File p _ _ \<Rightarrow> to_str_lossy p | _ \<Rightarrow> []);
          c1 = (if path \<noteq> [] then record_file_access path (se_pid ev) op c else c)
      in record_file_event (se_pid ev) (file_event ev ts op path 0 False) c1)"

definition handle_network :: "NetOp \<Rightarrow> SyscallEvent \<Rightarrow> u64 \<Rightarrow> ContainerState \<Rightarrow> ContainerState" where
  "handle_network op ev ts c =
     (let (remote, fd) = (case se_detail ev of
                            Network target n \<Rightarrow> (Some (display_addr target), Some n)
                          | _ \<Rightarrow> (None, None));
          c1 = (case (remote, fd) of
                  (Some addr, Some n) \<Rightarrow>
                    if op = Connect \<or> op = Bind then set_fd (se_pid ev) n (FdNetwork addr) c else c
                | _ \<Rightarrow> c);
          c2 = (case remote of
                  Some addr \<Rightarrow>
                    (let conn = (if op = Connect \<or> op = SendTo then ''connect '' @ addr
                                 else if op = Bind then ''listen '' @ addr else [])
                     in modify_process (se_pid ev)
                          (\<lambda>info. if conn \<noteq> []
                             then info\<lparr>pi_net_connections := push_unique conn (pi_net_connections info)\<rparr>
                             else info) c1)
                | None \<Rightarrow> c1)
      in record_net_event (se_pid ev)
           \<lparr>ne_pid = se_pid ev, ne_timestamp = ts, ne_operation = op, ne_remote_addr = remote\<rparr> c2)"

definition handle_ipc_open :: "SyscallEvent \<Rightarrow> u64 \<Rightarrow> ContainerState \<Rightarrow> ContainerState" where
  "handle_ipc_open ev ts c =
     (case se_detail ev of
        Ipc channel fd \<Rightarrow>
          (let c = handle_process_op POSignal ev ts c
           in c\<lparr>ipc_nodes := hm_or_insert channel IpcNode_new (ipc_nodes c)\<rparr>)
      | _ \<Rightarrow> c)"

definition handle_mq_open :: "SyscallEvent \<Rightarrow> u64 \<Rightarrow> ContainerState \<Rightarrow> ContainerState" where
  "handle_mq_open ev ts c =
     (case se_detail ev of
        Ipc channel fd \<Rightarrow>
          handle_ipc_open ev ts
            (if 0 \<le> fd \<and> channel \<noteq> [] then set_fd (se_pid ev) (i64_as_u64 fd) (FdIpc channel) c else c)
      | _ \<Rightarrow> c)"

definition resolve_ipc_channel :: "ContainerState \<Rightarrow> SyscallEvent \<Rightarrow> string" where
  "resolve_ipc_channel c ev =
     (case se_detail ev of
        Ipc channel fd \<Rightarrow>
          if channel \<noteq> [] then channel
          else if 0 \<le> fd
          then (case hm_get (fd_table c) (se_pid ev, i64_as_u64 fd) of Some (FdIpc name) \<Rightarrow> name | _ \<Rightarrow> [])
          else []
      | _ \<Rightarrow> [])"

definition handle_ipc_send :: "SyscallEvent \<Rightarrow> u64 \<Rightarrow> ContainerState \<Rightarrow> ContainerState" where
  "handle_ipc_send ev ts c =
     (let channel = resolve_ipc_channel c ev
      in if channel = [] then c
         else handle_process_op POSignal ev ts (record_ipc_send channel (se_pid ev) c))"

definition handle_ipc_recv :: "SyscallEvent \<Rightarrow> u64 \<Rightarrow> ContainerState \<Rightarrow> ContainerState" where
  "handle_ipc_recv ev ts c =
     (let channel = resolve_ipc_channel c ev
      in if channel = [] then c
         else handle_process_op POSignal ev ts (record_ipc_recv channel (se_pid ev) c))"

section \<open>Dispatch\<close>

datatype handler =
    HFork | HExec | HExit | HOpen | HFileRw FileOp | HFileMeta FileOp | HNetwork NetOp | HSignal
  | HIpcOpen | HIpcSend | HIpcRecv | HMqOpen | HMemfd | HPtrace | HTransfer | HIgnore

definition handler_for :: "string \<Rightarrow> handler" where
  "handler_for name =
     (if name \<in> {''clone'', ''clone3'', ''fork'', ''vfork''} then HFork
      else if name \<in> {''execve'', ''execveat''} then HExec
      else if name = ''exit_group'' then HExit
      else if name \<in> {''open'', ''openat'', ''openat2'', ''creat''} then HOpen
      else if name \<in> {''read'', ''pread64'', ''readv'', ''preadv'', ''preadv2''} then HFileRw Read
      else if name \<in> {''write'', ''pwrite64'', ''writev'', ''pwritev'', ''pwritev2''} then HFileRw Write
      else if name \<in> {''unlink'', ''unlinkat''} then HFileMeta Unlink
      else if name \<in> {''rename'', ''renameat'', ''renameat2''} then HFileMeta Rename
      else if name \<in> {''chmod'', ''fchmod'', ''fchmodat''} then HFileMeta Chmod
      else if name \<in> {''chown'', ''fchown'', ''fchownat''} then HFileMeta Chown
      else if name = ''socket'' then HNetwork Socket
      else if name = ''connect'' then HNetwork Connect
      else if name = ''bind'' then HNetwork Bind
      else if name \<in> {''accept'', ''accept4''} then HNetwork Accept
      else if name = ''sendto'' then HNetwork SendTo
      else if name = ''sendmsg'' then HNetwork SendTo
      else if name = ''recvfrom'' then HNetwork RecvFrom
      else if name = ''recvmsg'' then HNetwork RecvFrom
      else if name = ''sendmmsg'' then HNetwork SendTo
      else if name = ''recvmmsg'' then HNetwork RecvFrom
      else if name \<in> {''pipe'', ''pipe2''} then HIgnore
      else if name \<in> {''dup'', ''dup2'', ''dup3''} then HIgnore
      else if name \<in> {''kill'', ''tgkill''} then HSignal
      else if name \<in> {''shmget'', ''shmat'', ''shmdt''} then HIgnore
      else if name = ''msgget'' then HIpcOpen
      else if name = ''msgsnd'' then HIpcSend
      else if name = ''msgrcv'' then HIpcRecv
      else if name = ''mq_open'' then HMqOpen
      else if name = ''mq_timedsend'' then HIpcSend
      else if name = ''mq_timedreceive'' then HIpcRecv
      else if name = ''memfd_create'' then HMemfd
      else if name = ''ptrace'' then HPtrace
      else if name \<in> {''sendfile'', ''splice'', ''tee'', ''copy_file_range''} then HTransfer
      else HIgnore)"

definition run_handler :: "handler \<Rightarrow> SyscallEvent \<Rightarrow> u64 \<Rightarrow> ContainerState \<Rightarrow> ContainerState" where
  "run_handler h ev ts =
     (case h of
        HFork \<Rightarrow> handle_fork ev ts
      | HExec \<Rightarrow> handle_exec ev ts
      | HExit \<Rightarrow> handle_exit ev ts
      | HOpen \<Rightarrow> handle_open ev ts
      | HFileRw op \<Rightarrow> handle_file_rw op ev ts
      | HFileMeta op \<Rightarrow> handle_file_meta op ev ts
      | HNetwork op \<Rightarrow> handle_network op ev ts
      | HSignal \<Rightarrow> handle_signal ev ts
      | HIpcOpen \<Rightarrow> handle_ipc_open ev ts
      | HIpcSend \<Rightarrow> handle_ipc_send ev ts
      | HIpcRecv \<Rightarrow> handle_ipc_recv ev ts
      | HMqOpen \<Rightarrow> handle_mq_open ev ts
      | HMemfd \<Rightarrow> handle_memfd ev ts
      | HPtrace \<Rightarrow> handle_ptrace ev ts
      | HTransfer \<Rightarrow> handle_kernel_transfer (syscall_name (se_syscall ev)) ev ts
      | HIgnore \<Rightarrow> (\<lambda>c. c))"

definition dispatch :: "SyscallEvent \<Rightarrow> u64 \<Rightarrow> ContainerState \<Rightarrow> ContainerState" where
  "dispatch ev ts c =
     run_handler (handler_for (syscall_name (se_syscall ev))) ev ts (ensure_process ev c)"

end
