(* ===== verification/Handler_Laws.thy ===== *)
theory Handler_Laws
  imports Handlers
begin

text \<open>
  What every handler keeps. All handlers are built from a few primitive updates of the container
  state; the locale \<open>container_invariant\<close> names them as its laws and proves once that a predicate
  which the primitives keep is kept by \<open>dispatch\<close> and by every sequence of events. It is
  interpreted for the well-formedness of the process table, the taint graph, the action logs and
  the nodes, and for the facts that only grow or never change.
\<close>

section \<open>What the primitives touch\<close>

lemma action_for_fields [simp]:
  "process_table (action_for a f c) = process_table c" "taint_graph (action_for a f c) = taint_graph c"
  "baseline (action_for a f c) = baseline c" "last_receipt_time (action_for a f c) = last_receipt_time c"
  "file_nodes (action_for a f c) = file_nodes c" "current_action_id (action_for a f c) = current_action_id c"
  "fd_table (action_for a f c) = fd_table c" "ipc_nodes (action_for a f c) = ipc_nodes c"
  by (simp_all add: action_for_def Let_def)

lemma modify_process_fields [simp]:
  "process_table (modify_process pid g c) = hm_modify pid g (process_table c)"
  "taint_graph (modify_process pid g c) = taint_graph c" "baseline (modify_process pid g c) = baseline c"
  "current_action (modify_process pid g c) = current_action c"
  "completed_actions (modify_process pid g c) = completed_actions c"
  "file_nodes (modify_process pid g c) = file_nodes c"
  "current_action_id (modify_process pid g c) = current_action_id c"
  "fd_table (modify_process pid g c) = fd_table c" "ipc_nodes (modify_process pid g c) = ipc_nodes c"
  by (simp_all add: modify_process_def)

lemma set_fd_fields [simp]:
  "process_table (set_fd pid n t c) = process_table c" "taint_graph (set_fd pid n t c) = taint_graph c"
  "baseline (set_fd pid n t c) = baseline c" "current_action (set_fd pid n t c) = current_action c"
  "completed_actions (set_fd pid n t c) = completed_actions c" "file_nodes (set_fd pid n t c) = file_nodes c"
  "current_action_id (set_fd pid n t c) = current_action_id c" "ipc_nodes (set_fd pid n t c) = ipc_nodes c"
  "fd_table (set_fd pid n t c) = hm_insert (pid, n) t (fd_table c)"
  by (simp_all add: set_fd_def)

lemma record_file_access_fields [simp]:
  "process_table (record_file_access p pid op c) = process_table c"
  "taint_graph (record_file_access p pid op c) = taint_graph c"
  "baseline (record_file_access p pid op c) = baseline c"
  "current_action (record_file_access p pid op c) = current_action c"
  "completed_actions (record_file_access p pid op c) = completed_actions c"
  "current_action_id (record_file_access p pid op c) = current_action_id c"
  "fd_table (record_file_access p pid op c) = fd_table c" "ipc_nodes (record_file_access p pid op c) = ipc_nodes c"
  by (simp_all add: record_file_access_def Let_def)

lemma record_ipc_fields [simp]:
  "process_table (record_ipc_send ch pid c) = process_table c" "process_table (record_ipc_recv ch pid c) = process_table c"
  "taint_graph (record_ipc_send ch pid c) = taint_graph c" "taint_graph (record_ipc_recv ch pid c) = taint_graph c"
  "current_action (record_ipc_send ch pid c) = current_action c" "current_action (record_ipc_recv ch pid c) = current_action c"
  "completed_actions (record_ipc_send ch pid c) = completed_actions c"
  "completed_actions (record_ipc_recv ch pid c) = completed_actions c"
  "file_nodes (record_ipc_send ch pid c) = file_nodes c" "file_nodes (record_ipc_recv ch pid c) = file_nodes c"
  "current_action_id (record_ipc_send ch pid c) = current_action_id c"
  "current_action_id (record_ipc_recv ch pid c) = current_action_id c"
  "fd_table (record_ipc_send ch pid c) = fd_table c" "fd_table (record_ipc_recv ch pid c) = fd_table c"
  by (simp_all add: record_ipc_send_def record_ipc_recv_def)

lemma ensure_process_fields [simp]:
  "baseline (ensure_process ev c) = baseline c" "current_action (ensure_process ev c) = current_action c"
  "completed_actions (ensure_process ev c) = completed_actions c" "file_nodes (ensure_process ev c) = file_nodes c"
  "current_action_id (ensure_process ev c) = current_action_id c"
  "fd_table (ensure_process ev c) = fd_table c" "ipc_nodes (ensure_process ev c) = ipc_nodes c"
  by (simp_all add: ensure_process_def Let_def)

section \<open>The contract of the primitives\<close>

text \<open>The part of a process record that handlers never change.\<close>

definition process_core :: "ProcessInfo \<Rightarrow> u32 \<times> u32 \<times> rat \<times> string \<times> u32 list \<times> nat" where
  "process_core p =
     (pi_pid p, pi_ppid p, pi_taint_score p, pi_taint_source p, pi_children p, pi_attributed_action p)"

text \<open>The updates of a log that handlers make.\<close>

definition log_update :: "(ActionLog \<Rightarrow> ActionLog) \<Rightarrow> bool" where
  "log_update f \<longleftrightarrow> (\<exists>e. f = record_file e) \<or> (\<exists>e. f = record_net e) \<or> (\<exists>e. f = record_process e)"

lemma log_update_intros [simp]:
  "log_update (record_file fe)" "log_update (record_net ne)" "log_update (record_process pe)"
  by (auto simp: log_update_def)

locale container_invariant =
  fixes I :: "ContainerState \<Rightarrow> bool"
  assumes ensure: "I c \<Longrightarrow> I (ensure_process ev c)"
    and touch: "I c \<Longrightarrow> (\<And>p. process_core (f p) = process_core p) \<Longrightarrow> I (modify_process pid f c)"
    and log: "I c \<Longrightarrow> log_update g \<Longrightarrow> I (action_for a g c)"
    and access: "I c \<Longrightarrow> I (record_file_access path pid op c)"
    and send: "I c \<Longrightarrow> I (record_ipc_send ch pid c)"
    and recv: "I c \<Longrightarrow> I (record_ipc_recv ch pid c)"
    and node: "I c \<Longrightarrow> I (c\<lparr>ipc_nodes := hm_or_insert ch IpcNode_new (ipc_nodes c)\<rparr>)"
    and fd: "I c \<Longrightarrow> I (set_fd pid n target c)"
    and fd_drop: "I c \<Longrightarrow> I (c\<lparr>fd_table := hm_retain P (fd_table c)\<rparr>)"
begin

lemma process_op: "I c \<Longrightarrow> I (handle_process_op op ev ts c)"
  by (simp add: handle_process_op_def record_process_event_def log)

lemma file_ev: "I c \<Longrightarrow> I (record_file_event pid e c)"
  by (simp add: record_file_event_def log)

lemma exec: "I c \<Longrightarrow> I (handle_exec ev ts c)"
  by (simp add: handle_exec_def Let_def record_process_event_def file_ev log access touch process_core_def)

lemma exit: "I c \<Longrightarrow> I (handle_exit ev ts c)"
  unfolding handle_exit_def Let_def by (intro fd_drop touch process_op) (simp_all add: process_core_def)

lemma open_file: "I c \<Longrightarrow> I (handle_open ev ts c)"
  by (auto simp: handle_open_def Let_def file_ev access touch process_core_def fd split: SyscallDetail.split)

lemma file_meta: "I c \<Longrightarrow> I (handle_file_meta op ev ts c)"
  by (simp add: handle_file_meta_def Let_def file_ev access)

lemma network: "I c \<Longrightarrow> I (handle_network op ev ts c)"
  by (auto simp: handle_network_def Let_def record_net_event_def log touch process_core_def fd
      split: SyscallDetail.split)

lemma ipc_open: "I c \<Longrightarrow> I (handle_ipc_open ev ts c)"
  by (auto simp: handle_ipc_open_def Let_def process_op node split: SyscallDetail.split)

lemma mq_open: "I c \<Longrightarrow> I (handle_mq_open ev ts c)"
  by (auto simp: handle_mq_open_def ipc_open fd split: SyscallDetail.split)

lemma transfer: "I c \<Longrightarrow> I (handle_kernel_transfer name ev ts c)"
  by (auto simp: handle_kernel_transfer_def Let_def file_ev access split: option.split FdTarget.split prod.split)

lemma handler_keeps: "I c \<Longrightarrow> I (run_handler h ev ts c)"
  by (cases h)
    (simp_all add: run_handler_def process_op exec exit open_file file_meta network ipc_open mq_open transfer
      handle_fork_def handle_signal_def handle_memfd_def handle_ptrace_def handle_file_rw_def file_ev
      handle_ipc_send_def handle_ipc_recv_def Let_def send recv)

lemma dispatch_keeps: "I c \<Longrightarrow> I (dispatch ev ts c)"
  by (simp add: dispatch_def handler_keeps ensure)

lemma events_keep: "I c \<Longrightarrow> I (fold (\<lambda>(ev, ts). dispatch ev ts) evs c)"
  by (induction evs arbitrary: c) (auto simp: dispatch_keeps)

end

section \<open>The process table\<close>

definition process_ok :: "u32 \<Rightarrow> ProcessInfo \<Rightarrow> bool" where
  "process_ok pid p \<longleftrightarrow> pi_pid p = pid \<and> proper_score (pi_taint_score p) \<and> distinct (pi_children p)"

definition table_wf :: "ProcessTable \<Rightarrow> bool" where
  "table_wf t \<longleftrightarrow> hm_wf t \<and> (\<forall>pid p. hm_get t pid = Some p \<longrightarrow> process_ok pid p)"

definition processes_wf :: "ContainerState \<Rightarrow> bool" where
  "processes_wf c \<longleftrightarrow> table_wf (process_table c)"

lemma table_wf_scores: "table_wf t \<Longrightarrow> scores_wf t"
  by (simp add: table_wf_def scores_wf_def process_ok_def)

lemma process_ok_core: "process_core p = process_core q \<Longrightarrow> process_ok pid p = process_ok pid q"
  by (simp add: process_ok_def process_core_def)

lemma table_wf_modify:
  assumes "table_wf t" "\<And>p. hm_get t pid = Some p \<Longrightarrow> process_ok pid p \<Longrightarrow> process_ok pid (f p)"
  shows "table_wf (hm_modify pid f t)"
  using assms by (auto simp: table_wf_def hm_simps split: if_splits)

lemma pt_add_wf:
  assumes "table_wf t" "process_ok (pi_pid info) info"
  shows "table_wf (pt_add info t)"
proof -
  have "table_wf (hm_insert (pi_pid info) info t)"
    using assms by (auto simp: table_wf_def hm_simps)
  then show ?thesis unfolding pt_add_def by (rule table_wf_modify) (simp add: process_ok_def)
qed

lemma new_process_score:
  assumes "scores_wf (process_table c)"
  shows "proper_score (pi_taint_score (new_process c ev))"
  using fmul_proper [OF taint_score_proper [OF assms], of "se_ppid ev" Fork]
  by (simp add: new_process_def Let_def)

lemma new_process_fields [simp]:
  "pi_pid (new_process c ev) = se_pid ev" "pi_ppid (new_process c ev) = se_ppid ev"
  "pi_children (new_process c ev) = []" "pi_exited (new_process c ev) = False"
  by (simp_all add: new_process_def Let_def)

lemma refresh_core [simp]: "process_core (refresh_process ev p) = process_core p"
  by (simp add: refresh_process_def process_core_def Let_def)

lemma ensure_process_table:
  "process_table (ensure_process ev c) =
     (if hm_contains (process_table c) (se_pid ev) then hm_modify (se_pid ev) (refresh_process ev) (process_table c)
      else pt_add (new_process c ev) (process_table c))"
  by (simp add: ensure_process_def Let_def)

interpretation table: container_invariant processes_wf
proof (unfold_locales, goal_cases)
  case (1 c ev)
  then show ?case
    using new_process_score [OF table_wf_scores]
    by (auto simp: processes_wf_def ensure_process_table process_ok_def
        intro!: table_wf_modify pt_add_wf dest: process_ok_core [THEN iffD2, OF refresh_core, rotated])
next
  case (2 c f pid)
  then show ?case
    using process_ok_core [of "f p" p for p] by (auto simp: processes_wf_def intro!: table_wf_modify)
qed (simp_all add: processes_wf_def)

section \<open>The taint graph\<close>

definition edge_key :: "TaintEdge \<Rightarrow> u32 \<times> u32 \<times> ChannelType" where
  "edge_key e = (te_source_pid e, te_target_pid e, te_channel_type e)"

text \<open>The index is exact: it finds the edge of every key, and each key has one edge.\<close>

definition graph_wf :: "TaintGraph \<Rightarrow> bool" where
  "graph_wf g \<longleftrightarrow>
     (\<forall>k idx. hm_get (tg_edge_index g) k = Some idx \<longleftrightarrow> idx < length (tg_edges g) \<and> edge_key (tg_edges g ! idx) = k)"

lemma graph_wf_empty [simp]: "graph_wf graph_empty"
  by (simp add: graph_wf_def graph_empty_def)

lemma graph_wf_distinct: "graph_wf g \<Longrightarrow> distinct (map edge_key (tg_edges g))"
proof -
  assume w: "graph_wf g"
  have hit: "hm_get (tg_edge_index g) (edge_key (tg_edges g ! i)) = Some i" if "i < length (tg_edges g)" for i
    using w that unfolding graph_wf_def by (elim allE [of _ "edge_key (tg_edges g ! i)"] allE [of _ i]) simp
  have inj: "i = j" if "i < length (tg_edges g)" "j < length (tg_edges g)"
    "edge_key (tg_edges g ! i) = edge_key (tg_edges g ! j)" for i j
    using hit [OF that(1)] hit [OF that(2)] that(3) by (metis option.inject)
  show ?thesis unfolding distinct_conv_nth
  proof (intro allI impI)
    fix i j assume "i < length (map edge_key (tg_edges g))" "j < length (map edge_key (tg_edges g))" "i \<noteq> j"
    then show "map edge_key (tg_edges g) ! i \<noteq> map edge_key (tg_edges g) ! j"
      using inj [of i j] by auto
  qed
qed

lemma graph_wf_hit:
  "graph_wf g \<Longrightarrow> hm_get (tg_edge_index g) k = Some i \<Longrightarrow> i < length (tg_edges g) \<and> edge_key (tg_edges g ! i) = k"
  unfolding graph_wf_def by blast

lemma graph_wf_miss:
  "graph_wf g \<Longrightarrow> hm_get (tg_edge_index g) k = None \<Longrightarrow> i < length (tg_edges g) \<Longrightarrow> edge_key (tg_edges g ! i) \<noteq> k"
  unfolding graph_wf_def by (metis option.distinct(1))

definition fresh_edge :: "u32 \<Rightarrow> u32 \<Rightarrow> string \<Rightarrow> ChannelType \<Rightarrow> u64 \<Rightarrow> TaintEdge" where
  "fresh_edge a b ch ct ts =
     \<lparr>te_source_pid = a, te_target_pid = b, te_channel = ch, te_channel_type = ct, te_first_seen = ts,
      te_last_seen = ts, te_event_count = 1\<rparr>"

lemma add_edge_new:
  "hm_get (tg_edge_index g) (a, b, ct) = None \<Longrightarrow> add_edge a b ch ct ts g =
     g\<lparr>tg_edge_index := hm_insert (a, b, ct) (length (tg_edges g)) (tg_edge_index g),
       tg_edges := tg_edges g @ [fresh_edge a b ch ct ts]\<rparr>"
  by (simp add: add_edge_def Let_def fresh_edge_def)

lemma add_edge_hit:
  "hm_get (tg_edge_index g) (a, b, ct) = Some i \<Longrightarrow> i < length (tg_edges g) \<Longrightarrow> add_edge a b ch ct ts g =
     g\<lparr>tg_edges := (tg_edges g)[i := (tg_edges g ! i)
        \<lparr>te_last_seen := ts, te_event_count := te_event_count (tg_edges g ! i) + 1\<rparr>]\<rparr>"
  by (simp add: add_edge_def Let_def)

lemma edge_key_simps [simp]:
  "edge_key (e\<lparr>te_last_seen := ts, te_event_count := n\<rparr>) = edge_key e"
  "edge_key (fresh_edge a b ch ct ts) = (a, b, ct)"
  by (simp_all add: edge_key_def fresh_edge_def)

lemma edge_key_touch:
  "i < length es \<Longrightarrow>
    map edge_key (es[i := (es ! i)\<lparr>te_last_seen := ts, te_event_count := n\<rparr>]) = map edge_key es"
  by (simp add: map_update list_update_same_conv)

lemma add_edge_wf [simp]:
  assumes "graph_wf g"
  shows "graph_wf (add_edge a b ch ct ts g)"
proof (cases "hm_get (tg_edge_index g) (a, b, ct)")
  case None
  let ?es = "tg_edges g @ [fresh_edge a b ch ct ts]"
  have "hm_get (hm_insert (a, b, ct) (length (tg_edges g)) (tg_edge_index g)) k = Some i \<longleftrightarrow>
      i < length ?es \<and> edge_key (?es ! i) = k" for k i
  proof (cases "i < length (tg_edges g)")
    case True
    then have "hm_get (tg_edge_index g) k = Some i \<longleftrightarrow> edge_key (tg_edges g ! i) = k"
      using assms unfolding graph_wf_def by blast
    then show ?thesis using True None graph_wf_miss [OF assms None True] by (auto simp: hm_simps nth_append)
  next
    case False
    then have "hm_get (tg_edge_index g) k \<noteq> Some i" using graph_wf_hit [OF assms] by blast
    with False show ?thesis by (auto simp: hm_simps nth_append less_Suc_eq)
  qed
  then show ?thesis by (simp add: add_edge_new [OF None] graph_wf_def del: length_append)
next
  case (Some i)
  let ?es = "(tg_edges g)[i := (tg_edges g ! i)
        \<lparr>te_last_seen := ts, te_event_count := te_event_count (tg_edges g ! i) + 1\<rparr>]"
  have i: "i < length (tg_edges g)" using graph_wf_hit [OF assms Some] by simp
  have "edge_key (?es ! j) = edge_key (tg_edges g ! j)" if "j < length (tg_edges g)" for j
    using that by (cases "j = i") simp_all
  then have "j < length ?es \<and> edge_key (?es ! j) = k \<longleftrightarrow> j < length (tg_edges g) \<and> edge_key (tg_edges g ! j) = k"
    for j k by auto
  then show ?thesis using assms unfolding add_edge_hit [OF Some i] graph_wf_def by simp
qed

text \<open>The keys after an insertion: the old ones and the new one.\<close>

definition has_edge :: "TaintGraph \<Rightarrow> u32 \<Rightarrow> u32 \<Rightarrow> ChannelType \<Rightarrow> bool" where
  "has_edge g a b ct \<longleftrightarrow> (a, b, ct) \<in> edge_key ` set (tg_edges g)"

lemma add_edge_has:
  assumes "graph_wf g"
  shows "has_edge (add_edge a b ch ct ts g) a' b' ct' \<longleftrightarrow> (a', b', ct') = (a, b, ct) \<or> has_edge g a' b' ct'"
proof (cases "hm_get (tg_edge_index g) (a, b, ct)")
  case None
  then show ?thesis by (auto simp: add_edge_new has_edge_def)
next
  case (Some i)
  have i: "i < length (tg_edges g)" "edge_key (tg_edges g ! i) = (a, b, ct)"
    using graph_wf_hit [OF assms Some] by auto
  then have "(a, b, ct) \<in> edge_key ` set (tg_edges g)" by (metis image_eqI nth_mem)
  moreover have "edge_key ` set (tg_edges (add_edge a b ch ct ts g)) = edge_key ` set (tg_edges g)"
    using edge_key_touch [OF i(1), THEN arg_cong [of _ _ set]] unfolding add_edge_hit [OF Some i(1)] by simp
  ultimately show ?thesis by (auto simp: has_edge_def)
qed

definition edges_wf :: "ContainerState \<Rightarrow> bool" where
  "edges_wf c \<longleftrightarrow> graph_wf (taint_graph c)"

interpretation graph: container_invariant edges_wf
proof (unfold_locales, goal_cases)
  case (1 c ev)
  then show ?case by (simp add: edges_wf_def ensure_process_def Let_def)
qed (simp_all add: edges_wf_def)

section \<open>The action logs\<close>

definition all_actions :: "ContainerState \<Rightarrow> ActionLog list" where
  "all_actions c = completed_actions c @ (case current_action c of Some a \<Rightarrow> [a] | None \<Rightarrow> [])"

definition logs_wf :: "ContainerState \<Rightarrow> bool" where
  "logs_wf c \<longleftrightarrow> list_all action_wf (all_actions c)"

lemma update_first_absent: "\<not> list_ex P xs \<Longrightarrow> update_first P f xs = xs"
  by (induction xs) auto

lemma update_first_list_all: "list_all Q xs \<Longrightarrow> (\<And>x. Q x \<Longrightarrow> Q (f x)) \<Longrightarrow> list_all Q (update_first P f xs)"
  by (induction xs) auto

lemma map_update_first: "(\<And>x. g (f x) = g x) \<Longrightarrow> map g (update_first P f xs) = map g xs"
  by (induction xs) auto

lemma action_for_split:
  obtains (current) "action_for i f c = c\<lparr>current_action := map_option f (current_action c)\<rparr>"
  | (finished) "action_for i f c =
      c\<lparr>completed_actions := update_first (\<lambda>a. al_action_id a = i) f (completed_actions c)\<rparr>"
      "list_ex (\<lambda>a. al_action_id a = i) (completed_actions c)"
  by (cases "(case current_action c of Some a \<Rightarrow> al_action_id a = i | None \<Rightarrow> False)";
      cases "list_ex (\<lambda>a. al_action_id a = i) (completed_actions c)")
    (auto simp: action_for_def Let_def)

lemma log_update_wf: "log_update f \<Longrightarrow> action_wf a \<Longrightarrow> action_wf (f a)"
  by (auto simp: log_update_def)

interpretation logs: container_invariant logs_wf
proof (unfold_locales, goal_cases)
  case (3 c f i)
  show ?case
  proof (cases rule: action_for_split [of i f c])
    case current
    with 3 show ?thesis
      by (auto simp: logs_wf_def all_actions_def log_update_wf split: option.splits)
  next
    case finished
    with 3 show ?thesis
      using update_first_list_all [of action_wf "completed_actions c" f] log_update_wf
      by (auto simp: logs_wf_def all_actions_def)
  qed
next
  case (4 c path pid op)
  then show ?case by (simp add: logs_wf_def all_actions_def)
qed (simp_all add: logs_wf_def all_actions_def)

text \<open>Identity, command and window of an action: fixed while events are recorded.\<close>

definition action_frame :: "ActionLog \<Rightarrow> nat \<times> string \<times> u64 \<times> u64 option" where
  "action_frame a = (al_action_id a, al_command a, al_wall_start_ms a, al_wall_end_ms a)"

lemma log_update_frame: "log_update f \<Longrightarrow> action_frame (f a) = action_frame a"
  by (auto simp: log_update_def action_frame_def record_file_def record_net_def record_process_def Let_def)

definition frames :: "ContainerState \<Rightarrow> (nat \<times> string \<times> u64 \<times> u64 option) list \<times> _ option \<times> nat" where
  "frames c = (map action_frame (completed_actions c), map_option action_frame (current_action c), current_action_id c)"

interpretation frame: container_invariant "\<lambda>c. frames c = fr" for fr
proof (unfold_locales, goal_cases)
  case (3 c f i)
  show ?case
    by (cases rule: action_for_split [of i f c])
      (use 3 in \<open>auto simp: frames_def option.map_comp comp_def log_update_frame map_update_first\<close>)
qed (simp_all add: frames_def)

section \<open>The nodes\<close>

definition file_node_wf :: "FileNode \<Rightarrow> bool" where
  "file_node_wf n \<longleftrightarrow>
     distinct (fn_writers n) \<and> distinct (fn_readers n) \<and> distinct (fn_executors n) \<and>
     distinct (fn_deleters n) \<and> distinct (fn_modifiers n)"

definition nodes_wf :: "ContainerState \<Rightarrow> bool" where
  "nodes_wf c \<longleftrightarrow>
     hm_wf (file_nodes c) \<and>
     (\<forall>p n. hm_get (file_nodes c) p = Some n \<longrightarrow> file_node_wf n) \<and>
     hm_wf (ipc_nodes c) \<and>
     (\<forall>ch n. hm_get (ipc_nodes c) ch = Some n \<longrightarrow> distinct (in_senders n) \<and> distinct (in_receivers n))"

lemma file_access_wf: "file_node_wf n \<Longrightarrow> file_node_wf (file_access pid a op n)"
  by (cases op) (simp_all add: file_access_def file_node_wf_def Let_def)

lemma new_nodes_wf [simp]:
  "file_node_wf FileNode_new" "in_senders IpcNode_new = []" "in_receivers IpcNode_new = []"
  by (simp_all add: file_node_wf_def FileNode_new_def IpcNode_new_def)

lemma node_update:
  "hm_get (hm_modify k f (hm_or_insert k v m)) k' =
     (if k' = k then Some (f (case hm_get m k of None \<Rightarrow> v | Some w \<Rightarrow> w)) else hm_get m k')"
  by (simp add: hm_simps)

interpretation nodes: container_invariant nodes_wf
proof (unfold_locales, goal_cases)
  case (4 c path pid op)
  then show ?case
    by (auto simp: nodes_wf_def record_file_access_def Let_def node_update hm_wf_or_insert file_access_wf
        split: option.splits)
next
  case (5 c ch pid)
  then show ?case
    by (auto simp: nodes_wf_def record_ipc_send_def node_update hm_wf_or_insert split: option.splits)
next
  case (6 c ch pid)
  then show ?case
    by (auto simp: nodes_wf_def record_ipc_recv_def node_update hm_wf_or_insert split: option.splits)
next
  case (7 c ch)
  then show ?case
    by (auto simp: nodes_wf_def hm_simps hm_wf_or_insert split: option.splits)
qed (simp_all add: nodes_wf_def)

section \<open>Facts that stay\<close>

text \<open>Once a process is known, its identity, its score and its attribution are fixed.\<close>

definition known_as :: "u32 \<Rightarrow> u32 \<times> rat \<times> string \<times> nat \<Rightarrow> ContainerState \<Rightarrow> bool" where
  "known_as pid k c \<longleftrightarrow>
     map_option (\<lambda>p. (pi_ppid p, pi_taint_score p, pi_taint_source p, pi_attributed_action p))
       (hm_get (process_table c) pid) = Some k"

lemma pt_add_get:
  "hm_get (pt_add info t) pid =
     (if pid = pi_ppid info
      then map_option (\<lambda>p. p\<lparr>pi_children := push_unique (pi_pid info) (pi_children p)\<rparr>)
             (if pid = pi_pid info then Some info else hm_get t pid)
      else if pid = pi_pid info then Some info else hm_get t pid)"
  by (simp add: pt_add_def hm_simps)

interpretation known: container_invariant "known_as pid k" for pid k
proof (unfold_locales, goal_cases)
  case (1 c ev)
  then show ?case
    using refresh_core [of ev]
    by (auto simp: known_as_def ensure_process_table hm_simps pt_add_get hm_contains_def process_core_def
        option.map_comp comp_def)
next
  case (2 c f pid')
  then show ?case by (auto simp: known_as_def hm_simps process_core_def option.map_comp comp_def)
qed (simp_all add: known_as_def)

text \<open>What a node has recorded stays recorded.\<close>

definition pids :: "(u32 \<times> nat) list \<Rightarrow> u32 set" where
  "pids xs = fst ` set xs"

lemma pids_simps [simp]:
  "pids [] = {}" "pids (xs @ ys) = pids xs \<union> pids ys" "pids (push_unique (p, a) xs) = insert p (pids xs)"
  by (auto simp: pids_def)

lemma fst_set_pids: "fst ` set xs = pids xs"
  by (simp add: pids_def)

definition sent_on :: "string \<Rightarrow> u32 \<Rightarrow> ContainerState \<Rightarrow> bool" where
  "sent_on ch pid c \<longleftrightarrow> (\<exists>n. hm_get (ipc_nodes c) ch = Some n \<and> pid \<in> pids (in_senders n))"

definition received_on :: "string \<Rightarrow> u32 \<Rightarrow> ContainerState \<Rightarrow> bool" where
  "received_on ch pid c \<longleftrightarrow> (\<exists>n. hm_get (ipc_nodes c) ch = Some n \<and> pid \<in> pids (in_receivers n))"

definition wrote :: "string \<Rightarrow> u32 \<Rightarrow> ContainerState \<Rightarrow> bool" where
  "wrote path pid c \<longleftrightarrow> (\<exists>n. hm_get (file_nodes c) path = Some n \<and> pid \<in> pids (fn_writers n))"

definition read_or_ran :: "string \<Rightarrow> u32 \<Rightarrow> ContainerState \<Rightarrow> bool" where
  "read_or_ran path pid c \<longleftrightarrow>
     (\<exists>n. hm_get (file_nodes c) path = Some n \<and> pid \<in> pids (fn_readers n @ fn_executors n))"

lemma ipc_update_grows:
  "sent_on ch pid c \<Longrightarrow> sent_on ch pid (record_ipc_send ch' pid' c)"
  "sent_on ch pid c \<Longrightarrow> sent_on ch pid (record_ipc_recv ch' pid' c)"
  "received_on ch pid c \<Longrightarrow> received_on ch pid (record_ipc_send ch' pid' c)"
  "received_on ch pid c \<Longrightarrow> received_on ch pid (record_ipc_recv ch' pid' c)"
  by (auto simp: sent_on_def received_on_def record_ipc_send_def record_ipc_recv_def node_update
      split: option.splits)

interpretation sent: container_invariant "sent_on ch pid" for ch pid
proof (unfold_locales, goal_cases)
  case (7 c ch')
  then show ?case by (auto simp: sent_on_def hm_simps)
qed (simp_all add: ipc_update_grows, simp_all add: sent_on_def)

interpretation received: container_invariant "received_on ch pid" for ch pid
proof (unfold_locales, goal_cases)
  case (7 c ch')
  then show ?case by (auto simp: received_on_def hm_simps)
qed (simp_all add: ipc_update_grows, simp_all add: received_on_def)

lemma file_access_pids:
  "pids (fn_writers (file_access pid a op n)) =
     (if op \<in> {Write, OpenWrite} then insert pid (pids (fn_writers n)) else pids (fn_writers n))"
  "pids (fn_readers (file_access pid a op n)) =
     (if op \<in> {Read, Open} \<and> pid \<notin> pids (fn_writers n) then insert pid (pids (fn_readers n)) else pids (fn_readers n))"
  "pids (fn_executors (file_access pid a op n)) =
     (if op = Exec then insert pid (pids (fn_executors n)) else pids (fn_executors n))"
  by (cases op; simp add: file_access_def Let_def fst_set_pids)+

lemma file_update_grows:
  "wrote path pid c \<Longrightarrow> wrote path pid (record_file_access path' pid' op c)"
  "read_or_ran path pid c \<Longrightarrow> read_or_ran path pid (record_file_access path' pid' op c)"
  by (auto simp: wrote_def read_or_ran_def record_file_access_def Let_def node_update file_access_pids)

interpretation wrote: container_invariant "wrote path pid" for path pid
  by unfold_locales (simp_all add: file_update_grows, simp_all add: wrote_def)

interpretation read: container_invariant "read_or_ran path pid" for path pid
  by unfold_locales (simp_all add: file_update_grows, simp_all add: read_or_ran_def)

end
