(* ===== verification/Container_Correct.thy ===== *)
theory Container_Correct
  imports Handler_Laws
begin

text \<open>
  What a container's state is worth after any sequence of events: its invariant, how many events the
  logs hold, which flow edges the two edge builders add, and that a message or file that passes
  between two processes is found whatever happens between. The theorems combine the
  interpretations of theory \<open>Handler_Laws\<close>.
\<close>

section \<open>The invariant\<close>

definition container_wf :: "ContainerState \<Rightarrow> bool" where
  "container_wf c \<longleftrightarrow> processes_wf c \<and> edges_wf c \<and> logs_wf c \<and> nodes_wf c \<and> hm_wf (fd_table c)"

interpretation fds: container_invariant "\<lambda>c. hm_wf (fd_table c)"
  by unfold_locales (simp_all add: hm_wf_insert hm_wf_retain del: set_map)

definition handle_all :: "(SyscallEvent \<times> u64) list \<Rightarrow> ContainerState \<Rightarrow> ContainerState" where
  "handle_all evs c = fold (\<lambda>(ev, ts). dispatch ev ts) evs c"

lemma container_wf_new: "container_wf (ContainerState_new wall b)"
  by (simp add: container_wf_def ContainerState_new_def processes_wf_def table_wf_def edges_wf_def logs_wf_def
      all_actions_def nodes_wf_def)

lemma handle_all_wf: "container_wf c \<Longrightarrow> container_wf (handle_all evs c)"
  unfolding container_wf_def handle_all_def
  using table.events_keep graph.events_keep logs.events_keep nodes.events_keep fds.events_keep by blast


section \<open>Counting events\<close>

definition logged :: "ContainerState \<Rightarrow> nat" where
  "logged c = sum_list (map total_events (all_actions c))"

definition logging :: "ContainerState \<Rightarrow> bool" where
  "logging c \<longleftrightarrow> logs_wf c \<and> current_action c \<noteq> None"

text \<open>The number of log entries that the handler of an event makes.\<close>

definition log_entries :: "handler \<Rightarrow> SyscallEvent \<Rightarrow> ContainerState \<Rightarrow> nat" where
  "log_entries h ev c =
     (case h of
        HIgnore \<Rightarrow> 0
      | HExec \<Rightarrow> 2
      | HIpcOpen \<Rightarrow> (case se_detail ev of Ipc _ _ \<Rightarrow> 1 | _ \<Rightarrow> 0)
      | HMqOpen \<Rightarrow> (case se_detail ev of Ipc _ _ \<Rightarrow> 1 | _ \<Rightarrow> 0)
      | HIpcSend \<Rightarrow> (if resolve_ipc_channel c ev = [] then 0 else 1)
      | HIpcRecv \<Rightarrow> (if resolve_ipc_channel c ev = [] then 0 else 1)
      | _ \<Rightarrow> 1)"

lemma total_events_log: "log_update f \<Longrightarrow> action_wf a \<Longrightarrow> total_events (f a) = Suc (total_events a)"
  by (auto simp: log_update_def total_events_record)

lemma update_first_total:
  assumes "log_update f" "list_all action_wf xs" "list_ex P xs"
  shows "sum_list (map total_events (update_first P f xs)) = Suc (sum_list (map total_events xs))"
  using assms(2,3) by (induction xs) (auto simp: total_events_log [OF assms(1)])

lemma action_for_logs:
  assumes "log_update f" "logging c"
  shows "logging (action_for i f c) \<and> logged (action_for i f c) = Suc (logged c)"
proof
  have "current_action (action_for i f c) \<noteq> None"
    by (cases rule: action_for_split [of i f c]) (use assms(2) in \<open>auto simp: logging_def\<close>)
  then show "logging (action_for i f c)" using assms logs.log by (simp add: logging_def)
  show "logged (action_for i f c) = Suc (logged c)"
  proof (cases rule: action_for_split [of i f c])
    case current
    with assms show ?thesis
      by (auto simp: logging_def logs_wf_def logged_def all_actions_def total_events_log split: option.splits)
  next
    case finished
    with assms show ?thesis
      by (auto simp: logging_def logs_wf_def logged_def all_actions_def update_first_total)
  qed
qed

lemma logging_fields:
  "completed_actions c' = completed_actions c \<Longrightarrow> current_action c' = current_action c \<Longrightarrow>
    logging c' = logging c \<and> logged c' = logged c"
  by (simp add: logging_def logs_wf_def logged_def all_actions_def)

lemma unlogged [simp]:
  "logging (modify_process pid f c) = logging c" "logged (modify_process pid f c) = logged c"
  "logging (set_fd pid n t c) = logging c" "logged (set_fd pid n t c) = logged c"
  "logging (record_file_access p pid op c) = logging c" "logged (record_file_access p pid op c) = logged c"
  "logging (record_ipc_send ch pid c) = logging c" "logged (record_ipc_send ch pid c) = logged c"
  "logging (record_ipc_recv ch pid c) = logging c" "logged (record_ipc_recv ch pid c) = logged c"
  "logging (c\<lparr>ipc_nodes := ns\<rparr>) = logging c" "logged (c\<lparr>ipc_nodes := ns\<rparr>) = logged c"
  "logging (c\<lparr>fd_table := fds\<rparr>) = logging c" "logged (c\<lparr>fd_table := fds\<rparr>) = logged c"
  "logging (ensure_process ev c) = logging c" "logged (ensure_process ev c) = logged c"
  by (simp_all add: logging_def logs_wf_def logged_def all_actions_def)

lemma recorded [simp]:
  assumes "logging c"
  shows "logging (record_process_event pid pe c)" "logged (record_process_event pid pe c) = Suc (logged c)"
    "logging (record_file_event pid fe c)" "logged (record_file_event pid fe c) = Suc (logged c)"
    "logging (record_net_event pid ne c)" "logged (record_net_event pid ne c) = Suc (logged c)"
    "logging (handle_process_op op ev ts c)" "logged (handle_process_op op ev ts c) = Suc (logged c)"
  using action_for_logs [OF _ assms]
  by (simp_all add: record_process_event_def record_file_event_def record_net_event_def handle_process_op_def)

lemma handler_logs:
  assumes "logging c"
  shows "logged (run_handler h ev ts c) = logged c + log_entries h ev c"
proof (cases h)
  case HTransfer
  with assms show ?thesis
    by (auto simp: run_handler_def log_entries_def handle_kernel_transfer_def Let_def split: prod.split option.split FdTarget.split)
next
  case HOpen
  with assms show ?thesis
    by (auto simp: run_handler_def log_entries_def handle_open_def Let_def split: SyscallDetail.split)
next
  case (HNetwork op)
  with assms show ?thesis
    by (auto simp: run_handler_def log_entries_def handle_network_def Let_def split: SyscallDetail.split)
next
  case HIpcOpen
  with assms show ?thesis
    by (auto simp: run_handler_def log_entries_def handle_ipc_open_def Let_def split: SyscallDetail.split)
next
  case HMqOpen
  with assms show ?thesis
    by (auto simp: run_handler_def log_entries_def handle_mq_open_def handle_ipc_open_def Let_def split: SyscallDetail.split)
qed (use assms in \<open>simp_all add: run_handler_def log_entries_def handle_fork_def handle_exec_def handle_exit_def
    handle_file_rw_def handle_file_meta_def handle_signal_def handle_ipc_send_def handle_ipc_recv_def
    handle_memfd_def handle_ptrace_def Let_def\<close>)

text \<open>
  no event is lost and none is counted twice: as long as some action is current, an event adds to
  the logs of all actions together exactly the entries of its handler, one for most calls, two for
  an \<open>execve\<close> (the process and the file event), none for an ignored call and for a message call whose
  queue is unknown.
\<close>

theorem dispatch_logs_once:
  assumes "container_wf c" and "current_action c \<noteq> None"
  shows "logged (dispatch ev ts c) =
    logged c + log_entries (handler_for (syscall_name (se_syscall ev))) ev (ensure_process ev c)"
  using assms handler_logs [of "ensure_process ev c"]
  by (simp add: dispatch_def container_wf_def logging_def logs_wf_def all_actions_def)

section \<open>Flow edges\<close>

text \<open>A linking pass adds edges of one channel type between the pairs of a relation.\<close>

definition linking_ok :: "ChannelType \<Rightarrow> linking \<Rightarrow> bool" where
  "linking_ok ct st \<longleftrightarrow> graph_wf (snd st) \<and> (\<forall>(a, b) \<in> set (fst st). has_edge (snd st) a b ct)"

definition adds :: "ChannelType \<Rightarrow> (u32 \<Rightarrow> u32 \<Rightarrow> bool) \<Rightarrow> (linking \<Rightarrow> linking) \<Rightarrow> bool" where
  "adds ct Q f \<longleftrightarrow>
     (\<forall>st. linking_ok ct st \<longrightarrow> linking_ok ct (f st) \<and>
        (\<forall>x y t. has_edge (snd (f st)) x y t \<longleftrightarrow> has_edge (snd st) x y t \<or> t = ct \<and> Q x y))"

lemma addsD:
  assumes "adds ct Q f" "linking_ok ct st"
  shows "linking_ok ct (f st)"
    and "has_edge (snd (f st)) x y t \<longleftrightarrow> has_edge (snd st) x y t \<or> t = ct \<and> Q x y"
  using assms unfolding adds_def by blast+

lemma adds_cong: "adds ct Q f \<Longrightarrow> (\<And>x y. Q x y = R x y) \<Longrightarrow> adds ct R f"
  by (simp add: adds_def)

lemma adds_id [simp]: "adds ct (\<lambda>_ _. False) (\<lambda>st. st)"
  by (simp add: adds_def)

lemma adds_link: "adds ct (\<lambda>x y. x = a \<and> y = b \<and> a \<noteq> b \<and> \<not> skip b) (link ch ct skip a b)"
  unfolding adds_def
proof (intro allI impI)
  fix st assume ok: "linking_ok ct st"
  obtain seen g where st: "st = (seen, g)" by (cases st)
  note has = add_edge_has [of g a b ch ct 0]
  show "linking_ok ct (link ch ct skip a b st) \<and>
      (\<forall>x y t. has_edge (snd (link ch ct skip a b st)) x y t \<longleftrightarrow>
         has_edge (snd st) x y t \<or> t = ct \<and> x = a \<and> y = b \<and> a \<noteq> b \<and> \<not> skip b)"
    using ok by (auto simp: st link_def linking_ok_def has)
qed

lemma adds_comp:
  assumes "adds ct Q f" "adds ct R g"
  shows "adds ct (\<lambda>x y. Q x y \<or> R x y) (\<lambda>st. g (f st))"
  unfolding adds_def using addsD [OF assms(1)] addsD [OF assms(2)] by blast

lemma adds_fold:
  assumes "\<And>z. z \<in> set zs \<Longrightarrow> adds ct (Q z) (f z)"
  shows "adds ct (\<lambda>x y. \<exists>z \<in> set zs. Q z x y) (fold f zs)"
  using assms
proof (induction zs)
  case Nil
  then show ?case by (simp add: adds_def)
next
  case (Cons z zs)
  have "adds ct (\<lambda>x y. Q z x y \<or> (\<exists>z \<in> set zs. Q z x y)) (\<lambda>st. fold f zs (f z st))"
    by (rule adds_comp) (use Cons in simp_all)
  then show ?case by (simp add: comp_def)
qed

lemma adds_link_all:
  "adds ct (\<lambda>x y. x \<in> set as \<and> y \<in> set bs \<and> x \<noteq> y \<and> \<not> skip y) (link_all ch ct skip as bs)"
proof -
  have "adds ct (\<lambda>x y. \<exists>a \<in> set as. \<exists>b \<in> set bs. x = a \<and> y = b \<and> a \<noteq> b \<and> \<not> skip b) (link_all ch ct skip as bs)"
    unfolding link_all_def by (intro adds_fold adds_link)
  then show ?thesis by (rule adds_cong) auto
qed

lemma adds_ipc_links:
  assumes "hash_order_ok H"
  shows "adds MessageQueue (\<lambda>x y. x \<in> pids (in_senders n) \<and> y \<in> pids (in_receivers n) \<and> x \<noteq> y) (ipc_links H ch n)"
proof (cases "in_senders n = [] \<or> in_receivers n = []")
  case True
  then have "ipc_links H ch n = (\<lambda>st. st)" by (auto simp: ipc_links_def)
  with True show ?thesis by (auto simp: adds_def)
next
  case False
  then have "ipc_links H ch n = link_all (''ipc:'' @ ch) MessageQueue (\<lambda>_. False)
      (ord_pid H (map fst (in_senders n))) (ord_pid H (map fst (in_receivers n)))"
    by (auto simp: ipc_links_def)
  then show ?thesis using assms
    by (auto intro!: adds_cong [OF adds_link_all] simp: fst_set_pids)
qed

lemma adds_file_links:
  assumes "hash_order_ok H"
  shows "adds FileFlow (\<lambda>x y. \<not> noise_path path \<and> x \<in> pids (fn_writers n) \<and>
    y \<in> pids (fn_readers n @ fn_executors n) \<and> y \<notin> pids (fn_writers n)) (file_links H path n)"
proof (cases "noise_path path \<or> fn_writers n = [] \<or> (fn_readers n = [] \<and> fn_executors n = [])")
  case True
  then have "file_links H path n = (\<lambda>st. st)" by (auto simp: file_links_def)
  with True show ?thesis by (auto simp: adds_def)
next
  case False
  then have "file_links H path n = link_all (''file:'' @ path) FileFlow (\<lambda>b. b \<in> set (map fst (fn_writers n)))
      (ord_pid H (map fst (fn_writers n))) (ord_pid H (map fst (fn_readers n) @ map fst (fn_executors n)))"
    by (auto simp: file_links_def Let_def)
  then show ?thesis using assms False
    by (auto intro!: adds_cong [OF adds_link_all] simp: fst_set_pids image_Un)
qed

lemma adds_lookup:
  assumes "\<And>n. hm_get m k = Some n \<Longrightarrow> adds ct (Q n) (f n)"
  shows "adds ct (\<lambda>x y. \<exists>n. hm_get m k = Some n \<and> Q n x y)
    (\<lambda>st. case hm_get m k of Some n \<Rightarrow> f n st | None \<Rightarrow> st)"
  using assms by (cases "hm_get m k") (auto simp: adds_def)

lemma in_keys: "k \<in> set (hm_keys m) \<longleftrightarrow> (\<exists>n. hm_get m k = Some n)"
  by (metis hm_contains_def hm_contains_iff not_None_eq)

lemma ipc_edges:
  assumes "container_wf c" "hash_order_ok H"
  shows "container_wf (build_ipc_flow_edges H c) \<and>
    (has_edge (taint_graph (build_ipc_flow_edges H c)) a b ct \<longleftrightarrow>
       has_edge (taint_graph c) a b ct \<or>
       ct = MessageQueue \<and> a \<noteq> b \<and> (\<exists>ch. sent_on ch a c \<and> received_on ch b c))"
proof -
  let ?f = "\<lambda>channel st. case hm_get (ipc_nodes c) channel of Some node \<Rightarrow> ipc_links H channel node st | None \<Rightarrow> st"
  let ?zs = "ord_str H (hm_keys (ipc_nodes c))"
  have ad: "adds MessageQueue (\<lambda>x y. \<exists>ch \<in> set ?zs. \<exists>n. hm_get (ipc_nodes c) ch = Some n \<and>
      x \<in> pids (in_senders n) \<and> y \<in> pids (in_receivers n) \<and> x \<noteq> y) (fold ?f ?zs)"
    by (intro adds_fold adds_lookup adds_ipc_links [OF assms(2)])
  have ok: "linking_ok MessageQueue ([], taint_graph c)"
    using assms(1) by (simp add: linking_ok_def container_wf_def edges_wf_def)
  have "has_edge (taint_graph (build_ipc_flow_edges H c)) a b ct \<longleftrightarrow>
      has_edge (taint_graph c) a b ct \<or> ct = MessageQueue \<and> (\<exists>ch \<in> set ?zs. \<exists>n. hm_get (ipc_nodes c) ch = Some n \<and>
      a \<in> pids (in_senders n) \<and> b \<in> pids (in_receivers n) \<and> a \<noteq> b)"
    unfolding build_ipc_flow_edges_def using addsD(2) [OF ad ok] by simp
  moreover have "container_wf (build_ipc_flow_edges H c)"
    using addsD(1) [OF ad ok] assms(1)
    by (simp add: build_ipc_flow_edges_def container_wf_def processes_wf_def edges_wf_def logs_wf_def
        all_actions_def nodes_wf_def linking_ok_def)
  moreover have "set ?zs = {ch. \<exists>n. hm_get (ipc_nodes c) ch = Some n}"
    using assms(2) in_keys [of _ "ipc_nodes c"] by (simp only: hash_order_set) blast
  ultimately show ?thesis by (auto simp: sent_on_def received_on_def)
qed

text \<open>
  C7: the message edges are exactly the message flows: after \<open>build_ipc_flow_edges\<close> the graph has a
  MessageQueue edge between two different processes if it had one before or the first is recorded
  as a sender and the second as a receiver of some queue; edges of other kinds are as before. The
  order of the hash maps does not matter, and the graph stays well formed.
\<close>

theorem ipc_edges_exact:
  assumes "container_wf c" "hash_order_ok H"
  shows "container_wf (build_ipc_flow_edges H c) \<and>
    (has_edge (taint_graph (build_ipc_flow_edges H c)) a b ct \<longleftrightarrow>
       has_edge (taint_graph c) a b ct \<or>
       ct = MessageQueue \<and> a \<noteq> b \<and> (\<exists>ch. sent_on ch a c \<and> received_on ch b c))"
  using ipc_edges [OF assms] .

lemma file_edges:
  assumes "container_wf c" "hash_order_ok H"
  shows "container_wf (build_file_flow_edges H c) \<and>
    (has_edge (taint_graph (build_file_flow_edges H c)) a b ct \<longleftrightarrow>
       has_edge (taint_graph c) a b ct \<or>
       ct = FileFlow \<and> (\<exists>path. \<not> noise_path path \<and> wrote path a c \<and> read_or_ran path b c \<and> \<not> wrote path b c))"
proof -
  let ?f = "\<lambda>path st. case hm_get (file_nodes c) path of Some node \<Rightarrow> file_links H path node st | None \<Rightarrow> st"
  let ?zs = "ord_str H (hm_keys (file_nodes c))"
  have ad: "adds FileFlow (\<lambda>x y. \<exists>path \<in> set ?zs. \<exists>n. hm_get (file_nodes c) path = Some n \<and>
      (\<not> noise_path path \<and> x \<in> pids (fn_writers n) \<and>
       y \<in> pids (fn_readers n @ fn_executors n) \<and> y \<notin> pids (fn_writers n))) (fold ?f ?zs)"
    by (intro adds_fold adds_lookup adds_file_links [OF assms(2)])
  have ok: "linking_ok FileFlow ([], taint_graph c)"
    using assms(1) by (simp add: linking_ok_def container_wf_def edges_wf_def)
  have "has_edge (taint_graph (build_file_flow_edges H c)) a b ct \<longleftrightarrow>
      has_edge (taint_graph c) a b ct \<or> ct = FileFlow \<and> (\<exists>path \<in> set ?zs. \<exists>n. hm_get (file_nodes c) path = Some n \<and>
      (\<not> noise_path path \<and> a \<in> pids (fn_writers n) \<and>
       b \<in> pids (fn_readers n @ fn_executors n) \<and> b \<notin> pids (fn_writers n)))"
    unfolding build_file_flow_edges_def using addsD(2) [OF ad ok] by simp
  moreover have "container_wf (build_file_flow_edges H c)"
    using addsD(1) [OF ad ok] assms(1)
    by (simp add: build_file_flow_edges_def container_wf_def processes_wf_def edges_wf_def logs_wf_def
        all_actions_def nodes_wf_def linking_ok_def)
  moreover have "set ?zs = {path. \<exists>n. hm_get (file_nodes c) path = Some n}"
    using assms(2) in_keys [of _ "file_nodes c"] by (simp only: hash_order_set) blast
  ultimately show ?thesis by (auto simp: wrote_def read_or_ran_def)
qed


section \<open>Flows between events\<close>

lemma handle_all_keeps:
  "container_invariant I \<Longrightarrow> I c \<Longrightarrow> I (handle_all evs c)"
  unfolding handle_all_def by (rule container_invariant.events_keep)

text \<open>A fact that an event establishes and every event keeps holds after any sequence with the event.\<close>

lemma established:
  assumes "container_invariant I" "\<And>c. I (dispatch ev ts c)" "(ev, ts) \<in> set evs"
  shows "I (handle_all evs c)"
proof -
  obtain before after where "evs = before @ (ev, ts) # after" using split_list [OF assms(3)] by blast
  then have "handle_all evs c = handle_all after (dispatch ev ts (handle_all before c))"
    by (simp add: handle_all_def)
  then show ?thesis using handle_all_keeps [OF assms(1) assms(2)] by simp
qed

lemma sends:
  assumes "handler_for (syscall_name (se_syscall ev)) = HIpcSend" "se_detail ev = Ipc ch n" "ch \<noteq> []"
  shows "sent_on ch (se_pid ev) (dispatch ev ts c)"
proof -
  have "sent_on ch (se_pid ev) (record_ipc_send ch (se_pid ev) c)" for c
    using assms(3) by (auto simp: sent_on_def record_ipc_send_def node_update split: option.split)
  then show ?thesis
    using assms sent.process_op by (simp add: dispatch_def run_handler_def handle_ipc_send_def resolve_ipc_channel_def Let_def)
qed

lemma receives:
  assumes "handler_for (syscall_name (se_syscall ev)) = HIpcRecv" "se_detail ev = Ipc ch n" "ch \<noteq> []"
  shows "received_on ch (se_pid ev) (dispatch ev ts c)"
proof -
  have "received_on ch (se_pid ev) (record_ipc_recv ch (se_pid ev) c)" for c
    using assms(3) by (auto simp: received_on_def record_ipc_recv_def node_update split: option.split)
  then show ?thesis
    using assms received.process_op
    by (simp add: dispatch_def run_handler_def handle_ipc_recv_def resolve_ipc_channel_def Let_def)
qed


lemma opens_for_write:
  assumes "handler_for (syscall_name (se_syscall ev)) = HOpen" "se_detail ev = File p fl r"
    and "to_str_lossy p \<noteq> []" "and (ucast fl :: u32) write_flags \<noteq> 0"
  shows "wrote (canonicalize_path (to_str_lossy p)) (se_pid ev) (dispatch ev ts c)"
proof -
  have "wrote (canonicalize_path (to_str_lossy p)) (se_pid ev) (record_file_access (to_str_lossy p) (se_pid ev) OpenWrite c)"
    for c
    using assms(3) by (auto simp: wrote_def record_file_access_def Let_def node_update file_access_pids)
  then show ?thesis
    using assms wrote.file_ev wrote.touch wrote.fd
    by (simp add: dispatch_def run_handler_def handle_open_def Let_def process_core_def)
qed

lemma opens_for_read:
  assumes "handler_for (syscall_name (se_syscall ev)) = HOpen" "se_detail ev = File p fl r"
    and "to_str_lossy p \<noteq> []" "and (ucast fl :: u32) write_flags = 0"
  defines "path \<equiv> canonicalize_path (to_str_lossy p)"
  shows "wrote path (se_pid ev) (dispatch ev ts c) \<or> read_or_ran path (se_pid ev) (dispatch ev ts c)"
proof -
  let ?a = "\<lambda>c. record_file_access (to_str_lossy p) (se_pid ev) Open c"
  have a: "wrote path (se_pid ev) (?a c) \<or> read_or_ran path (se_pid ev) (?a c)" for c
    using assms(3)
    by (auto simp: wrote_def read_or_ran_def record_file_access_def Let_def node_update file_access_pids path_def)
  have "wrote path (se_pid ev) (handle_open ev ts c)" if "wrote path (se_pid ev) (?a c)" for c
    using that assms(2-4) wrote.file_ev wrote.touch wrote.fd by (simp add: handle_open_def Let_def process_core_def)
  moreover have "read_or_ran path (se_pid ev) (handle_open ev ts c)" if "read_or_ran path (se_pid ev) (?a c)" for c
    using that assms(2-4) read.file_ev read.touch read.fd by (simp add: handle_open_def Let_def process_core_def)
  ultimately show ?thesis using a assms(1) by (simp add: dispatch_def run_handler_def) blast
qed


section \<open>Processes\<close>

text \<open>
  Once a process is in the table no event changes who it is to the taint analysis: parent, score,
  source and attributed action stay as they were, whatever it or others do (only the propagation
  changes scores). In particular an event never re-attributes a process.
\<close>

theorem process_attribution_fixed:
  assumes "hm_get (process_table c) pid = Some p"
  shows "\<exists>p'. hm_get (process_table (handle_all evs c)) pid = Some p' \<and>
    pi_ppid p' = pi_ppid p \<and> pi_taint_score p' = pi_taint_score p \<and>
    pi_taint_source p' = pi_taint_source p \<and> pi_attributed_action p' = pi_attributed_action p"
proof -
  have "known_as pid (pi_ppid p, pi_taint_score p, pi_taint_source p, pi_attributed_action p) (handle_all evs c)"
    unfolding handle_all_def by (rule known.events_keep) (simp add: known_as_def assms)
  then show ?thesis by (auto simp: known_as_def)
qed

lemma dispatch_exit:
  assumes "syscall_name (se_syscall ev) = ''exit_group''"
  shows "dispatch ev ts c = handle_exit ev ts (ensure_process ev c)"
  by (simp add: dispatch_def assms handler_for_def run_handler_def)

lemma ensure_process_known: "\<exists>p. hm_get (process_table (ensure_process ev c)) (se_pid ev) = Some p"
proof (cases "hm_get (process_table c) (se_pid ev)")
  case None
  then show ?thesis by (simp add: ensure_process_table hm_contains_def pt_add_get)
next
  case (Some p)
  then show ?thesis by (simp add: ensure_process_table hm_contains_def hm_get_modify)
qed

lemma record_event_fd [simp]:
  "fd_table (handle_process_op op ev ts c) = fd_table c"
  by (simp add: handle_process_op_def record_process_event_def)

text \<open>
  An exit closes the descriptors of the process and of no other, and marks it as exited: the
  table has no entry of the process left that a later process with its pid could inherit.
\<close>

theorem exit_closes_descriptors:
  assumes "syscall_name (se_syscall ev) = ''exit_group''"
  shows "hm_get (fd_table (dispatch ev ts c)) (pid, fd) =
      (if pid = se_pid ev then None else hm_get (fd_table c) (pid, fd)) \<and>
    (\<exists>p. hm_get (process_table (dispatch ev ts c)) (se_pid ev) = Some p \<and> pi_exited p)"
proof
  let ?c = "handle_process_op POExit ev ts (ensure_process ev c)"
  let ?x = "\<lambda>info. info\<lparr>pi_exited := True\<rparr>"
  have t: "fd_table (dispatch ev ts c) = hm_retain (\<lambda>(p, _). p \<noteq> se_pid ev) (fd_table c)"
    "process_table (dispatch ev ts c) = hm_modify (se_pid ev) ?x (process_table (ensure_process ev c))"
    by (simp_all add: dispatch_exit [OF assms] handle_exit_def Let_def handle_process_op_def record_process_event_def)
  show "hm_get (fd_table (dispatch ev ts c)) (pid, fd) =
      (if pid = se_pid ev then None else hm_get (fd_table c) (pid, fd))"
    by (simp add: t hm_get_retain)
  obtain p where "hm_get (process_table (ensure_process ev c)) (se_pid ev) = Some p"
    using ensure_process_known by blast
  then show "\<exists>p. hm_get (process_table (dispatch ev ts c)) (se_pid ev) = Some p \<and> pi_exited p"
    by (simp add: t hm_get_modify)
qed

lemma record_events_fd [simp]:
  "fd_table (record_file_event pid fe c) = fd_table c" "fd_table (record_net_event pid ne c) = fd_table c"
  "fd_table (record_process_event pid pe c) = fd_table c" "fd_table (handle_process_op op ev ts c) = fd_table c"
  by (simp_all add: record_file_event_def record_net_event_def record_process_event_def handle_process_op_def)

lemma handler_keeps_fd:
  assumes "h \<noteq> HExit" "hm_get (fd_table c) k \<noteq> None"
  shows "hm_get (fd_table (run_handler h ev ts c)) k \<noteq> None"
proof (cases h)
  case HTransfer
  with assms show ?thesis
    by (auto simp: run_handler_def handle_kernel_transfer_def Let_def split: prod.split option.split FdTarget.split)
next
  case HOpen
  with assms show ?thesis
    by (auto simp: run_handler_def handle_open_def Let_def hm_get_insert split: SyscallDetail.split)
next
  case (HNetwork op)
  with assms show ?thesis
    by (auto simp: run_handler_def handle_network_def Let_def hm_get_insert split: SyscallDetail.split)
next
  case HIpcOpen
  with assms show ?thesis
    by (auto simp: run_handler_def handle_ipc_open_def Let_def split: SyscallDetail.split)
next
  case HMqOpen
  with assms show ?thesis
    by (auto simp: run_handler_def handle_mq_open_def handle_ipc_open_def Let_def hm_get_insert split: SyscallDetail.split)
qed (use assms in \<open>simp_all add: run_handler_def handle_fork_def handle_exec_def
    handle_file_rw_def handle_file_meta_def handle_signal_def handle_ipc_send_def handle_ipc_recv_def
    handle_memfd_def handle_ptrace_def Let_def\<close>)

definition audited :: "SyscallEvent \<Rightarrow> bool" where
  "audited ev \<longleftrightarrow> syscall_name (se_syscall ev) \<in> set AUDIT_SYSCALL_NAMES"

lemma audited_handlers:
  "list_all (\<lambda>name. handler_for name \<notin> {HIgnore, HExit, HFork, HSignal, HMemfd, HPtrace}) AUDIT_SYSCALL_NAMES"
  by (simp add: AUDIT_SYSCALL_NAMES_def handler_for_def)

text \<open>
  C40: every audited call has a handler, but no exit, fork, signal, \<open>memfd_create\<close> or \<open>ptrace\<close> call is
  audited: with the installed rules those handlers never run. In consequence no descriptor that
  was ever recorded is closed again, however many processes exit and however often their pids
  are used anew.
\<close>

theorem audited_events_never_close:
  assumes "\<forall>(ev, ts) \<in> set evs. audited ev"
  shows "(\<forall>(ev, ts) \<in> set evs. handler_for (syscall_name (se_syscall ev)) \<notin>
      {HIgnore, HExit, HFork, HSignal, HMemfd, HPtrace}) \<and>
    (hm_get (fd_table c) k \<noteq> None \<longrightarrow> hm_get (fd_table (handle_all evs c)) k \<noteq> None)"
proof -
  have h: "handler_for (syscall_name (se_syscall ev)) \<notin> {HIgnore, HExit, HFork, HSignal, HMemfd, HPtrace}"
    if "audited ev" for ev
    using that audited_handlers unfolding audited_def list_all_iff by blast
  have "hm_get (fd_table c) k \<noteq> None \<longrightarrow> hm_get (fd_table (handle_all evs c)) k \<noteq> None"
    using assms
  proof (induction evs arbitrary: c)
    case (Cons e evs)
    obtain ev ts where e: "e = (ev, ts)" by (cases e)
    have "handler_for (syscall_name (se_syscall ev)) \<noteq> HExit" using h [of ev] Cons.prems by (auto simp: e)
    then have "hm_get (fd_table c) k \<noteq> None \<longrightarrow> hm_get (fd_table (dispatch ev ts c)) k \<noteq> None"
      using handler_keeps_fd [of _ "ensure_process ev c"] by (simp add: dispatch_def)
    with Cons show ?case by (simp add: e handle_all_def)
  qed (simp add: handle_all_def)
  with h assms show ?thesis by fast
qed

section \<open>Concrete events\<close>

definition sample_event :: "u32 \<Rightarrow> u32 \<Rightarrow> SyscallDetail \<Rightarrow> SyscallEvent" where
  "sample_event nr pid detail =
     \<lparr>se_pid = pid, se_ppid = 1, se_syscall = nr, se_comm = CommBuf_new ''sh'', se_exe = ''/bin/sh'',
      se_container_id = ''c0ffee'', se_cmdline = ''sh'', se_detail = detail, se_timestamp_ms = 0,
      se_container_ips = []\<rparr>"

definition sample_container :: ContainerState where
  "sample_container = ContainerState_new 0 baseline_new"

lemma sample_fields [simp]:
  "se_pid (sample_event nr pid d) = pid" "se_syscall (sample_event nr pid d) = nr" "se_detail (sample_event nr pid d) = d"
  by (simp_all add: sample_event_def)

lemma sample_container_wf: "container_wf sample_container"
  by (simp add: sample_container_def container_wf_new)

lemma sample_calls:
  "handler_for (syscall_name 69) = HIpcSend" "handler_for (syscall_name 70) = HIpcRecv"
  "handler_for ''open'' = HOpen" "syscall_name 231 = ''exit_group''" "syscall_name 2 = ''open''"
  by code_simp+

definition sample_queue :: SyscallDetail where
  "sample_queue = Ipc ''sysv_mq:5'' 5"

theorem dispatch_logs_once_witness:
  "logged (dispatch (sample_event 231 7 ProcessDetail) 1 sample_container) = logged sample_container + 1"
proof -
  have "current_action sample_container \<noteq> None" by (simp add: sample_container_def ContainerState_new_def)
  moreover have "handler_for ''exit_group'' = HExit" by code_simp
  ultimately show ?thesis
    using dispatch_logs_once [OF sample_container_wf, of "sample_event 231 7 ProcessDetail" 1]
    by (simp add: sample_calls log_entries_def)
qed



theorem ipc_edges_exact_witness:
  "\<not> has_edge (taint_graph (build_ipc_flow_edges insertion_order sample_container)) 7 8 MessageQueue"
  using ipc_edges_exact [OF sample_container_wf insertion_order_ok, of 7 8 MessageQueue]
  by (simp add: sample_container_def ContainerState_new_def has_edge_def graph_empty_def sent_on_def)


theorem exit_closes_descriptors_witness:
  "hm_get (fd_table (dispatch (sample_event 231 7 ProcessDetail) 1
     (set_fd 7 3 (FdFile ''/tmp/x'') sample_container))) (7, 3) = None"
  using exit_closes_descriptors [of "sample_event 231 7 ProcessDetail" 1 _ 7 3] by (simp add: sample_calls)

theorem audited_events_never_close_witness:
  "hm_get (fd_table (handle_all [(sample_event 2 8 (File ''/tmp/out'' 0 4), 2)]
     (set_fd 7 3 (FdFile ''/tmp/x'') sample_container))) (7, 3) \<noteq> None"
  using audited_events_never_close [of "[(sample_event 2 8 (File ''/tmp/out'' 0 4), 2)]" _ "(7, 3)"]
  by (simp add: sample_calls audited_def AUDIT_SYSCALL_NAMES_def hm_get_insert)

theorem process_attribution_fixed_witness:
  "map_option pi_taint_score (hm_get (process_table (handle_all [(sample_event 2 8 (File ''/tmp/out'' 0 4), 2)]
     (ensure_process (sample_event 231 7 ProcessDetail) sample_container))) 7) = Some 0"
proof -
  obtain p where p: "hm_get (process_table (ensure_process (sample_event 231 7 ProcessDetail) sample_container)) 7 = Some p"
    using ensure_process_known [of "sample_event 231 7 ProcessDetail"] by auto
  moreover have "pi_taint_score p = 0"
    using p by (auto simp: ensure_process_table sample_container_def ContainerState_new_def hm_contains_def pt_add_get
        new_process_def Let_def split: if_splits)
  ultimately show ?thesis
    using process_attribution_fixed [OF p, of "[(sample_event 2 8 (File ''/tmp/out'' 0 4), 2)]"] by auto
qed

end
