(* ===== verification/Taint_Correct.thy ===== *)
theory Taint_Correct
  imports Taint
begin

text \<open>
  The correctness of the taint propagation of theory \<open>Taint\<close>: it returns, its result is a fixpoint,
  the least one, it reports exactly the processes that crossed the threshold, and it leaves alone
  what taint cannot reach. Each property is applied to a small graph with a cycle.
\<close>

section \<open>Properties\<close>

text \<open>A process record without the two fields that the propagation writes.\<close>

definition untainted_part :: "ProcessInfo \<Rightarrow> ProcessInfo" where
  "untainted_part p = p\<lparr>pi_taint_score := 0, pi_taint_source := []\<rparr>"

text \<open>The processes that taint can reach: the tainted ones and what edges lead to from them.\<close>

inductive taint_reach :: "TaintEdge list \<Rightarrow> ProcessTable \<Rightarrow> u32 \<Rightarrow> bool"
  for edges :: "TaintEdge list" and t :: ProcessTable
  where
    seed: "TAINT_THRESHOLD \<le> taint_score t pid \<Longrightarrow> taint_reach edges t pid"
  | flow: "taint_reach edges t (te_source_pid e) \<Longrightarrow> e \<in> set edges \<Longrightarrow> taint_reach edges t (te_target_pid e)"

inductive_simps taint_reach_iff: "taint_reach edges t pid"

lemma untainted_part_score [simp]:
  "untainted_part (p\<lparr>pi_taint_score := s, pi_taint_source := n\<rparr>) = untainted_part p"
  by (simp add: untainted_part_def)

lemma keptI:
  assumes "\<And>e n t. e \<in> set edges \<Longrightarrow> scores_wf t \<Longrightarrow> P n t \<Longrightarrow> raises t e \<Longrightarrow>
      taint_score t (te_target_pid e) < TAINT_THRESHOLD \<Longrightarrow>
      TAINT_THRESHOLD \<le> fmul (taint_score t (te_source_pid e)) (decay_factor (te_channel_type e)) \<Longrightarrow>
      P (n @ [te_target_pid e]) (raised e t)"
    and "\<And>e n t. e \<in> set edges \<Longrightarrow> scores_wf t \<Longrightarrow> P n t \<Longrightarrow> raises t e \<Longrightarrow>
      \<not> (taint_score t (te_target_pid e) < TAINT_THRESHOLD \<and>
         TAINT_THRESHOLD \<le> fmul (taint_score t (te_source_pid e)) (decay_factor (te_channel_type e))) \<Longrightarrow>
      P n (raised e t)"
  shows "kept_by edges P"
  using assms unfolding kept_by_def by (auto split: if_splits)

lemma kept_monotone:
  "kept_by edges (\<lambda>n u. hm_keys u = hm_keys t \<and>
     (\<forall>pid. taint_score t pid \<le> taint_score u pid \<and>
        map_option untainted_part (hm_get u pid) = map_option untainted_part (hm_get t pid)))"
proof -
  have step: "hm_keys (raised e u) = hm_keys t \<and>
     (\<forall>pid. taint_score t pid \<le> taint_score (raised e u) pid \<and>
        map_option untainted_part (hm_get (raised e u) pid) = map_option untainted_part (hm_get t pid))"
    if wf: "scores_wf u" and r: "raises u e" and k: "hm_keys u = hm_keys t"
      and m: "\<forall>pid. taint_score t pid \<le> taint_score u pid \<and>
        map_option untainted_part (hm_get u pid) = map_option untainted_part (hm_get t pid)" for e u
  proof (intro conjI allI)
    show "hm_keys (raised e u) = hm_keys t" using raised_keys [OF wf r] k by simp
    fix pid
    show "taint_score t pid \<le> taint_score (raised e u) pid"
      using m raises_strict [OF wf r] by (simp add: raised_score [OF wf r]) (metis le_less_trans less_imp_le)
    show "map_option untainted_part (hm_get (raised e u) pid) = map_option untainted_part (hm_get t pid)"
      using m [THEN spec, of pid] by (auto simp: raised_get [OF wf r] option.map_comp comp_def)
  qed
  show ?thesis by (rule keptI) (use step in blast)+
qed

lemma propagate_returns:
  assumes "scores_wf t"
  obtains newly t' where "propagate_taint edges t = Some (newly, t')" "scores_wf t'" "hm_keys t' = hm_keys t"
    "\<forall>pid. taint_score t pid \<le> taint_score t' pid \<and>
      map_option untainted_part (hm_get t' pid) = map_option untainted_part (hm_get t pid)"
proof -
  obtain newly t' where r: "propagate_taint edges t = Some (newly, t')"
    using loop_returns [OF assms, of edges] by (auto simp: propagate_taint_def)
  from loop_rule [OF r assms kept_monotone, of t] r show ?thesis by (intro that [of newly t']) simp_all
qed

text \<open>
  C13: the propagation returns for every edge list, cycles included, and every table of scores
  between 0 and 1; its result is a table of such scores, over the same processes.
\<close>

theorem propagate_terminates:
  assumes "scores_wf t"
  shows "\<exists>newly t'. propagate_taint edges t = Some (newly, t') \<and> scores_wf t' \<and> hm_keys t' = hm_keys t"
  by (rule propagate_returns [OF assms]) blast

lemma fixpoint_reached:
  assumes "scores_wf t" "propagate_taint edges t = Some (newly, t')"
  shows "(\<forall>pid. taint_score t pid \<le> taint_score t' pid \<and>
      map_option untainted_part (hm_get t' pid) = map_option untainted_part (hm_get t pid)) \<and>
    (\<forall>e \<in> set edges. TAINT_THRESHOLD \<le> taint_score t' (te_source_pid e) \<and> hm_contains t (te_target_pid e) \<longrightarrow>
      fmul (taint_score t' (te_source_pid e)) (decay_factor (te_channel_type e))
        \<le> fadd (taint_score t' (te_target_pid e)) taint_epsilon)"
proof -
  have r: "scores_wf t' \<and> (hm_keys t' = hm_keys t \<and>
     (\<forall>pid. taint_score t pid \<le> taint_score t' pid \<and>
        map_option untainted_part (hm_get t' pid) = map_option untainted_part (hm_get t pid))) \<and>
     (\<forall>e \<in> set edges. \<not> raises t' e)"
    by (rule loop_rule [OF assms(2,1) kept_monotone]) simp
  then have k: "hm_contains t' pid = hm_contains t pid" for pid by (simp only: hm_contains_iff)
  show ?thesis using r by (auto simp: raises_def k not_less)
qed


text \<open>
  C12: the result is a fixpoint above the start: no score is lowered, nothing but score and source
  of a process changes, and along every edge from a tainted process the known target has, up to
  the tolerance 1e-9 of the code, at least the source's score times the decay of the channel.
\<close>

theorem propagate_fixpoint:
  assumes "scores_wf t" "propagate_taint edges t = Some (newly, t')"
  shows "(\<forall>pid. taint_score t pid \<le> taint_score t' pid \<and>
      map_option untainted_part (hm_get t' pid) = map_option untainted_part (hm_get t pid)) \<and>
    (\<forall>e \<in> set edges. TAINT_THRESHOLD \<le> taint_score t' (te_source_pid e) \<and> hm_contains t (te_target_pid e) \<longrightarrow>
      fmul (taint_score t' (te_source_pid e)) (decay_factor (te_channel_type e))
        \<le> fadd (taint_score t' (te_target_pid e)) taint_epsilon)"
  by (rule fixpoint_reached [OF assms])
text \<open>
  C11: the result is the least one. Every assignment of scores that bounds the start and is closed
  under the decay along the edges bounds the result, so no process is tainted more than some
  chain of channels from a tainted process explains.
\<close>

theorem propagate_least:
  assumes "scores_wf t" "propagate_taint edges t = Some (newly, t')"
    and "\<forall>pid. taint_score t pid \<le> bound pid"
    and "\<forall>e \<in> set edges. TAINT_THRESHOLD \<le> bound (te_source_pid e) \<longrightarrow>
      fmul (bound (te_source_pid e)) (decay_factor (te_channel_type e)) \<le> bound (te_target_pid e)"
  shows "taint_score t' pid \<le> bound pid"
proof -
  have step: "\<forall>pid. taint_score (raised e u) pid \<le> bound pid"
    if e: "e \<in> set edges" and wf: "scores_wf u" and r: "raises u e" and b: "\<forall>pid. taint_score u pid \<le> bound pid" for e u
  proof -
    let ?s = "taint_score u (te_source_pid e)"
    have "0 \<le> ?s" using taint_score_proper [OF wf] by (simp add: proper_score_def)
    then have "fmul ?s (decay_factor (te_channel_type e)) \<le> fmul (bound (te_source_pid e)) (decay_factor (te_channel_type e))"
      using b decay_bounds by (intro fmul_mono) simp_all
    moreover have "TAINT_THRESHOLD \<le> bound (te_source_pid e)" using r b by (meson raises_def order_trans)
    ultimately show ?thesis using b assms(4) e by (auto simp: raised_score [OF wf r] intro: order_trans)
  qed
  have "kept_by edges (\<lambda>n u. \<forall>pid. taint_score u pid \<le> bound pid)"
    by (rule keptI) (use step in blast)+
  from loop_rule [OF assms(2,1) this assms(3)] show ?thesis by blast
qed

text \<open>
  The reported processes are, each once, exactly those whose score crossed the threshold.
\<close>

theorem propagate_newly_tainted:
  assumes "scores_wf t" "propagate_taint edges t = Some (newly, t')"
  shows "distinct newly \<and> set newly = {pid. taint_score t pid < TAINT_THRESHOLD \<and> TAINT_THRESHOLD \<le> taint_score t' pid}"
proof -
  let ?P = "\<lambda>n u. (\<forall>pid. taint_score t pid \<le> taint_score u pid) \<and> distinct n \<and>
    set n = {pid. taint_score t pid < TAINT_THRESHOLD \<and> TAINT_THRESHOLD \<le> taint_score u pid}"
  have mono: "\<forall>pid. taint_score t pid \<le> taint_score (raised e u) pid"
    if "scores_wf u" "raises u e" "\<forall>pid. taint_score t pid \<le> taint_score u pid" for e u
    using that(3) raises_strict [OF that(1,2)]
    by (simp add: raised_score [OF that(1,2)]) (metis le_less_trans less_imp_le)
  have "kept_by edges ?P"
  proof (rule keptI, goal_cases)
    case (1 e n u)
    then have "taint_score t (te_target_pid e) < TAINT_THRESHOLD" by (meson le_less_trans)
    with 1 mono show ?case by (auto simp: raised_score)
  next
    case (2 e n u)
    have "TAINT_THRESHOLD \<le> taint_score (raised e u) pid \<longleftrightarrow> TAINT_THRESHOLD \<le> taint_score u pid" for pid
      using 2 raises_strict [OF 2(2,4)] by (auto simp: raised_score [OF 2(2,4)])
    with 2 mono show ?case by simp
  qed
  from loop_rule [OF assms(2,1) this] show ?thesis by auto
qed

text \<open>
  A process that taint cannot reach through the edges keeps its whole record.
\<close>

theorem propagate_isolates:
  assumes "scores_wf t" "propagate_taint edges t = Some (newly, t')" "\<not> taint_reach edges t pid"
  shows "hm_get t' pid = hm_get t pid"
proof -
  let ?P = "\<lambda>n u. (\<forall>pid. \<not> taint_reach edges t pid \<longrightarrow> hm_get u pid = hm_get t pid)"
  have step: "\<forall>pid. \<not> taint_reach edges t pid \<longrightarrow> hm_get (raised e u) pid = hm_get t pid"
    if e: "e \<in> set edges" and wf: "scores_wf u" and r: "raises u e"
      and P: "\<forall>pid. \<not> taint_reach edges t pid \<longrightarrow> hm_get u pid = hm_get t pid" for e u
  proof -
    have "taint_reach edges t (te_source_pid e)"
    proof (rule ccontr)
      assume n: "\<not> taint_reach edges t (te_source_pid e)"
      then have "taint_score u (te_source_pid e) = taint_score t (te_source_pid e)"
        using P by (simp add: taint_score_def)
      with r n show False by (auto simp: raises_def intro: taint_reach.seed)
    qed
    then have "taint_reach edges t (te_target_pid e)" using e by (rule taint_reach.flow)
    with P show ?thesis by (auto simp: raised_get [OF wf r])
  qed
  have "kept_by edges ?P" by (rule keptI) (use step in blast)+
  from loop_rule [OF assms(2,1) this] assms(3) show ?thesis by blast
qed

section \<open>A concrete graph\<close>

definition sample_process :: "u32 \<Rightarrow> rat \<Rightarrow> ProcessInfo" where
  "sample_process pid score =
     \<lparr>pi_pid = pid, pi_ppid = 1, pi_comm = [], pi_exec_path = [], pi_cmdline = [], pi_open_files = [],
      pi_net_connections = [], pi_taint_score = score, pi_taint_source = [], pi_exited = False,
      pi_children = [], pi_attributed_action = 0\<rparr>"

definition sample_edge :: "u32 \<Rightarrow> u32 \<Rightarrow> ChannelType \<Rightarrow> TaintEdge" where
  "sample_edge a b ct =
     \<lparr>te_source_pid = a, te_target_pid = b, te_channel = [], te_channel_type = ct,
      te_first_seen = 0, te_last_seen = 0, te_event_count = 1\<rparr>"

text \<open>A cycle through a file and a queue, and a process beside it.\<close>

definition sample_table :: ProcessTable where
  "sample_table = [(1, sample_process 1 1), (2, sample_process 2 0), (3, sample_process 3 0)]"

definition sample_edges :: "TaintEdge list" where
  "sample_edges = [sample_edge 1 2 FileFlow, sample_edge 2 1 MessageQueue]"

lemma sample_wf: "scores_wf sample_table"
  by (auto simp: scores_wf_def sample_table_def sample_process_def)

definition sample_result :: "u32 list \<times> ProcessTable" where
  "sample_result = ([2], [(1, sample_process 1 1),
     (2, (sample_process 2 (1/2))\<lparr>pi_taint_source := ''file from pid 1 (score 1.00'' @ arrow @ ''0.50)''\<rparr>),
     (3, sample_process 3 0)])"

lemma sample_run: "propagate_taint sample_edges sample_table = Some ([2], snd sample_result)"
  by code_simp

theorem propagate_terminates_witness:
  "\<exists>newly t'. propagate_taint sample_edges sample_table = Some (newly, t') \<and> hm_keys t' = [1, 2, 3]"
  using propagate_terminates [OF sample_wf, of sample_edges] by (auto simp: sample_table_def)

lemma sample_scores:
  "taint_score (snd sample_result) pid = (if pid = 1 then 1 else if pid = 2 then 1/2 else 0)"
  by (simp add: sample_result_def sample_process_def taint_score_def)

theorem propagate_fixpoint_witness:
  "fmul 1 (decay_factor FileFlow) \<le> fadd (1/2) taint_epsilon"
proof -
  have "sample_edge 1 2 FileFlow \<in> set sample_edges" by (simp add: sample_edges_def)
  moreover have "TAINT_THRESHOLD \<le> 1" "hm_contains sample_table 2"
    by (code_simp, simp add: hm_contains_def sample_table_def)
  ultimately show ?thesis
    using propagate_fixpoint [OF sample_wf sample_run] by (fastforce simp: sample_scores sample_edge_def)
qed

theorem propagate_least_witness: "taint_score (snd sample_result) 2 \<le> 1"
  by (rule propagate_least [OF sample_wf sample_run, where bound = "\<lambda>_. 1"])
    (auto simp: sample_table_def sample_process_def taint_score_def intro: order_trans [OF fmul_le] decay_bounds)

theorem propagate_newly_tainted_witness:
  "{2} = {pid. taint_score sample_table pid < TAINT_THRESHOLD \<and> TAINT_THRESHOLD \<le> taint_score (snd sample_result) pid}"
  using propagate_newly_tainted [OF sample_wf sample_run] by simp

theorem propagate_isolates_witness: "hm_get (snd sample_result) 3 = hm_get sample_table 3"
proof -
  have "TAINT_THRESHOLD > 0" by code_simp
  then have "\<not> taint_reach sample_edges sample_table 3"
    by (subst taint_reach_iff) (auto simp: sample_edges_def sample_edge_def sample_table_def sample_process_def taint_score_def)
  then show ?thesis by (rule propagate_isolates [OF sample_wf sample_run])
qed

end
