(* ===== verification/Control.thy ===== *)
theory Control
  imports Container_Correct Taint_Correct
begin

text \<open>
  \<open>src/src/control.rs\<close>: the HTTP operations on the daemon's state. Each locks the state, so a handler
  is a function from the request, the clock readings and the state to the response and the new
  state. Of a receipt the model keeps what the code generates it from (the choice made by
  \<open>generate_receipt\<close> of \<open>src/src/receipt.rs\<close>); its text is in \<open>Receipt\<close>. The propagation of taint may
  in principle not return: those operations yield None then.
\<close>

datatype receipt =
    NoActionData nat
  | ReceiptOf ActionLog ContainerState "(ipv4, string) hashmap"

datatype response =
    Unknown string
  | Started nat
  | Ended nat receipt
  | Receipt receipt
  | NotFound nat
  | Removed bool
  | Created string
  | Added bool
  | Actions "(nat \<times> string \<times> nat) list" "(nat \<times> string \<times> nat) option"

definition generate_receipt :: "ContainerState \<Rightarrow> nat \<Rightarrow> (ipv4, string) hashmap \<Rightarrow> receipt" where
  "generate_receipt c action_id ip_map =
     (case current_action c of
        Some a \<Rightarrow> if al_action_id a = action_id then ReceiptOf a c ip_map else NoActionData action_id
      | None \<Rightarrow> NoActionData action_id)"

section \<open>Containers and actions\<close>

definition put_container :: "string \<Rightarrow> ContainerState \<Rightarrow> DaemonState \<Rightarrow> DaemonState" where
  "put_container i c d = d\<lparr>containers := hm_insert i c (containers d)\<rparr>"

definition delete_container :: "string \<Rightarrow> DaemonState \<Rightarrow> response \<times> DaemonState" where
  "delete_container i d =
     (Removed (hm_contains (containers d) i), d\<lparr>containers := hm_remove i (containers d)\<rparr>)"

definition start_action :: "u64 \<Rightarrow> u64 \<Rightarrow> string \<Rightarrow> ContainerState \<Rightarrow> ContainerState" where
  "start_action wall now command c =
     (let action_id = length (completed_actions c) + 1
      in c\<lparr>current_action := Some (ActionLog_new wall action_id command now), current_action_id := action_id\<rparr>)"

text \<open>\<open>wall0\<close> is the wall clock when the container is created, \<open>wall\<close> when the log is.\<close>

definition action_start :: "u64 \<Rightarrow> u64 \<Rightarrow> u64 \<Rightarrow> string \<Rightarrow> string \<Rightarrow> DaemonState \<Rightarrow> response \<times> DaemonState" where
  "action_start wall0 wall now i command d =
     (let d1 = ensure_container wall0 i d
      in case hm_get (containers d1) i of
           Some c \<Rightarrow> (Started (length (completed_actions c) + 1), put_container i (start_action wall now command c) d1)
         | None \<Rightarrow> (Unknown i, d1))"

definition propagate :: "ContainerState \<Rightarrow> ContainerState option" where
  "propagate c =
     map_option (\<lambda>(newly, t). c\<lparr>process_table := t\<rparr>) (propagate_taint (tg_edges (taint_graph c)) (process_table c))"

definition finish_action :: "u64 \<Rightarrow> u64 \<Rightarrow> ContainerState \<Rightarrow> ContainerState" where
  "finish_action now wall c =
     (case current_action c of
        Some action \<Rightarrow>
          c\<lparr>current_action := None,
            completed_actions := completed_actions c @
              [action\<lparr>al_end_time := Some now, al_wall_end_ms := Some wall\<rparr>],
            last_receipt_time := now\<rparr>
      | None \<Rightarrow> c\<lparr>last_receipt_time := now\<rparr>)"

definition action_end ::
  "hash_order \<Rightarrow> u64 \<Rightarrow> u64 \<Rightarrow> string \<Rightarrow> nat \<Rightarrow> DaemonState \<Rightarrow> (response \<times> DaemonState) option" where
  "action_end H now wall i action_id d =
     (case hm_get (containers d) i of
        None \<Rightarrow> Some (Unknown i, d)
      | Some c \<Rightarrow>
          map_option (\<lambda>c1.
            let c2 = finish_action now wall c1
            in (Ended action_id (generate_receipt c2 action_id (ip_to_container d)), put_container i c2 d))
          (propagate (build_ipc_flow_edges H (build_file_flow_edges H c))))"

definition action_summary :: "ActionLog \<Rightarrow> nat \<times> string \<times> nat" where
  "action_summary a = (al_action_id a, al_command a, total_events a)"

definition list_actions :: "string \<Rightarrow> DaemonState \<Rightarrow> response" where
  "list_actions i d =
     (case hm_get (containers d) i of
        None \<Rightarrow> Unknown i
      | Some c \<Rightarrow> Actions (map action_summary (completed_actions c)) (map_option action_summary (current_action c)))"

definition action_receipt :: "string \<Rightarrow> nat \<Rightarrow> DaemonState \<Rightarrow> response" where
  "action_receipt i action_id d =
     (case hm_get (containers d) i of
        None \<Rightarrow> Unknown i
      | Some c \<Rightarrow>
          (case find (\<lambda>a. al_action_id a = action_id) (completed_actions c) of
             Some a \<Rightarrow> Ended action_id (ReceiptOf a c (ip_to_container d))
           | None \<Rightarrow> NotFound action_id))"

definition snapshot_receipt ::
  "hash_order \<Rightarrow> string \<Rightarrow> DaemonState \<Rightarrow> (response \<times> DaemonState) option" where
  "snapshot_receipt H i d =
     (case hm_get (containers d) i of
        None \<Rightarrow> Some (Unknown i, d)
      | Some c \<Rightarrow>
          map_option (\<lambda>c1.
            let action_id = (case current_action c1 of Some a \<Rightarrow> al_action_id a | None \<Rightarrow> 0)
            in (Receipt (generate_receipt c1 action_id (ip_to_container d)), put_container i c1 d))
          (propagate (build_file_flow_edges H c)))"

section \<open>Experiments\<close>

definition post_experiment :: "string \<Rightarrow> DaemonState \<Rightarrow> response \<times> DaemonState" where
  "post_experiment name d = (let (i, d') = create_experiment name d in (Created i, d'))"

definition register_ips :: "string \<Rightarrow> string list \<Rightarrow> DaemonState \<Rightarrow> DaemonState" where
  "register_ips container_id ips d =
     fold (\<lambda>ip_str d.
       case parse_ipv4 ip_str of
         Some ip \<Rightarrow> d\<lparr>ip_to_container := hm_insert ip container_id (ip_to_container d)\<rparr>
       | None \<Rightarrow> d) ips d"

definition add_experiment_container ::
  "string \<Rightarrow> string \<Rightarrow> string list \<Rightarrow> DaemonState \<Rightarrow> response \<times> DaemonState" where
  "add_experiment_container i container_id ips d =
     (let (ok, d1) = add_container_to_experiment i container_id d
      in if ok then (Added True, register_ips container_id ips d1) else (Added False, d1))"

section \<open>Requests\<close>

text \<open>The requests that change the state, with their clock readings.\<close>

datatype request =
    DeleteContainer string
  | ActionStart u64 u64 u64 string string
  | ActionEnd u64 u64 string nat
  | SnapshotReceipt string
  | CreateExperiment string
  | AddContainer string string "string list"

definition serve :: "hash_order \<Rightarrow> request \<Rightarrow> DaemonState \<Rightarrow> (response \<times> DaemonState) option" where
  "serve H r d =
     (case r of
        DeleteContainer i \<Rightarrow> Some (delete_container i d)
      | ActionStart wall0 wall now i command \<Rightarrow> Some (action_start wall0 wall now i command d)
      | ActionEnd now wall i action_id \<Rightarrow> action_end H now wall i action_id d
      | SnapshotReceipt i \<Rightarrow> snapshot_receipt H i d
      | CreateExperiment name \<Rightarrow> Some (post_experiment name d)
      | AddContainer i container_id ips \<Rightarrow> Some (add_experiment_container i container_id ips d))"

section \<open>Invariants\<close>

text \<open>The numbering of the actions: the n-th completed one has number n, except that the first may be
  the lifecycle action, number 0; the current one has the next number.\<close>

definition numbered :: "ContainerState \<Rightarrow> bool" where
  "numbered c \<longleftrightarrow>
     (\<forall>n < length (all_actions c). al_action_id (all_actions c ! n) = n + 1 \<or>
        n = 0 \<and> al_action_id (all_actions c ! n) = 0)"

definition daemon_wf :: "DaemonState \<Rightarrow> bool" where
  "daemon_wf d \<longleftrightarrow> hm_wf (containers d) \<and>
     (\<forall>i c. hm_get (containers d) i = Some c \<longrightarrow> container_wf c \<and> numbered c)"

end
