(* ===== verification/Control_Correct.thy ===== *)
theory Control_Correct
  imports Control
begin

text \<open>
  The correctness of the HTTP operations: every request is answered and keeps the daemon's state well
  formed, the actions of a container are numbered without clash, what \<open>action_end\<close> and the
  receipt endpoints answer, and that ending an action brings the taint along the flows.
\<close>

section \<open>Containers\<close>

lemma container_wf_table:
  assumes "container_wf c" "scores_wf t" "hm_keys t = hm_keys (process_table c)"
    and "\<forall>pid. taint_score (process_table c) pid \<le> taint_score t pid \<and>
      map_option untainted_part (hm_get t pid) = map_option untainted_part (hm_get (process_table c) pid)"
  shows "container_wf (c\<lparr>process_table := t\<rparr>)"
proof -
  have "process_ok pid p" if g: "hm_get t pid = Some p" for pid p
  proof -
    obtain q where q: "hm_get (process_table c) pid = Some q" "untainted_part p = untainted_part q"
      using assms(4) [THEN spec, of pid] g by (cases "hm_get (process_table c) pid") simp_all
    then have "pi_pid p = pi_pid q" "pi_children p = pi_children q"
      by (metis ProcessInfo.ext_inject ProcessInfo.surjective ProcessInfo.update_convs(8,9) untainted_part_def)+
    moreover have "process_ok pid q"
      using q assms(1) by (simp add: container_wf_def processes_wf_def table_wf_def)
    ultimately show ?thesis using assms(2) g by (auto simp: process_ok_def scores_wf_def)
  qed
  then show ?thesis
    using assms(1,3)
    by (simp add: container_wf_def processes_wf_def table_wf_def edges_wf_def logs_wf_def all_actions_def nodes_wf_def)
qed

lemma propagate_container:
  assumes "container_wf c"
  obtains newly t where "propagate_taint (tg_edges (taint_graph c)) (process_table c) = Some (newly, t)"
    "propagate c = Some (c\<lparr>process_table := t\<rparr>)" "container_wf (c\<lparr>process_table := t\<rparr>)"
proof -
  have "scores_wf (process_table c)"
    using assms by (simp add: container_wf_def processes_wf_def table_wf_scores)
  then obtain newly t where t: "propagate_taint (tg_edges (taint_graph c)) (process_table c) = Some (newly, t)"
    "scores_wf t" "hm_keys t = hm_keys (process_table c)"
    "\<forall>pid. taint_score (process_table c) pid \<le> taint_score t pid \<and>
      map_option untainted_part (hm_get t pid) = map_option untainted_part (hm_get (process_table c) pid)"
    by (rule propagate_returns)
  show ?thesis
    by (rule that [OF t(1)]) (simp_all add: propagate_def t(1) container_wf_table [OF assms t(2-4)])
qed

section \<open>The numbers of the actions\<close>

definition action_ids :: "ContainerState \<Rightarrow> nat list" where
  "action_ids c = map al_action_id (all_actions c)"

definition numbers :: "nat list \<Rightarrow> bool" where
  "numbers ids \<longleftrightarrow> (\<forall>n < length ids. ids ! n = n + 1 \<or> n = 0 \<and> ids ! n = 0)"

lemma numbered_ids: "numbered c = numbers (action_ids c)"
  by (simp add: numbered_def numbers_def action_ids_def)

lemma numbers_snoc: "numbers (ids @ [k]) \<longleftrightarrow> numbers ids \<and> (k = length ids + 1 \<or> ids = [] \<and> k = 0)"
  by (auto simp: numbers_def nth_append less_Suc_eq)

lemma numbers_distinct:
  assumes "numbers ids"
  shows "distinct ids"
proof -
  have "i = j" if "i < length ids" "j < length ids" "ids ! i = ids ! j" for i j
    using assms [unfolded numbers_def, rule_format, OF that(1)] assms [unfolded numbers_def, rule_format, OF that(2)] that(3)
    by auto
  then show ?thesis by (auto simp: distinct_conv_nth)
qed

lemma action_ids_frames: "frames c' = frames c \<Longrightarrow> action_ids c' = action_ids c"
proof -
  have *: "action_ids c = map fst (fst (frames c)) @ (case fst (snd (frames c)) of Some f \<Rightarrow> [fst f] | None \<Rightarrow> [])" for c
    by (simp add: action_ids_def frames_def all_actions_def action_frame_def comp_def split: option.split)
  show "frames c' = frames c \<Longrightarrow> ?thesis" by (simp add: * [of c] * [of c'])
qed

lemma handle_all_frames: "frames (handle_all evs c) = frames c"
  unfolding handle_all_def by (rule frame.events_keep) simp

lemma handle_all_numbered: "numbered (handle_all evs c) = numbered c"
  by (simp add: numbered_ids action_ids_frames [OF handle_all_frames])

lemma numbered_new: "numbered (ContainerState_new wall b)"
  by (simp add: numbered_def ContainerState_new_def all_actions_def ActionLog_new_def)

lemma start_action_ids: "action_ids (start_action wall now command c) =
    map al_action_id (completed_actions c) @ [length (completed_actions c) + 1]"
  by (simp add: action_ids_def start_action_def all_actions_def ActionLog_new_def Let_def)

lemma finish_action_ids: "action_ids (finish_action now wall c) = action_ids c"
  by (simp add: action_ids_def finish_action_def all_actions_def split: option.split)

lemma numbered_start: "numbered c \<Longrightarrow> numbered (start_action wall now command c)"
proof -
  have "numbers ids \<Longrightarrow> numbers (take n ids)" for ids n by (simp add: numbers_def)
  from this [of "action_ids c" "length (completed_actions c)"]
  show "numbered c \<Longrightarrow> numbered (start_action wall now command c)"
    unfolding numbered_ids start_action_ids by (simp add: numbers_snoc action_ids_def all_actions_def)
qed

lemma action_wf_finish [simp]: "action_wf (a\<lparr>al_end_time := e, al_wall_end_ms := w\<rparr>) = action_wf a"
  by (simp add: action_wf_def)

lemma container_wf_start: "container_wf c \<Longrightarrow> container_wf (start_action wall now command c)"
  by (simp add: container_wf_def start_action_def Let_def processes_wf_def edges_wf_def logs_wf_def
      all_actions_def nodes_wf_def)

lemma container_wf_finish: "container_wf c \<Longrightarrow> container_wf (finish_action now wall c)"
  by (cases "current_action c") (simp_all add: container_wf_def finish_action_def processes_wf_def edges_wf_def
      logs_wf_def all_actions_def nodes_wf_def action_wf_finish)

lemma flow_edges_fields [simp]:
  "process_table (build_ipc_flow_edges H c) = process_table c" "process_table (build_file_flow_edges H c) = process_table c"
  "current_action (build_ipc_flow_edges H c) = current_action c"
  "current_action (build_file_flow_edges H c) = current_action c"
  "completed_actions (build_ipc_flow_edges H c) = completed_actions c"
  "completed_actions (build_file_flow_edges H c) = completed_actions c"
  "ipc_nodes (build_file_flow_edges H c) = ipc_nodes c" "file_nodes (build_ipc_flow_edges H c) = file_nodes c"
  by (simp_all add: build_ipc_flow_edges_def build_file_flow_edges_def)

section \<open>The daemon's state\<close>

lemma daemon_wf_put:
  "daemon_wf d \<Longrightarrow> container_wf c \<Longrightarrow> numbered c \<Longrightarrow> daemon_wf (put_container i c d)"
  by (auto simp: daemon_wf_def put_container_def hm_simps hm_wf_insert simp del: set_map)

lemma daemon_wf_new [simp]: "daemon_wf DaemonState_new"
  by (simp add: daemon_wf_def DaemonState_new_def)

lemma daemon_wf_fields:
  "daemon_wf d \<Longrightarrow> containers d' = containers d \<Longrightarrow> daemon_wf d'"
  by (simp add: daemon_wf_def)

lemma daemon_wf_ensure: "daemon_wf d \<Longrightarrow> daemon_wf (ensure_container wall i d)"
  using daemon_wf_put [of d "ContainerState_new wall baseline_new" i] container_wf_new numbered_new
  by (simp add: ensure_container_def put_container_def)

lemma daemon_wf_get: "daemon_wf d \<Longrightarrow> hm_get (containers d) i = Some c \<Longrightarrow> container_wf c \<and> numbered c"
  by (simp add: daemon_wf_def)

lemma register_ips_containers [simp]: "containers (register_ips cid ips d) = containers d"
  unfolding register_ips_def by (induction ips arbitrary: d) (auto split: option.split)

lemma flows_ready:
  assumes "container_wf c" "hash_order_ok H"
  shows "container_wf (build_file_flow_edges H c)"
    "container_wf (build_ipc_flow_edges H (build_file_flow_edges H c))"
  using ipc_edges [OF _ assms(2)] file_edges [OF assms] by blast+

text \<open>What ending an action does to the container, and that it returns.\<close>

lemma action_end_container:
  assumes "container_wf c" "hash_order_ok H" "hm_get (containers d) i = Some c"
  obtains newly t where
    "propagate_taint (tg_edges (taint_graph (build_ipc_flow_edges H (build_file_flow_edges H c)))) (process_table c)
       = Some (newly, t)"
    "action_end H now wall i k d = Some (Ended k (NoActionData k), put_container i
       (finish_action now wall ((build_ipc_flow_edges H (build_file_flow_edges H c))\<lparr>process_table := t\<rparr>)) d)"
    "container_wf ((build_ipc_flow_edges H (build_file_flow_edges H c))\<lparr>process_table := t\<rparr>)"
proof -
  obtain newly t where t: "propagate_taint (tg_edges (taint_graph (build_ipc_flow_edges H (build_file_flow_edges H c))))
      (process_table (build_ipc_flow_edges H (build_file_flow_edges H c))) = Some (newly, t)"
    "propagate (build_ipc_flow_edges H (build_file_flow_edges H c)) =
      Some ((build_ipc_flow_edges H (build_file_flow_edges H c))\<lparr>process_table := t\<rparr>)"
    "container_wf ((build_ipc_flow_edges H (build_file_flow_edges H c))\<lparr>process_table := t\<rparr>)"
    by (rule propagate_container [OF flows_ready(2) [OF assms(1,2)]])
  have "current_action (finish_action now wall x) = None" for x
    by (simp add: finish_action_def split: option.split)
  with t assms(3) show ?thesis
    by (intro that [of newly t]) (simp_all add: action_end_def generate_receipt_def Let_def)
qed

lemma serve_returns:
  assumes "daemon_wf d" "hash_order_ok H"
  shows "\<exists>resp d'. serve H r d = Some (resp, d') \<and> daemon_wf d'"
proof (cases r)
  case (DeleteContainer i)
  then show ?thesis
    using assms(1) by (auto simp: serve_def delete_container_def daemon_wf_def hm_simps hm_wf_remove simp del: set_map)
next
  case (ActionStart wall0 wall now i command)
  have "daemon_wf (ensure_container wall0 i d)" by (rule daemon_wf_ensure [OF assms(1)])
  then show ?thesis
    using daemon_wf_get [of "ensure_container wall0 i d" i]
    by (auto simp: ActionStart serve_def action_start_def Let_def daemon_wf_put container_wf_start numbered_start
        split: option.split)
next
  case (ActionEnd now wall i k)
  show ?thesis
  proof (cases "hm_get (containers d) i")
    case None
    then show ?thesis using assms(1) by (simp add: ActionEnd serve_def action_end_def)
  next
    case (Some c)
    then have c: "container_wf c" "numbered c" using daemon_wf_get [OF assms(1)] by blast+
    obtain newly t where t: "action_end H now wall i k d = Some (Ended k (NoActionData k), put_container i
       (finish_action now wall ((build_ipc_flow_edges H (build_file_flow_edges H c))\<lparr>process_table := t\<rparr>)) d)"
      "container_wf ((build_ipc_flow_edges H (build_file_flow_edges H c))\<lparr>process_table := t\<rparr>)"
      by (rule action_end_container [OF c(1) assms(2) Some])
    have "numbered (finish_action now wall ((build_ipc_flow_edges H (build_file_flow_edges H c))\<lparr>process_table := t\<rparr>))"
      using c(2) by (simp add: numbered_ids finish_action_ids) (simp add: action_ids_def all_actions_def)
    with t show ?thesis
      using daemon_wf_put [OF assms(1) container_wf_finish] by (simp add: ActionEnd serve_def)
  qed
next
  case (SnapshotReceipt i)
  show ?thesis
  proof (cases "hm_get (containers d) i")
    case None
    then show ?thesis using assms(1) by (simp add: SnapshotReceipt serve_def snapshot_receipt_def)
  next
    case (Some c)
    then have c: "container_wf c" "numbered c" using daemon_wf_get [OF assms(1)] by blast+
    obtain newly t where t: "propagate (build_file_flow_edges H c) = Some ((build_file_flow_edges H c)\<lparr>process_table := t\<rparr>)"
      "container_wf ((build_file_flow_edges H c)\<lparr>process_table := t\<rparr>)"
      by (rule propagate_container [OF flows_ready(1) [OF c(1) assms(2)]])
    moreover have "numbered ((build_file_flow_edges H c)\<lparr>process_table := t\<rparr>)"
      using c(2) by (simp add: numbered_ids action_ids_def all_actions_def)
    ultimately show ?thesis
      using Some daemon_wf_put [OF assms(1)] by (simp add: SnapshotReceipt serve_def snapshot_receipt_def Let_def)
  qed
next
  case (CreateExperiment name)
  then show ?thesis
    using assms(1) by (simp add: serve_def post_experiment_def create_experiment_def Let_def daemon_wf_def)
next
  case (AddContainer i cid ips)
  then show ?thesis
    using assms(1)
    by (auto simp: serve_def add_experiment_container_def add_container_to_experiment_def daemon_wf_def split: option.split)
qed


section \<open>Actions\<close>

lemma put_get [simp]: "hm_get (containers (put_container i c d)) i = Some c"
  by (simp add: put_container_def hm_get_insert)

lemma find_by_number:
  assumes "numbers (map al_action_id as)" "n < length as" "0 < al_action_id (as ! n)"
  shows "find (\<lambda>a. al_action_id a = al_action_id (as ! n)) as = Some (as ! n)"
proof -
  have u: "i = n" if "i < length as" "al_action_id (as ! i) = al_action_id (as ! n)" for i
    using numbers_distinct [OF assms(1)] that assms(2) by (simp add: distinct_conv_nth) blast
  have "\<not> j < n" if "al_action_id (as ! j) = al_action_id (as ! n)" for j
    using u [of j] that assms(2) by auto
  then show ?thesis using assms(2) by (auto simp: find_Some_iff intro!: exI [of _ n])
qed

lemma last_frame:
  assumes "numbered c" "current_action c = Some a" "0 < al_action_id a"
  shows "find (\<lambda>x. al_action_id x = al_action_id a) (completed_actions c @ [a]) = Some a"
  using find_by_number [of "completed_actions c @ [a]" "length (completed_actions c)"] assms
  by (simp add: numbered_ids action_ids_def all_actions_def)

text \<open>
  C16: the life of an action. Starting one returns its number; whatever events the container then
  receives, ending it returns and moves it to the completed ones with its command and its window,
  and its receipt can be asked for under its number. But the answer to the ending request itself
  carries no receipt of it, whatever number the request names: the code looks for the action
  among the current ones, where it is not any more.
\<close>

theorem action_lifecycle:
  assumes "daemon_wf d" "hash_order_ok H"
    and "action_start wall0 wall now i command d = (Started k, d1)"
    and "hm_get (containers d1) i = Some c"
    and "d2 = put_container i (handle_all evs c) d1"
  shows "\<exists>d3 c3 a. action_end H now' wall' i k' d2 = Some (Ended k' (NoActionData k'), d3) \<and>
    hm_get (containers d3) i = Some c3 \<and> current_action c3 = None \<and>
    action_receipt i k d3 = Ended k (ReceiptOf a c3 (ip_to_container d3)) \<and>
    al_command a = command \<and> al_wall_start_ms a = wall \<and> al_wall_end_ms a = Some wall'"
proof -
  let ?d = "ensure_container wall0 i d"
  obtain c0 where c0: "hm_get (containers ?d) i = Some c0"
    by (cases "hm_get (containers d) i") (simp_all add: ensure_container_def hm_contains_def hm_get_insert)
  have wf0: "container_wf c0" "numbered c0" using daemon_wf_get [OF daemon_wf_ensure [OF assms(1)] c0] by blast+
  have k: "k = length (completed_actions c0) + 1" and d1: "d1 = put_container i (start_action wall now command c0) ?d"
    using assms(3) by (simp_all add: action_start_def c0)
  have c: "c = start_action wall now command c0" using assms(4) by (simp add: d1)
  have wf: "container_wf (handle_all evs c)" "numbered (handle_all evs c)"
    by (simp_all add: c handle_all_wf container_wf_start wf0 handle_all_numbered numbered_start)
  have "frames (handle_all evs c) = frames c" by (rule handle_all_frames)
  then obtain a where a: "current_action (handle_all evs c) = Some a" "action_frame a = (k, command, wall, None)"
    and done_actions: "length (completed_actions (handle_all evs c)) = length (completed_actions c0)"
    by (auto simp: frames_def c start_action_def action_frame_def ActionLog_new_def k Let_def
        dest: arg_cong [of _ _ length])
  have g: "hm_get (containers d2) i = Some (handle_all evs c)" by (simp add: assms(5))
  let ?e = "build_ipc_flow_edges H (build_file_flow_edges H (handle_all evs c))"
  obtain newly t where e: "action_end H now' wall' i k' d2 = Some (Ended k' (NoActionData k'),
      put_container i (finish_action now' wall' (?e\<lparr>process_table := t\<rparr>)) d2)"
    by (rule action_end_container [OF wf(1) assms(2) g])
  let ?c3 = "finish_action now' wall' (?e\<lparr>process_table := t\<rparr>)"
  let ?a = "a\<lparr>al_end_time := Some now', al_wall_end_ms := Some wall'\<rparr>"
  have c3: "completed_actions ?c3 = completed_actions (handle_all evs c) @ [?a]" "current_action ?c3 = None"
    by (simp_all add: finish_action_def a(1))
  have id: "al_action_id ?a = k" "al_action_id a = k" using a(2) by (simp_all add: action_frame_def)
  have "find (\<lambda>x. al_action_id x = k) (completed_actions ?c3) = Some ?a"
  proof -
    have "numbers (map al_action_id (completed_actions ?c3))"
      using wf(2) id by (simp add: c3 numbered_ids action_ids_def all_actions_def a(1))
    then show ?thesis
      using find_by_number [of "completed_actions ?c3" "length (completed_actions (handle_all evs c))"] id k
      by (simp add: c3)
  qed
  then show ?thesis
    using e c3(2) a(2) by (intro exI [of _ "put_container i ?c3 d2"] exI [of _ ?c3] exI [of _ ?a])
      (simp add: action_receipt_def action_frame_def)
qed

text \<open>
  C14: ending an action carries taint along the messages: if a process of the container sent to a queue
  from which another known process received, then after the request the receiver's score is, up to
  the tolerance of the propagation, at least the sender's score times the decay of a message queue,
  provided the sender is tainted then; and nobody's score went down.
\<close>

theorem action_end_taints_receivers:
  assumes "daemon_wf d" "hash_order_ok H" "hm_get (containers d) i = Some c"
    and "sent_on ch a c" "received_on ch b c" "a \<noteq> b" "hm_contains (process_table c) b"
    and "TAINT_THRESHOLD \<le> taint_score (process_table c) a"
  shows "\<exists>resp d' c'. action_end H now wall i k d = Some (resp, d') \<and> hm_get (containers d') i = Some c' \<and>
    (\<forall>pid. taint_score (process_table c) pid \<le> taint_score (process_table c') pid) \<and>
    fmul (taint_score (process_table c') a) (decay_factor MessageQueue)
      \<le> fadd (taint_score (process_table c') b) taint_epsilon"
proof -
  let ?f = "build_file_flow_edges H c"
  let ?e = "build_ipc_flow_edges H ?f"
  have wf: "container_wf c" using daemon_wf_get [OF assms(1,3)] by blast
  obtain newly t where t: "propagate_taint (tg_edges (taint_graph ?e)) (process_table c) = Some (newly, t)"
    "action_end H now wall i k d = Some (Ended k (NoActionData k),
       put_container i (finish_action now wall (?e\<lparr>process_table := t\<rparr>)) d)"
    by (rule action_end_container [OF wf assms(2,3)])
  have "sent_on ch a ?f" "received_on ch b ?f" using assms(4,5) by (simp_all add: sent_on_def received_on_def)
  then have "has_edge (taint_graph ?e) a b MessageQueue"
    using ipc_edges [OF flows_ready(1) [OF wf assms(2)] assms(2)] assms(6) by blast
  then obtain e where e: "e \<in> set (tg_edges (taint_graph ?e))" "te_source_pid e = a" "te_target_pid e = b"
    "te_channel_type e = MessageQueue"
    by (auto simp: has_edge_def edge_key_def)
  have "scores_wf (process_table c)" using wf by (simp add: container_wf_def processes_wf_def table_wf_scores)
  note fix_point = fixpoint_reached [OF this t(1)]
  then have up: "taint_score (process_table c) pid \<le> taint_score t pid" for pid by blast
  have "hm_contains t b"
  proof -
    have "map_option untainted_part (hm_get t b) = map_option untainted_part (hm_get (process_table c) b)"
      using fix_point by blast
    with assms(7) show ?thesis by (auto simp: hm_contains_def)
  qed
  moreover have "TAINT_THRESHOLD \<le> taint_score t a" using assms(8) up [of a] by simp
  ultimately have "fmul (taint_score t a) (decay_factor MessageQueue) \<le> fadd (taint_score t b) taint_epsilon"
    using fix_point assms(7) e by metis
  moreover have "process_table (finish_action now wall (?e\<lparr>process_table := t\<rparr>)) = t"
    by (simp add: finish_action_def split: option.split)
  ultimately show ?thesis using t(2) up by auto
qed

section \<open>A concrete daemon\<close>

definition sample_flow :: ContainerState where
  "sample_flow = sample_container\<lparr>process_table := sample_table,
     ipc_nodes := [(''sysv_mq:5'', \<lparr>in_senders = [(1, 0)], in_receivers = [(2, 0)]\<rparr>)]\<rparr>"

definition sample_daemon :: DaemonState where
  "sample_daemon = put_container ''c0ffee'' sample_flow DaemonState_new"

lemma sample_daemon_get: "hm_get (containers sample_daemon) ''c0ffee'' = Some sample_flow"
  by (simp add: sample_daemon_def)

lemma sample_daemon_wf: "daemon_wf sample_daemon"
proof -
  have "table_wf sample_table"
    by (simp add: table_wf_def sample_table_def process_ok_def sample_process_def)
  then have "container_wf sample_flow"
    using sample_container_wf
    by (simp add: sample_flow_def container_wf_def processes_wf_def edges_wf_def logs_wf_def all_actions_def nodes_wf_def)
  moreover have "numbered sample_flow"
    using numbered_new [of 0 baseline_new]
    by (simp add: sample_flow_def sample_container_def numbered_def all_actions_def)
  ultimately show ?thesis unfolding sample_daemon_def by (rule daemon_wf_put [OF daemon_wf_new])
qed


theorem action_lifecycle_witness:
  "\<exists>d3. action_end insertion_order 7 8 ''c0ffee'' 1
      (put_container ''c0ffee'' (handle_all [(sample_event 2 8 (File ''/tmp/out'' 0 4), 2)] (start_action 5 6 ''make'' sample_flow))
         (put_container ''c0ffee'' (start_action 5 6 ''make'' sample_flow) sample_daemon)) = Some (Ended 1 (NoActionData 1), d3)"
proof -
  have "action_start 4 5 6 ''c0ffee'' ''make'' sample_daemon =
      (Started 1, put_container ''c0ffee'' (start_action 5 6 ''make'' sample_flow) sample_daemon)"
    by (simp add: action_start_def ensure_container_def hm_contains_def sample_daemon_get)
      (simp add: sample_flow_def sample_container_def ContainerState_new_def)
  then show ?thesis
    using action_lifecycle [OF sample_daemon_wf insertion_order_ok _ put_get refl, of 4 5 6 "''c0ffee''" "''make''" 1]
    by blast
qed

theorem action_end_taints_receivers_witness:
  "\<exists>resp d' c'. action_end insertion_order 5 6 ''c0ffee'' 1 sample_daemon = Some (resp, d') \<and>
     hm_get (containers d') ''c0ffee'' = Some c' \<and>
     fmul (taint_score (process_table c') 1) (decay_factor MessageQueue)
       \<le> fadd (taint_score (process_table c') 2) taint_epsilon"
proof -
  have "sent_on ''sysv_mq:5'' 1 sample_flow" "received_on ''sysv_mq:5'' 2 sample_flow"
    "hm_contains (process_table sample_flow) 2"
    by (simp_all add: sent_on_def received_on_def sample_flow_def pids_def hm_contains_def sample_table_def)
  moreover have "TAINT_THRESHOLD \<le> 1" by code_simp
  then have "TAINT_THRESHOLD \<le> taint_score (process_table sample_flow) 1"
    by (simp add: sample_flow_def sample_table_def sample_process_def taint_score_def)
  ultimately show ?thesis
    using action_end_taints_receivers [OF sample_daemon_wf insertion_order_ok sample_daemon_get,
        of "''sysv_mq:5''" 1 2 5 6 1] by fastforce
qed

end
