(* ===== verification/Demux.thy ===== *)
theory Demux
  imports Prelude
begin

text \<open>
  The contract of a component that keeps one slot of state per key and routes every message to
  the slot of its key: the audit record assembler (slots are events, keyed by serial) and the
  batch processor (slots are containers, keyed by container id) both provide it. What a client
  gets, proved once: for each key, the outputs and the final slot of an interleaved stream are
  those of the key's own messages alone, whatever lies between them.
\<close>

text \<open>A stream of messages processed one by one; \<open>None\<close> is a panic, which ends the run.\<close>

fun run_all :: "('m \<Rightarrow> 'st \<Rightarrow> ('o list \<times> 'st) option) \<Rightarrow> 'm list \<Rightarrow> 'st \<Rightarrow> ('o list \<times> 'st) option" where
  "run_all step [] st = Some ([], st)"
| "run_all step (m # ms) st =
     (case step m st of
        None \<Rightarrow> None
      | Some (os, st1) \<Rightarrow> map_option (\<lambda>(os', st2). (os @ os', st2)) (run_all step ms st1))"

text \<open>A predicate holds before every message of the stream.\<close>

fun throughout :: "('m \<Rightarrow> 'st \<Rightarrow> ('o list \<times> 'st) option) \<Rightarrow> ('st \<Rightarrow> bool) \<Rightarrow> 'm list \<Rightarrow> 'st \<Rightarrow> bool" where
  "throughout step P [] st = True"
| "throughout step P (m # ms) st =
     (P st \<and> (case step m st of None \<Rightarrow> True | Some (os, st1) \<Rightarrow> throughout step P ms st1))"

lemma run_all_append:
  "run_all step (ms @ ns) st =
     Option.bind (run_all step ms st) (\<lambda>(os, st1). map_option (\<lambda>(os', st2). (os @ os', st2)) (run_all step ns st1))"
proof (induction ms arbitrary: st)
  case Nil
  show ?case by (cases "run_all step ns st") auto
next
  case (Cons m ms)
  show ?case
    by (cases "step m st")
      (auto simp: Cons.IH option.map_comp comp_def split_def split: bind_splits option.splits)
qed

lemma throughout_inv:
  assumes "\<And>m st os st'. P st \<Longrightarrow> step m st = Some (os, st') \<Longrightarrow> P st'" and "P st"
  shows "throughout step P ms st"
  using assms(2)
proof (induction ms arbitrary: st)
  case (Cons m ms)
  then show ?case using assms(1) by (auto split: option.splits)
qed simp

lemma throughout_conj:
  "throughout step (\<lambda>st. P st \<and> Q st) ms st \<longleftrightarrow> throughout step P ms st \<and> throughout step Q ms st"
  by (induction ms arbitrary: st) (auto split: option.splits)

locale demux =
  fixes step :: "'m \<Rightarrow> 'st \<Rightarrow> ('o list \<times> 'st) option"
    and key :: "'m \<Rightarrow> 'k"
    and slot :: "'st \<Rightarrow> 'k \<Rightarrow> 'sl"
    and sstep :: "'m \<Rightarrow> 'sl \<Rightarrow> ('o list \<times> 'sl) option"
    and okey :: "'o \<Rightarrow> 'k"
    and inv :: "'st \<Rightarrow> bool"
    and calm :: "'st \<Rightarrow> bool"
  assumes own_slot: "inv st \<Longrightarrow> step m st = Some (os, st') \<Longrightarrow>
      sstep m (slot st (key m)) = Some (os, slot st' (key m))"
    and other_slots: "inv st \<Longrightarrow> calm st \<Longrightarrow> step m st = Some (os, st') \<Longrightarrow> k \<noteq> key m \<Longrightarrow>
      slot st' k = slot st k"
    and out_key: "inv st \<Longrightarrow> step m st = Some (os, st') \<Longrightarrow> x \<in> set os \<Longrightarrow> okey x = key m"
    and inv_step: "inv st \<Longrightarrow> step m st = Some (os, st') \<Longrightarrow> inv st'"
begin

lemma inv_run: "inv st \<Longrightarrow> run_all step ms st = Some (os, st') \<Longrightarrow> inv st'"
proof (induction ms arbitrary: st os)
  case (Cons m ms)
  from Cons.prems(2) obtain o1 st1 os2 where
    s1: "step m st = Some (o1, st1)" and r: "run_all step ms st1 = Some (os2, st')"
    by (auto split: option.splits)
  show ?case by (rule Cons.IH [OF inv_step [OF Cons.prems(1) s1] r])
qed simp

lemma interleaving:
  assumes "inv st" and "throughout step calm ms st" and "run_all step ms st = Some (os, st')"
  shows "run_all sstep (filter (\<lambda>m. key m = k) ms) (slot st k) =
    Some (filter (\<lambda>x. okey x = k) os, slot st' k)"
  using assms
proof (induction ms arbitrary: st os)
  case Nil
  then show ?case by simp
next
  case (Cons m ms)
  from Cons.prems(3) obtain o1 st1 os2 where
    s1: "step m st = Some (o1, st1)" and r: "run_all step ms st1 = Some (os2, st')" and os: "os = o1 @ os2"
    by (auto split: option.splits)
  have calm: "calm st" "throughout step calm ms st1" using Cons.prems(2) s1 by auto
  have IH: "run_all sstep (filter (\<lambda>m. key m = k) ms) (slot st1 k) =
      Some (filter (\<lambda>x. okey x = k) os2, slot st' k)"
    using Cons.IH [OF inv_step [OF Cons.prems(1) s1] calm(2) r] .
  have out: "okey x = key m" if "x \<in> set o1" for x
    using out_key [OF Cons.prems(1) s1 that] .
  show ?case
  proof (cases "key m = k")
    case True
    then have "filter (\<lambda>x. okey x = k) o1 = o1" using out by simp
    moreover have "sstep m (slot st k) = Some (o1, slot st1 k)"
      using own_slot [OF Cons.prems(1) s1] True by simp
    ultimately show ?thesis using True IH os by simp
  next
    case False
    then have "filter (\<lambda>x. okey x = k) o1 = []" using out by (auto simp: filter_empty_conv)
    moreover have "slot st1 k = slot st k"
      using other_slots [OF Cons.prems(1) calm(1) s1, of k] False by simp
    ultimately show ?thesis using False IH os by simp
  qed
qed

lemma only_own_messages:
  assumes "inv st" and "throughout step calm ms st" and "run_all step ms st = Some (os, st')"
    and "\<forall>m \<in> set ms. key m \<noteq> k"
  shows "slot st' k = slot st k \<and> (\<forall>x \<in> set os. okey x \<noteq> k)"
proof -
  have "filter (\<lambda>m. key m = k) ms = []" using assms(4) by (auto simp: filter_empty_conv)
  with interleaving [OF assms(1-3), of k] have "filter (\<lambda>x. okey x = k) os = []" "slot st' k = slot st k"
    by (auto dest: sym)
  then show ?thesis by (auto simp: filter_empty_conv)
qed

end

end
