(* ===== verification/Audit_Assembly.thy ===== *)
theory Audit_Assembly
  imports Audit_Records Demux
begin

text \<open>
  Correctness of the record assembler of \<open>Audit_Records\<close>: what one event's records do to the event's own
  slot (the specification, \<open>slot_step\<close>), that the assembler implements it for every event at once
  (the interpretation of the \<open>demux\<close> contract), and the bounds on what it holds.
\<close>

section \<open>Invariant\<close>

definition pending_wf :: "PendingEvents \<Rightarrow> bool" where
  "pending_wf p \<longleftrightarrow>
     hm_wf (pe_pending p) \<and> distinct (pe_skip_serials p) \<and>
     (\<forall>s g. hm_get (pe_pending p) s = Some g \<longrightarrow>
        s \<noteq> 0 \<and> s \<le> pe_max_serial p \<and> sg_serial g = s \<and> sg_is_container g) \<and>
     (\<forall>s \<in> set (pe_skip_serials p). s \<noteq> 0 \<and> s \<le> pe_max_serial p)"

lemma pending_wf_new: "pending_wf pending_new"
  by (simp add: pending_wf_def pending_new_def)

lemma fill_group_fields [simp]:
  "sg_serial (fill_group env s ts f g) = s" "sg_is_container (fill_group env s ts f g)"
  "sg_pid (fill_group env s ts f g) = sf_pid f" "sg_success (fill_group env s ts f g) = sf_success f"
  "sg_path_records (fill_group env s ts f g) = sg_path_records g"
  "sg_sockaddr (fill_group env s ts f g) = sg_sockaddr g"
  "sg_argv (fill_group env s ts f g) = sg_argv g"
  "sg_ppid (fill_group env s ts f g) = sf_ppid f" "sg_syscall (fill_group env s ts f g) = sf_syscall f"
  "sg_timestamp_ms (fill_group env s ts f g) = ts"
  by (simp_all add: fill_group_def Let_def)

lemma ancillary_fields:
  "add_path pl g = Some g' \<Longrightarrow> sg_serial g' = sg_serial g \<and> sg_is_container g' = sg_is_container g"
  "set_sockaddr pl g = Some g' \<Longrightarrow> sg_serial g' = sg_serial g \<and> sg_is_container g' = sg_is_container g"
  "set_cwd pl g = Some g' \<Longrightarrow> sg_serial g' = sg_serial g \<and> sg_is_container g' = sg_is_container g"
  "set_argv env pl g = Some g' \<Longrightarrow> sg_serial g' = sg_serial g \<and> sg_is_container g' = sg_is_container g"
  by (auto simp: add_path_def set_sockaddr_def set_cwd_def set_argv_def Let_def split: if_splits)

lemma gc_wf: "pending_wf p \<Longrightarrow> pending_wf (gc p)"
  by (auto simp: gc_def Let_def pending_wf_def hm_simps split: if_splits)

lemma gc_max [simp]: "pe_max_serial (gc p) = pe_max_serial p"
  by (simp add: gc_def Let_def)

lemma raise_max_wf: "pending_wf p \<Longrightarrow> pending_wf (p\<lparr>pe_max_serial := max (pe_max_serial p) s\<rparr>)"
  by (fastforce simp: pending_wf_def max_def)

lemma skip_wf:
  "pending_wf p \<Longrightarrow> s \<noteq> 0 \<Longrightarrow> s \<le> pe_max_serial p \<Longrightarrow>
    pending_wf (p\<lparr>pe_skip_serials := push_unique s (pe_skip_serials p)\<rparr>)"
  by (auto simp: pending_wf_def)

lemma store_group_wf:
  assumes "pending_wf p" "s \<noteq> 0" "s \<le> pe_max_serial p" "hm_wf m"
    and "\<And>k. hm_get m k = (if k = s then Some g else hm_get (pe_pending p) k)"
    and "sg_serial g = s" "sg_is_container g"
  shows "pending_wf (p\<lparr>pe_pending := m\<rparr>)"
  using assms by (simp add: pending_wf_def)

lemma recv_syscall_cases:
  assumes "recv_syscall env pl p = Some (r, p')"
  obtains (ignored) "serial_or_0 pl = Some 0" "r = Pending" "p' = p"
  | (skipped) s where "serial_or_0 pl = Some s" "s \<noteq> 0" "r = Pending"
      "sf_subj (parse_syscall pl) \<noteq> ''docker-default''"
      "p' = (p\<lparr>pe_max_serial := max (pe_max_serial p) s\<rparr>)\<lparr>pe_skip_serials := push_unique s (pe_skip_serials p)\<rparr>"
  | (filled) s ts where "serial_or_0 pl = Some s" "s \<noteq> 0" "r = Pending"
      "sf_subj (parse_syscall pl) = ''docker-default''" "parse_timestamp_ms pl = Some ts"
      "p' = (p\<lparr>pe_max_serial := max (pe_max_serial p) s\<rparr>)\<lparr>pe_pending :=
         hm_modify s (fill_group env s (case ts of Some t \<Rightarrow> t | None \<Rightarrow> 0) (parse_syscall pl))
           (hm_or_insert s default_group (pe_pending p))\<rparr>"
proof (cases "serial_or_0 pl")
  case None
  then show ?thesis using assms by (simp add: recv_syscall_def)
next
  case (Some s)
  show ?thesis
  proof (cases "s = 0")
    case True
    then show ?thesis using assms Some ignored by (simp add: recv_syscall_def)
  next
    case nz: False
    show ?thesis
    proof (cases "sf_subj (parse_syscall pl) = ''docker-default''")
      case True
      then show ?thesis using assms Some nz filled
        by (auto simp: recv_syscall_def Let_def split: bind_splits)
    next
      case False
      then show ?thesis using assms Some nz skipped by (simp add: recv_syscall_def Let_def)
    qed
  qed
qed

lemma recv_syscall_wf:
  assumes "pending_wf p" and "recv_syscall env pl p = Some (r, p')"
  shows "pending_wf p'"
  using assms(2)
proof (cases rule: recv_syscall_cases)
  case ignored
  then show ?thesis using assms(1) by simp
next
  case (skipped s)
  then show ?thesis using skip_wf [OF raise_max_wf [OF assms(1)], of s s] by simp
next
  case (filled s ts)
  have "hm_wf (pe_pending p)" using assms(1) by (simp add: pending_wf_def)
  then show ?thesis unfolding filled(6)
    by (intro store_group_wf [OF raise_max_wf [OF assms(1)], where s = s])
      (use filled(2) in \<open>auto simp: hm_simps\<close>)
qed

lemma on_group_wf:
  assumes "pending_wf p" and "on_group pl f p = Some (r, p')"
    and "\<And>g g'. f g = Some g' \<Longrightarrow> sg_serial g' = sg_serial g \<and> sg_is_container g' = sg_is_container g"
  shows "pending_wf p'"
proof -
  have upd: "pending_wf (p\<lparr>pe_pending := hm_insert s g' (pe_pending p)\<rparr>)"
    if "hm_get (pe_pending p) s = Some g" "f g = Some g'" for s g g'
    by (rule store_group_wf [OF assms(1), where s = s and g = g'])
      (use that assms(1) assms(3) [OF that(2)] in \<open>auto simp: hm_simps pending_wf_def\<close>)
  show ?thesis using assms(1,2) upd
    by (auto simp: on_group_def split: bind_splits if_splits option.splits)
qed

lemma remove_wf: "pending_wf p \<Longrightarrow> pending_wf (p\<lparr>pe_pending := hm_remove s (pe_pending p)\<rparr>)"
  by (auto simp: pending_wf_def hm_simps)

lemma recv_eoe_wf:
  assumes "pending_wf p" and "recv_eoe pl p = Some (r, p')"
  shows "pending_wf p'"
proof -
  have "pending_wf (p\<lparr>pe_skip_serials := filter (\<lambda>s. s \<noteq> k) (pe_skip_serials p)\<rparr>)" for k
    using assms(1) by (auto simp: pending_wf_def)
  with assms show ?thesis
    by (auto simp: recv_eoe_def Let_def gc_wf remove_wf split: bind_splits if_splits option.splits)
qed

lemma recv_record_wf [inv_intros]:
  assumes "pending_wf p" and "recv_record env t pl p = Some (r, p')"
  shows "pending_wf p'"
  using assms(2) recv_syscall_wf [OF assms(1)] recv_eoe_wf [OF assms(1)] on_group_wf [OF assms(1)]
    ancillary_fields assms(1)
  unfolding recv_record_def by (metis (no_types, lifting) option.inject prod.inject)

section \<open>The slot of one event\<close>

type_synonym audit_msg = "audit_env \<times> nat \<times> string"
type_synonym slot = "SyscallGroup option \<times> bool" \<comment> \<open>group under assembly, serial skipped\<close>

definition handled_types :: "nat set" where
  "handled_types = {1300, 1302, 1306, 1307, 1309, 1320}"

text \<open>The event a message belongs to; 0 for the messages that belong to none.\<close>

definition msg_serial :: "audit_msg \<Rightarrow> u64" where
  "msg_serial = (\<lambda>(env, t, pl).
     if t \<in> handled_types then (case serial_or_0 pl of Some s \<Rightarrow> s | None \<Rightarrow> 0) else 0)"

definition slot_of :: "PendingEvents \<Rightarrow> u64 \<Rightarrow> slot" where
  "slot_of p s = (hm_get (pe_pending p) s, s \<in> set (pe_skip_serials p))"

text \<open>What an ancillary record does to a group.\<close>

definition ancillary :: "audit_msg \<Rightarrow> SyscallGroup \<Rightarrow> SyscallGroup option" where
  "ancillary = (\<lambda>(env, t, pl) g.
     if t = 1302 then add_path pl g
     else if t = 1306 then set_sockaddr pl g
     else if t = 1307 then set_cwd pl g
     else if t = 1309 then set_argv env pl g
     else Some g)"

definition slot_step :: "audit_msg \<Rightarrow> slot \<Rightarrow> (SyscallGroup list \<times> slot) option" where
  "slot_step m sl =
     (case m of (env, t, pl) \<Rightarrow> case sl of (g, skip) \<Rightarrow>
        if t = 1300
        then (let s = msg_serial m; f = parse_syscall pl
              in if s = 0 then Some ([], sl)
                 else if sf_subj f \<noteq> ''docker-default'' then Some ([], (g, True))
                 else map_option (\<lambda>ts. ([], (Some (fill_group env s (case ts of Some x \<Rightarrow> x | None \<Rightarrow> 0) f
                          (case g of Some g0 \<Rightarrow> g0 | None \<Rightarrow> default_group)), skip))) (parse_timestamp_ms pl))
        else if t = 1320
        then Some (if skip then ([], (g, False))
                   else (case g of Some g0 \<Rightarrow> if emits g0 then [g0] else [] | None \<Rightarrow> [], (None, False)))
        else (if skip then Some ([], sl)
              else (case g of None \<Rightarrow> Some ([], sl)
                    | Some g0 \<Rightarrow> map_option (\<lambda>g1. ([], (Some g1, skip))) (ancillary m g0))))"

definition record_step :: "audit_msg \<Rightarrow> PendingEvents \<Rightarrow> (SyscallGroup list \<times> PendingEvents) option" where
  "record_step = (\<lambda>(env, t, pl) p.
     map_option (\<lambda>(r, p'). (case r of Record g \<Rightarrow> [g] | _ \<Rightarrow> [], p')) (recv_record env t pl p))"

definition no_gc :: "PendingEvents \<Rightarrow> bool" where
  "no_gc p \<longleftrightarrow> length (pe_pending p) \<le> PENDING_GC_THRESHOLD"

lemma no_gc_id: "no_gc p \<Longrightarrow> gc p = p"
  by (simp add: no_gc_def gc_def)

lemma gc_get_None: "hm_get (pe_pending p) s = None \<Longrightarrow> hm_get (pe_pending (gc p)) s = None"
  by (simp add: gc_def Let_def hm_simps)

lemma gc_skip_subset: "set (pe_skip_serials (gc p)) \<subseteq> set (pe_skip_serials p)"
  by (auto simp: gc_def Let_def)

lemma slot_of_zero: "pending_wf p \<Longrightarrow> slot_of p 0 = (None, False)"
  by (cases "hm_get (pe_pending p) 0") (auto simp: pending_wf_def slot_of_def)

section \<open>The assembler implements the slots\<close>

lemma syscall_slots:
  assumes "recv_syscall env pl p = Some (r, p')"
  shows "r = Pending \<and>
     slot_step (env, 1300, pl) (slot_of p (msg_serial (env, 1300, pl))) =
       Some ([], slot_of p' (msg_serial (env, 1300, pl))) \<and>
     (\<forall>k. k \<noteq> msg_serial (env, 1300, pl) \<longrightarrow> slot_of p' k = slot_of p k)"
  using assms
  by (cases rule: recv_syscall_cases)
    (auto simp: slot_step_def slot_of_def msg_serial_def handled_types_def hm_simps Let_def)

lemma ancillary_slots:
  assumes "on_group pl f p = Some (r, p')" and "pending_wf p"
    and "t \<in> handled_types" "t \<noteq> 1300" "t \<noteq> 1320" and "\<And>g. ancillary (env, t, pl) g = f g"
  shows "r = Pending \<and>
     slot_step (env, t, pl) (slot_of p (msg_serial (env, t, pl))) =
       Some ([], slot_of p' (msg_serial (env, t, pl))) \<and>
     (\<forall>k. k \<noteq> msg_serial (env, t, pl) \<longrightarrow> slot_of p' k = slot_of p k)"
  using assms
  by (auto simp: on_group_def slot_step_def slot_of_def msg_serial_def hm_simps
      split: bind_splits if_splits option.splits)

definition emitted :: "recv_result \<Rightarrow> SyscallGroup list" where
  "emitted r = (case r of Record g \<Rightarrow> [g] | _ \<Rightarrow> [])"

lemma eoe_cases:
  assumes "recv_eoe pl p = Some (r, p')"
  obtains (skipped) s where "serial_or_0 pl = Some s" "s \<in> set (pe_skip_serials p)" "r = Pending"
      "p' = p\<lparr>pe_skip_serials := filter (\<lambda>k. k \<noteq> s) (pe_skip_serials p)\<rparr>"
  | (unknown) s where "serial_or_0 pl = Some s" "s \<notin> set (pe_skip_serials p)"
      "hm_get (pe_pending p) s = None" "r = Pending" "p' = gc p"
  | (complete) s g where "serial_or_0 pl = Some s" "s \<notin> set (pe_skip_serials p)"
      "hm_get (pe_pending p) s = Some g" "r = (if emits g then Record g else Pending)"
      "p' = gc (p\<lparr>pe_pending := hm_remove s (pe_pending p)\<rparr>)"
  using assms
  by (auto simp: recv_eoe_def Let_def split: bind_splits if_splits option.splits)

lemma length_hm_remove: "length (hm_remove k m) \<le> length m"
  by (simp add: hm_remove_def)

lemma no_gc_remove: "no_gc p \<Longrightarrow> no_gc (p\<lparr>pe_pending := hm_remove s (pe_pending p)\<rparr>)"
  using length_hm_remove [of s "pe_pending p"] by (simp add: no_gc_def)

lemma eoe_own_slot:
  assumes "recv_eoe pl p = Some (r, p')"
  shows "slot_step (env, 1320, pl) (slot_of p (msg_serial (env, 1320, pl))) =
       Some (emitted r, slot_of p' (msg_serial (env, 1320, pl)))"
  using assms
proof (cases rule: eoe_cases)
  case (skipped s)
  then show ?thesis by (simp add: slot_step_def slot_of_def msg_serial_def handled_types_def emitted_def)
next
  case (unknown s)
  then have "s \<notin> set (pe_skip_serials (gc p))" using gc_skip_subset by blast
  with unknown show ?thesis
    by (simp add: slot_step_def slot_of_def msg_serial_def handled_types_def emitted_def gc_get_None)
next
  case (complete s g)
  let ?q = "p\<lparr>pe_pending := hm_remove s (pe_pending p)\<rparr>"
  have "s \<notin> set (pe_skip_serials (gc ?q))" using gc_skip_subset [of ?q] complete(2) by auto
  moreover have "hm_get (pe_pending (gc ?q)) s = None" by (rule gc_get_None) (simp add: hm_simps)
  ultimately show ?thesis using complete
    by (simp add: slot_step_def slot_of_def msg_serial_def handled_types_def emitted_def)
qed

lemma eoe_other_slots:
  assumes "recv_eoe pl p = Some (r, p')" and "no_gc p" and "k \<noteq> msg_serial (env, 1320, pl)"
  shows "slot_of p' k = slot_of p k"
  using assms(1)
  by (cases rule: eoe_cases)
    (use assms(2,3) in \<open>auto simp: no_gc_id no_gc_remove slot_of_def msg_serial_def handled_types_def hm_simps\<close>)

lemma record_cases:
  assumes "recv_record env t pl p = Some (r, p')"
  obtains (syscall) "t = 1300" "recv_syscall env pl p = Some (r, p')"
  | (extra) f where "t \<in> handled_types" "t \<noteq> 1300" "t \<noteq> 1320" "on_group pl f p = Some (r, p')"
      "\<And>g. ancillary (env, t, pl) g = f g"
  | (eoe) "t = 1320" "recv_eoe pl p = Some (r, p')"
  | (other) "t \<notin> handled_types" "r = Pending" "p' = p"
proof -
  consider "t = 1300" | "t = 1302" | "t = 1306" | "t = 1307" | "t = 1309" | "t = 1320" | "t \<notin> handled_types"
    by (auto simp: handled_types_def)
  then show ?thesis
    by cases (use assms in \<open>auto simp: recv_record_def ancillary_def handled_types_def
        intro: syscall eoe other extra\<close>)
qed

lemma record_own_slot:
  assumes "pending_wf p" and "recv_record env t pl p = Some (r, p')"
  shows "slot_step (env, t, pl) (slot_of p (msg_serial (env, t, pl))) =
    Some (emitted r, slot_of p' (msg_serial (env, t, pl)))"
  using assms(2)
proof (cases rule: record_cases)
  case syscall
  with syscall_slots [OF syscall(2)] show ?thesis by (simp add: emitted_def)
next
  case (extra f)
  with ancillary_slots [OF extra(4) assms(1) extra(1-3), of env] show ?thesis by (simp add: emitted_def)
next
  case eoe
  with eoe_own_slot show ?thesis by simp
next
  case other
  then have "msg_serial (env, t, pl) = 0" "t \<noteq> 1300" "t \<noteq> 1320"
    by (auto simp: msg_serial_def handled_types_def)
  with other slot_of_zero [OF assms(1)] show ?thesis by (simp add: slot_step_def emitted_def)
qed

lemma record_other_slots:
  assumes "pending_wf p" "no_gc p" and "recv_record env t pl p = Some (r, p')" and "k \<noteq> msg_serial (env, t, pl)"
  shows "slot_of p' k = slot_of p k"
  using assms(3)
proof (cases rule: record_cases)
  case syscall
  with syscall_slots [OF syscall(2)] assms(4) show ?thesis by simp
next
  case (extra f)
  with ancillary_slots [OF extra(4) assms(1) extra(1-3), of env] assms(4) show ?thesis by simp
next
  case eoe
  with eoe_other_slots assms(2,4) show ?thesis by blast
qed simp

lemma record_emits:
  assumes "pending_wf p" and "recv_record env t pl p = Some (Record g, p')"
  shows "t = 1320 \<and> emits g \<and> hm_get (pe_pending p) (msg_serial (env, t, pl)) = Some g \<and>
    msg_serial (env, t, pl) \<notin> set (pe_skip_serials p)"
  using assms(2)
proof (cases rule: record_cases)
  case syscall
  with syscall_slots [OF syscall(2)] show ?thesis by simp
next
  case (extra f)
  with ancillary_slots [OF extra(4) assms(1) extra(1-3), of env] show ?thesis by simp
next
  case eoe
  from eoe(2) show ?thesis
    by (cases rule: eoe_cases) (use eoe(1) in \<open>auto simp: msg_serial_def handled_types_def split: if_splits\<close>)
qed simp

lemma record_step_Some:
  "record_step (env, t, pl) p = Some (os, p') \<longleftrightarrow>
    (\<exists>r. recv_record env t pl p = Some (r, p') \<and> os = emitted r)"
  by (auto simp: record_step_def emitted_def)

lemma emitted_mem [simp]: "g \<in> set (emitted r) \<longleftrightarrow> r = Record g"
  by (auto simp: emitted_def split: recv_result.splits)

lemma record_serial:
  assumes "pending_wf p" and "recv_record env t pl p = Some (Record g, p')"
  shows "sg_serial g = msg_serial (env, t, pl)"
  using record_emits [OF assms] assms(1) unfolding pending_wf_def by blast

interpretation assembler: demux record_step msg_serial slot_of slot_step sg_serial pending_wf no_gc
proof (unfold_locales, goal_cases)
  case (1 p m os p')
  then show ?case by (cases m) (auto simp: record_step_Some record_own_slot)
next
  case (2 p m os p' k)
  then show ?case by (cases m) (auto simp: record_step_Some record_other_slots)
next
  case (3 p m os p' x)
  then show ?case by (cases m) (auto simp: record_step_Some dest: record_serial)
next
  case (4 p m os p')
  then show ?case by (cases m) (auto simp: record_step_Some intro: recv_record_wf)
qed

section \<open>How much the assembler holds\<close>

lemma length_hm_insert: "length (hm_insert k v m) \<le> Suc (length m)"
  by (induction m) auto

lemma length_gc: "length (pe_pending (gc p)) \<le> length (pe_pending p)"
  by (simp add: gc_def Let_def hm_retain_def)

lemma record_step_length:
  assumes "record_step m p = Some (os, p')"
  shows "length (pe_pending p') \<le> Suc (length (pe_pending p))"
proof -
  obtain env t pl where m: "m = (env, t, pl)" by (cases m)
  obtain r where "recv_record env t pl p = Some (r, p')" using assms by (auto simp: m record_step_Some)
  then show ?thesis
  proof (cases rule: record_cases)
    case syscall
    from syscall(2) show ?thesis
      by (cases rule: recv_syscall_cases) (auto simp: hm_modify_def hm_or_insert_def)
  next
    case (extra f)
    from extra(4) show ?thesis
      by (auto simp: on_group_def length_hm_insert split: bind_splits if_splits option.splits)
  next
    case eoe
    have "length (pe_pending (gc (p\<lparr>pe_pending := hm_remove s (pe_pending p)\<rparr>))) \<le> length (pe_pending p)" for s
      using length_gc [of "p\<lparr>pe_pending := hm_remove s (pe_pending p)\<rparr>"] length_hm_remove [of s "pe_pending p"]
      by simp
    from this eoe(2) length_gc [of p] show ?thesis
      by (elim eoe_cases) (auto simp: le_SucI)
  qed simp
qed

lemma short_stream_no_gc:
  "length (pe_pending p) + length ms \<le> PENDING_GC_THRESHOLD \<Longrightarrow> throughout record_step no_gc ms p"
proof (induction ms arbitrary: p)
  case (Cons m ms)
  then show ?case
    by (cases "record_step m p") (auto simp: no_gc_def dest!: record_step_length intro!: Cons.IH)
qed simp

section \<open>Properties of the assembler\<close>


definition no_files :: audit_env where
  "no_files = \<lparr>env_hexd = (\<lambda>_. None), env_cgroup = (\<lambda>_. None), env_fib = (\<lambda>_. None)\<rparr>"

definition sample_stream :: "audit_msg list" where
  "sample_stream =
     [(no_files, 1300, ''audit(1.0:7): success=yes pid=5 subj=docker-default''),
      (no_files, 1300, ''audit(1.0:8): pid=6''),
      (no_files, 1320, ''audit(1.0:8): ''),
      (no_files, 1320, ''audit(1.0:7): '')]"


text \<open>What the records of one event leave behind when they arrive in the documented order: the
  SYSCALL record, then the ancillary records, then EOE.\<close>

fun assemble :: "audit_msg list \<Rightarrow> SyscallGroup \<Rightarrow> SyscallGroup option" where
  "assemble [] g = Some g"
| "assemble (m # ms) g = Option.bind (ancillary m g) (assemble ms)"

definition extra_msg :: "audit_msg \<Rightarrow> bool" where
  "extra_msg = (\<lambda>(env, t, pl). t \<in> {1302, 1306, 1307, 1309})"

lemma slot_step_extra:
  "extra_msg m \<Longrightarrow> slot_step m (Some g, False) = map_option (\<lambda>g'. ([], (Some g', False))) (ancillary m g)"
  by (auto simp: extra_msg_def slot_step_def)

lemma run_slot_extra:
  "list_all extra_msg ms \<Longrightarrow>
    run_all slot_step ms (Some g, False) = map_option (\<lambda>g'. ([], (Some g', False))) (assemble ms g)"
proof (induction ms arbitrary: g)
  case (Cons m ms)
  then show ?case
    by (cases "ancillary m g") (auto simp: slot_step_extra option.map_comp comp_def)
qed simp



text \<open>
  An event whose SYSCALL record does not name the container profile is never emitted,
  whatever other records carry its serial, in any interleaving and with any evictions.
\<close>

theorem host_events_never_emitted:
  assumes "run_all record_step ms pending_new = Some (os, p')"
    and "\<forall>(env, t, pl) \<in> set ms. t = 1300 \<and> serial_or_0 pl = Some s \<longrightarrow> sf_subj (parse_syscall pl) \<noteq> ''docker-default''"
  shows "\<forall>g \<in> set os. sg_serial g \<noteq> s"
proof -
  have step: "hm_get (pe_pending p2) s = None \<and> (\<forall>g \<in> set o1. sg_serial g \<noteq> s)"
    if wf: "pending_wf p1" and n: "hm_get (pe_pending p1) s = None" and st: "record_step m p1 = Some (o1, p2)"
      and m: "m \<in> set ms" for m p1 o1 p2
  proof -
    obtain env t pl where mm: "m = (env, t, pl)" by (cases m)
    obtain r where rr: "recv_record env t pl p1 = Some (r, p2)" "o1 = emitted r"
      using st by (auto simp: mm record_step_Some)
    have out: "\<forall>g \<in> set o1. sg_serial g \<noteq> s"
      using record_emits [OF wf] record_serial [OF wf] rr n by fastforce
    from rr(1) have "hm_get (pe_pending p2) s = None"
    proof (cases rule: record_cases)
      case syscall
      then show ?thesis using assms(2) m mm n
        by (elim recv_syscall_cases) (auto simp: hm_simps)
    next
      case (extra f)
      from extra(4) n show ?thesis
        by (auto simp: on_group_def hm_simps split: bind_splits if_splits option.splits)
    next
      case eoe
      from eoe(2) n show ?thesis
        by (elim eoe_cases) (auto simp: hm_simps intro: gc_get_None)
    qed (use n in simp)
    with out show ?thesis by blast
  qed
  have "\<forall>g \<in> set os. sg_serial g \<noteq> s"
    if "run_all record_step ns p1 = Some (os, p')" "set ns \<subseteq> set ms" "pending_wf p1"
      "hm_get (pe_pending p1) s = None" for ns p1 os
    using that
  proof (induction ns arbitrary: p1 os)
    case (Cons m ns)
    then obtain o1 p2 o2 where r1: "record_step m p1 = Some (o1, p2)"
      and r2: "run_all record_step ns p2 = Some (o2, p')" and os: "os = o1 @ o2"
      by (auto split: option.splits)
    have s1: "hm_get (pe_pending p2) s = None" "\<forall>g \<in> set o1. sg_serial g \<noteq> s"
      using step [OF Cons.prems(3,4) r1] Cons.prems(2) by simp_all
    have "pending_wf p2" by (rule assembler.inv_step [OF Cons.prems(3) r1])
    from Cons.IH [OF r2 _ this s1(1)] Cons.prems(2) have "\<forall>g \<in> set o2. sg_serial g \<noteq> s" by simp
    with s1(2) show ?case by (auto simp: os)
  qed simp
  from this [OF assms(1)] pending_wf_new show ?thesis by (simp add: pending_new_def)
qed

theorem host_events_never_emitted_witness:
  "\<exists>os p'. run_all record_step sample_stream pending_new = Some (os, p') \<and> (\<forall>g \<in> set os. sg_serial g \<noteq> 8)"
proof -
  have "run_all record_step sample_stream pending_new \<noteq> None" by code_simp
  then obtain os p' where r: "run_all record_step sample_stream pending_new = Some (os, p')" by auto
  have "serial_or_0 ''audit(1.0:7): success=yes pid=5 subj=docker-default'' = Some 7 \<and>
      sf_subj (parse_syscall ''audit(1.0:8): pid=6'') = []" by code_simp
  then have "\<forall>(env, t, pl) \<in> set sample_stream. t = 1300 \<and> serial_or_0 pl = Some 8 \<longrightarrow>
      sf_subj (parse_syscall pl) \<noteq> ''docker-default''"
    by (simp add: sample_stream_def)
  from host_events_never_emitted [OF r this] r show ?thesis by blast
qed

section \<open>The eviction bound\<close>

text \<open>
  After an eviction pass at most 500 groups remain, every serial that is kept lies within the
  last 500 serials whenever anything was evicted, and no group of that window is lost.
\<close>

theorem gc_bound:
  assumes "pending_wf p"
  shows "length (pe_pending (gc p)) \<le> 500 \<and>
    (\<forall>s. unat (pe_max_serial p) < unat s + 500 \<longrightarrow>
       hm_get (pe_pending (gc p)) s = hm_get (pe_pending p) s)"
proof
  let ?cut = "unat (pe_max_serial p) - 500"
  have cut: "unat (saturating_sub (pe_max_serial p) PENDING_GC_SERIAL_WINDOW) = ?cut"
    by (simp add: saturating_sub_unat PENDING_GC_SERIAL_WINDOW_def)
  show "length (pe_pending (gc p)) \<le> 500"
  proof (cases "PENDING_GC_THRESHOLD < length (pe_pending p)")
    case True
    let ?ks = "hm_keys (pe_pending (gc p))"
    have "distinct ?ks" using gc_wf [OF assms] by (simp add: pending_wf_def)
    then have "length ?ks = card (unat ` set ?ks)"
      by (metis card_image distinct_card inj_on_def unsigned_word_eqI word_unat_eq_iff)
    also have "\<dots> \<le> card {?cut <.. unat (pe_max_serial p)}"
    proof (rule card_mono)
      show "unat ` set ?ks \<subseteq> {?cut <.. unat (pe_max_serial p)}"
      proof
        fix n assume "n \<in> unat ` set ?ks"
        then obtain s where s: "n = unat s" "s \<in> set ?ks" by blast
        then have "s \<in> set (hm_keys (pe_pending p))" "?cut < unat s"
          using True cut by (auto simp: gc_def Let_def hm_keys_retain word_less_nat_alt)
        moreover from this(1) obtain g where "hm_get (pe_pending p) s = Some g"
          by (metis not_Some_eq map_of_eq_None_iff set_map)
        then have "s \<le> pe_max_serial p" using assms by (auto simp: pending_wf_def)
        ultimately show "n \<in> {?cut <.. unat (pe_max_serial p)}" using s(1) by (simp add: word_le_nat_alt)
      qed
    qed simp
    finally show ?thesis by simp
  qed (simp add: gc_def PENDING_GC_THRESHOLD_def)
  show "\<forall>s. unat (pe_max_serial p) < unat s + 500 \<longrightarrow>
       hm_get (pe_pending (gc p)) s = hm_get (pe_pending p) s"
  proof (intro allI impI)
    fix s :: u64 assume near: "unat (pe_max_serial p) < unat s + 500"
    show "hm_get (pe_pending (gc p)) s = hm_get (pe_pending p) s"
    proof (cases "s = 0")
      case True
      then show ?thesis using slot_of_zero [OF assms] slot_of_zero [OF gc_wf [OF assms]] by (simp add: slot_of_def)
    next
      case False
      then have "0 < unat s" by (simp add: unat_gt_0)
      with near cut have "saturating_sub (pe_max_serial p) PENDING_GC_SERIAL_WINDOW < s"
        by (simp add: word_less_nat_alt)
      then show ?thesis by (simp add: gc_def Let_def hm_simps)
    qed
  qed
qed

theorem gc_bound_witness: "length (pe_pending (gc pending_new)) \<le> 500"
  using gc_bound [OF pending_wf_new] by blast

section \<open>Socket addresses\<close>

definition hex_text :: "u8 list \<Rightarrow> string" where
  "hex_text bs = concat (map (\<lambda>b. hex2 (unat b)) bs)"

lemma hex_digit_not_cont: "d < 16 \<Longrightarrow> \<not> is_cont (hex_digit d)"
  by (auto simp: hex_digit_def is_cont_def)

lemma hex_pair_bytes_hex_text: "hex_pair_bytes (hex_text bs) = Some bs"
proof (induction bs)
  case Nil
  then show ?case by (simp add: hex_text_def)
next
  case (Cons b bs)
  have b: "unat b < 256" by (rule unat_u8_less)
  have "hex_text bs \<noteq> [] \<Longrightarrow> \<not> is_cont (hd (hex_text bs))"
    by (cases bs) (auto simp: hex_text_def hex2_def less_mult_imp_div_less unat_u8_less intro!: hex_digit_not_cont)
  then have "hex_text bs = [] \<or> \<not> is_cont (hd (hex_text bs))" by blast
  moreover have "hex_text (b # bs) = hex_digit (unat b div 16) # hex_digit (unat b mod 16) # hex_text bs"
    by (simp add: hex_text_def hex2_def)
  ultimately show ?case
    using Cons.IH u8_from_hex_hex2 [OF b] hex_digit_not_cont [of "unat b div 16"] b
    by (auto simp: less_mult_imp_div_less)
qed

text \<open>The address structures of the kernel: \<open>sockaddr_in\<close>, and \<open>sockaddr_in6\<close> with an IPv4-mapped address.\<close>

definition port_bytes :: "u16 \<Rightarrow> u8 list" where
  "port_bytes p = [of_nat (unat p div 256), of_nat (unat p mod 256)]"

definition sockaddr_in :: "ipv4 \<Rightarrow> u16 \<Rightarrow> u8 list" where
  "sockaddr_in = (\<lambda>(a, b, c, d) p. [2, 0] @ port_bytes p @ [a, b, c, d] @ replicate 8 0)"

definition sockaddr_in6_mapped :: "ipv4 \<Rightarrow> u16 \<Rightarrow> u32 \<Rightarrow> u8 list" where
  "sockaddr_in6_mapped = (\<lambda>(a, b, c, d) p flow.
     [10, 0] @ port_bytes p @ map (\<lambda>i. ucast (drop_bit (8 * i) flow)) [0..<4] @
     replicate 10 0 @ [255, 255, a, b, c, d] @ replicate 4 0)"

lemma be16_port_bytes: "be16 (of_nat (unat p div 256)) (of_nat (unat p mod 256)) = p"
proof -
  have "unat p < 65536" using unsigned_less [of p] by simp
  then have "unat (of_nat (unat p div 256) :: u8) = unat p div 256" by (simp add: unat_of_nat less_mult_imp_div_less)
  then show ?thesis by (simp add: be16_def unat_of_nat)
qed

lemma replicate_zeros: "replicate 10 x = [x, x, x, x, x, x, x, x, x, x]" "replicate 4 x = [x, x, x, x]"
  by (simp_all add: numeral_eq_Suc)

lemma mapped_bytes:
  "sockaddr_in6_mapped (a, b, c, d) p flow =
     [10, 0, of_nat (unat p div 256), of_nat (unat p mod 256)] @
     map (\<lambda>i. ucast (drop_bit (8 * i) flow)) [0..<4] @
     ([0, 0, 0, 0, 0, 0, 0, 0, 0, 0, 255, 255, a, b, c, d] @ [0, 0, 0, 0])"
  by (simp add: sockaddr_in6_mapped_def port_bytes_def replicate_zeros del: upt_rec_numeral)

lemma to_ipv4_mapped_bytes:
  "to_ipv4_mapped [0, 0, 0, 0, 0, 0, 0, 0, 0, 0, 255, 255, a, b, c, d] = Some (a, b, c, d)"
proof -
  show ?thesis by (simp add: to_ipv4_mapped_def replicate_zeros)
qed

lemma sockaddr_target_in6:
  assumes "length f = 4" "length bs = 16" "to_ipv4_mapped bs = Some v4"
  shows "sockaddr_target ([10, 0, x, y] @ f @ (bs @ r)) = Some (Inet v4 (be16 x y))"
proof -
  have "le16 10 0 = 10" by (simp add: le16_def)
  moreover have "take 16 (drop 8 ([10, 0, x, y] @ f @ (bs @ r))) = bs" using assms(1,2) by simp
  ultimately show ?thesis using assms by (simp add: sockaddr_target_def Let_def)
qed

text \<open>
  the text of an \<open>AF_INET\<close> address, and that of the same address mapped into \<open>AF_INET6\<close>, decode to
  the same IPv4 target with the port in host order, and the address part of the displayed target
  (which the ingestion stores) parses back to the address.
\<close>

theorem sockaddr_decodes_inet:
  "decode_sockaddr (hex_text (sockaddr_in ip port)) = Some (Some (Inet ip port)) \<and>
   decode_sockaddr (hex_text (sockaddr_in6_mapped ip port flow)) = Some (Some (Inet ip port)) \<and>
   map_option (\<lambda>(a, p). (parse_ipv4 a, p)) (rsplit_once CHR '':'' (display_addr (Inet ip port))) =
     Some (Some ip, dec (unat port))"
proof -
  obtain a b c d where ip: "ip = (a, b, c, d)" by (cases ip)
  have fam: "le16 2 0 = 2" by (simp_all add: le16_def)
  have "sockaddr_target (sockaddr_in ip port) = Some (Inet ip port)"
    by (simp add: sockaddr_target_def sockaddr_in_def port_bytes_def fam ip Let_def be16_port_bytes)
  moreover have "sockaddr_target (sockaddr_in6_mapped ip port flow) = Some (Inet ip port)"
    unfolding ip mapped_bytes
    by (subst sockaddr_target_in6 [OF _ _ to_ipv4_mapped_bytes]) (simp_all add: be16_port_bytes)
  ultimately show ?thesis
    by (simp add: decode_sockaddr_def hex_pair_bytes_hex_text rsplit_display_inet)
qed

end
