(* ===== verification/Daemon.thy ===== *)
theory Daemon
  imports Control_Correct Audit_Assembly
begin

text \<open>
  \<open>src/src/daemon.rs\<close>: the receiving thread (drain the socket, resolve the container of each finished
  group, build its event, push it to the shared buffer), the batch processor (take the buffer,
  dispatch its events in chunks, one lock of the state per chunk) and their interleaving with the
  HTTP requests of theory \<open>Control\<close>. What the code reads from \<open>/proc\<close> and the cgroup file system is
  an argument; the interned strings are maps from the text to the shared text.
\<close>

definition PROCESS_CHUNK_SIZE :: nat where "PROCESS_CHUNK_SIZE = 32"
definition PPID_WALK_MAX_DEPTH :: nat where "PPID_WALK_MAX_DEPTH = 10"

section \<open>The batch processor\<close>

text \<open>One event; \<open>wall\<close> is the wall clock should the event create its container.\<close>

definition process_event_in :: "u64 \<Rightarrow> SyscallEvent \<times> u64 \<Rightarrow> DaemonState \<Rightarrow> DaemonState" where
  "process_event_in timestamp = (\<lambda>(ev, wall) d.
     let cid = se_container_id ev;
         d1 = (if \<not> hm_contains (containers d) cid
               then d\<lparr>ip_to_container := fold (\<lambda>ip m. hm_or_insert ip cid m) (se_container_ips ev) (ip_to_container d),
                      containers := hm_insert cid (ContainerState_new wall baseline_new) (containers d)\<rparr>
               else d)
     in d1\<lparr>containers := hm_modify cid (dispatch ev timestamp) (containers d1)\<rparr>)"

text \<open>\<open>chunks(n)\<close>: pieces of n elements, the last one possibly shorter.\<close>

function chunks :: "nat \<Rightarrow> 'a list \<Rightarrow> 'a list list" where
  "chunks n xs = (if n = 0 \<or> xs = [] then [] else take n xs # chunks n (drop n xs))"
  by pat_completeness auto
termination by (relation "measure (\<lambda>(n, xs). length xs)") auto

declare chunks.simps [simp del]

definition process_chunk :: "u64 \<Rightarrow> (SyscallEvent \<times> u64) list \<Rightarrow> DaemonState \<Rightarrow> DaemonState" where
  "process_chunk timestamp chunk d = fold (process_event_in timestamp) chunk d"

definition process_batch :: "u64 \<Rightarrow> (SyscallEvent \<times> u64) list \<Rightarrow> DaemonState \<Rightarrow> DaemonState" where
  "process_batch timestamp batch d = fold (process_chunk timestamp) (chunks PROCESS_CHUNK_SIZE batch) d"

section \<open>Resolving the container of a process\<close>

record proc_env =
  pe_cgroup :: "u32 \<Rightarrow> string option"   \<comment> \<open>\<open>/proc/{pid}/cgroup\<close>\<close>
  pe_status :: "u32 \<Rightarrow> string option"   \<comment> \<open>\<open>/proc/{pid}/status\<close>\<close>
  pe_cmdline :: "u32 \<Rightarrow> string option"  \<comment> \<open>\<open>/proc/{pid}/cmdline\<close>\<close>
  pe_cgroups :: "(string \<times> string option) list" \<comment> \<open>the cgroup directories with their \<open>cgroup.procs\<close>\<close>

type_synonym pid_cache = "(u32, string option) hashmap"

text \<open>The walk along the parents, at most \<open>n\<close> steps.\<close>

fun walk_ppids :: "proc_env \<Rightarrow> (u32, u32) hashmap \<Rightarrow> u32 \<Rightarrow> nat \<Rightarrow> u32 \<Rightarrow> pid_cache \<Rightarrow> (string \<times> pid_cache) option" where
  "walk_ppids env ppid_cache pid 0 current cache = None"
| "walk_ppids env ppid_cache pid (Suc n) current cache =
     (if current = 0 \<or> current = 1 then None
      else case hm_get cache current of
             Some (Some cid) \<Rightarrow> Some (cid, hm_insert pid (Some cid) cache)
           | _ \<Rightarrow>
               (case container_from_pid (pe_cgroup env current) of
                  Some cid \<Rightarrow> Some (cid, hm_insert pid (Some cid) (hm_insert current (Some cid) cache))
                | None \<Rightarrow>
                    walk_ppids env ppid_cache pid n
                      (case hm_get ppid_cache current of
                         Some p \<Rightarrow> p
                       | None \<Rightarrow> (case read_ppid (pe_status env current) of Some p \<Rightarrow> p | None \<Rightarrow> 0))
                      cache))"

text \<open>The distinct containers in the cache. The code sorts them, but only uses the only one, or
  that there are several.\<close>

definition known_containers :: "pid_cache \<Rightarrow> string list" where
  "known_containers cache = remdups (List.map_filter snd cache)"

definition resolve_container ::
  "proc_env \<Rightarrow> u32 \<Rightarrow> u32 \<Rightarrow> bool \<Rightarrow> (u32, u32) hashmap \<Rightarrow> pid_cache \<Rightarrow> string option \<times> pid_cache" where
  "resolve_container env pid ppid_hint is_container ppid_cache cache =
     (case hm_get cache pid of
        Some cached \<Rightarrow> (cached, cache)
      | None \<Rightarrow>
          (case container_from_pid (pe_cgroup env pid) of
             Some cid \<Rightarrow> (Some cid, hm_insert pid (Some cid) cache)
           | None \<Rightarrow>
               (let start = (if 0 < ppid_hint then ppid_hint
                             else case hm_get ppid_cache pid of Some p \<Rightarrow> p | None \<Rightarrow> 0)
                in case walk_ppids env ppid_cache pid PPID_WALK_MAX_DEPTH start cache of
                     Some (cid, cache') \<Rightarrow> (Some cid, cache')
                   | None \<Rightarrow>
                       if is_container
                       then (case known_containers cache of
                               [] \<Rightarrow> (None, cache)
                             | [cid] \<Rightarrow> (Some cid, hm_insert pid (Some cid) cache)
                             | _ \<Rightarrow>
                                 (case hm_get (scan_container_pids (pe_cgroups env)) pid of
                                    Some cid \<Rightarrow> (Some cid, hm_insert pid (Some cid) cache)
                                  | None \<Rightarrow> (None, cache)))
                       else (None, cache))))"

section \<open>The receiving thread\<close>

definition intern :: "(string, string) hashmap \<Rightarrow> string \<Rightarrow> string \<times> (string, string) hashmap" where
  "intern cache s =
     (case hm_get cache s of Some existing \<Rightarrow> (existing, cache) | None \<Rightarrow> (s, hm_insert s s cache))"

definition read_cmdline :: "string option \<Rightarrow> string" where
  "read_cmdline content =
     (case content of
        Some bytes \<Rightarrow> join '' '' (map utf8_lossy (filter (\<lambda>s. s \<noteq> []) (split_char (CHR 0x00) bytes)))
      | None \<Rightarrow> [])"

record RecvState =
  rs_pid_cache :: pid_cache
  rs_ppid_cache :: "(u32, u32) hashmap"
  rs_cmdline_cache :: "(u32, string) hashmap"
  rs_exe_intern :: "(string, string) hashmap"
  rs_cid_intern :: "(string, string) hashmap"
  rs_cmd_intern :: "(string, string) hashmap"

definition RecvState_new :: RecvState where
  "RecvState_new = \<lparr>rs_pid_cache = [], rs_ppid_cache = [], rs_cmdline_cache = [], rs_exe_intern = [],
     rs_cid_intern = [], rs_cmd_intern = []\<rparr>"

text \<open>The container of a group: the one found when the record arrived, else the one resolved now.\<close>

definition group_container :: "proc_env \<Rightarrow> SyscallGroup \<Rightarrow> RecvState \<Rightarrow> string option \<times> RecvState" where
  "group_container env g st =
     (case sg_container_id g of
        Some cid \<Rightarrow> (Some cid, st\<lparr>rs_pid_cache := hm_insert (sg_pid g) (Some cid) (rs_pid_cache st)\<rparr>)
      | None \<Rightarrow>
          (let (cid, cache) = resolve_container env (sg_pid g) (sg_ppid g) (sg_is_container g)
                                (rs_ppid_cache st) (rs_pid_cache st)
           in (cid, st\<lparr>rs_pid_cache := cache\<rparr>)))"

definition group_cmdline :: "proc_env \<Rightarrow> SyscallGroup \<Rightarrow> RecvState \<Rightarrow> string" where
  "group_cmdline env g st =
     (if sg_argv g \<noteq> [] then join '' '' (sg_argv g)
      else case hm_get (rs_cmdline_cache st) (sg_pid g) of
             Some c \<Rightarrow> c
           | None \<Rightarrow> read_cmdline (pe_cmdline env (sg_pid g)))"

definition receive_group :: "proc_env \<Rightarrow> SyscallGroup \<Rightarrow> RecvState \<Rightarrow> SyscallEvent option \<times> RecvState" where
  "receive_group env g st =
     (if \<not> sg_is_container g then (None, st)
      else
        (let st = (if 0 < sg_ppid g then st\<lparr>rs_ppid_cache := hm_insert (sg_pid g) (sg_ppid g) (rs_ppid_cache st)\<rparr> else st)
         in case group_container env g st of
              (None, st) \<Rightarrow> (None, st)
            | (Some container_id, st) \<Rightarrow>
                (let cmdline = group_cmdline env g st;
                     (exe, exes) = intern (rs_exe_intern st) (sg_exe g);
                     (cid, cids) = intern (rs_cid_intern st) container_id;
                     (cmd, cmds) = intern (rs_cmd_intern st) cmdline
                 in (Some \<lparr>se_pid = sg_pid g, se_ppid = sg_ppid g, se_syscall = sg_syscall g,
                           se_comm = CommBuf_new (sg_comm g), se_exe = exe, se_container_id = cid,
                           se_cmdline = cmd,
                           se_detail = classify_syscall_group (syscall_name (sg_syscall g)) g,
                           se_timestamp_ms = sg_timestamp_ms g, se_container_ips = sg_container_ips g\<rparr>,
                     st\<lparr>rs_cmdline_cache := hm_insert (sg_pid g) cmdline (rs_cmdline_cache st),
                        rs_exe_intern := exes, rs_cid_intern := cids, rs_cmd_intern := cmds\<rparr>))))"

text \<open>Phase 1: messages are received until the socket has none. The outcomes of \<open>recv\<close> are given;
  the groups, the rest of the outcomes, and whether the loop goes on (an error ends the thread).\<close>

fun drain ::
  "audit_env \<Rightarrow> os_recv list \<Rightarrow> PendingEvents \<Rightarrow> (SyscallGroup list \<times> PendingEvents \<times> bool) panicking" where
  "drain env [] p = Some ([], p, True)"
| "drain env (input # inputs) p =
     do {
       (r, p1) \<leftarrow> try_recv env input p;
       case r of
         Inl e \<Rightarrow> Some ([], p1, False)
       | Inr WouldBlock \<Rightarrow> Some ([], p1, True)
       | Inr Pending \<Rightarrow> drain env inputs p1
       | Inr (Record g) \<Rightarrow> map_option (\<lambda>(gs, p2, ok). (g # gs, p2, ok)) (drain env inputs p1)
     }"

end
