(* ===== verification/Daemon_Correct.thy ===== *)
theory Daemon_Correct
  imports Daemon
begin

text \<open>
  The correctness of the daemon's loops: the containers of a batch do not interfere (an
  interpretation of the routing contract of theory \<open>Demux\<close>), a process once resolved stays with its
  container, an event carries its group's data whatever the caches hold, and in every interleaving
  of the receiving thread, the processor and the requests no event is lost, doubled or reordered.
\<close>

section \<open>Batches\<close>

lemma concat_chunks: "0 < n \<Longrightarrow> concat (chunks n xs) = xs"
proof (induction n xs rule: chunks.induct)
  case (1 n xs)
  then show ?case by (subst chunks.simps) simp
qed

lemma chunks_size: "c \<in> set (chunks n xs) \<Longrightarrow> c \<noteq> [] \<and> length c \<le> n"
proof (induction n xs rule: chunks.induct)
  case (1 n xs)
  show ?case
  proof (cases "n = 0 \<or> xs = []")
    case True
    with 1(2) show ?thesis by (simp add: chunks.simps)
  next
    case False
    then have "set (chunks n xs) = insert (take n xs) (set (chunks n (drop n xs)))"
      by (subst chunks.simps) simp
    with 1 False show ?thesis by auto
  qed
qed

lemma fold_concat: "fold f (concat xss) s = fold (fold f) xss s"
  by (induction xss arbitrary: s) simp_all

lemma process_batch_events: "process_batch ts batch d = fold (process_event_in ts) batch d"
proof -
  have "fold (process_event_in ts) (concat (chunks PROCESS_CHUNK_SIZE batch)) d = process_batch ts batch d"
    unfolding process_batch_def process_chunk_def fold_concat by simp
  then show ?thesis by (simp add: concat_chunks PROCESS_CHUNK_SIZE_def)
qed

text \<open>The effect of an event on the slot of its container: a missing container is created.\<close>

definition container_step :: "u64 \<Rightarrow> SyscallEvent \<times> u64 \<Rightarrow> ContainerState option \<Rightarrow> ContainerState option" where
  "container_step ts = (\<lambda>(ev, wall) slot.
     Some (dispatch ev ts (case slot of Some c \<Rightarrow> c | None \<Rightarrow> ContainerState_new wall baseline_new)))"

definition event_key :: "SyscallEvent \<times> u64 \<Rightarrow> string" where
  "event_key = (\<lambda>(ev, wall). se_container_id ev)"

definition container_slot :: "DaemonState \<Rightarrow> string \<Rightarrow> ContainerState option" where
  "container_slot d k = hm_get (containers d) k"

lemma process_event_slot:
  "container_slot (process_event_in ts m d) k =
     (if k = event_key m then container_step ts m (container_slot d k) else container_slot d k)"
  by (cases m) (auto simp: process_event_in_def container_slot_def event_key_def container_step_def Let_def
      hm_get_modify hm_get_insert hm_contains_def split: option.split)

definition batch_step :: "u64 \<Rightarrow> SyscallEvent \<times> u64 \<Rightarrow> DaemonState \<Rightarrow> (unit list \<times> DaemonState) option" where
  "batch_step ts m d = Some ([], process_event_in ts m d)"

definition batch_slot_step :: "u64 \<Rightarrow> SyscallEvent \<times> u64 \<Rightarrow> ContainerState option \<Rightarrow> (unit list \<times> ContainerState option) option" where
  "batch_slot_step ts m slot = Some ([], container_step ts m slot)"

interpretation processor: demux "batch_step ts" event_key container_slot "batch_slot_step ts" "\<lambda>_. []"
  "\<lambda>_. True" "\<lambda>_. True" for ts
  by unfold_locales (auto simp: batch_step_def batch_slot_step_def process_event_slot)

lemma run_batch: "run_all (batch_step ts) ms d = Some ([], fold (process_event_in ts) ms d)"
  by (induction ms arbitrary: d) (simp_all add: batch_step_def)

lemma run_slot: "run_all (batch_slot_step ts) ms s = Some ([], fold (container_step ts) ms s)"
  by (induction ms arbitrary: s) (simp_all add: batch_slot_step_def)

text \<open>
  C5: containers do not interfere: the state of a container after a batch is the one it gets from its
  own events alone, in their order (starting from a new state, if it did not exist), however they
  are interleaved with those of other containers and cut into chunks; and an address that a
  container has claimed stays with it.
\<close>

theorem containers_isolated:
  "hm_get (containers (process_batch ts batch d)) k =
     fold (container_step ts) (filter (\<lambda>m. event_key m = k) batch) (hm_get (containers d) k) \<and>
   (hm_get (ip_to_container d) ip = Some owner \<longrightarrow> hm_get (ip_to_container (process_batch ts batch d)) ip = Some owner)"
proof
  have calm: "throughout (batch_step ts) (\<lambda>_. True) batch d"
    by (rule throughout_inv) simp_all
  show "hm_get (containers (process_batch ts batch d)) k =
      fold (container_step ts) (filter (\<lambda>m. event_key m = k) batch) (hm_get (containers d) k)"
    using processor.interleaving [OF TrueI calm run_batch, of k]
    by (simp add: run_slot process_batch_events container_slot_def)
  have ips: "hm_get (fold (\<lambda>ip m. hm_or_insert ip cid m) ips m) ip = Some owner"
    if "hm_get m ip = Some owner" for ips cid m
    using that
  proof (induction ips arbitrary: m)
    case (Cons a ips)
    then have "hm_get (hm_or_insert a cid m) ip = Some owner" by (auto simp: hm_get_or_insert)
    with Cons.IH show ?case by simp
  qed simp
  have "hm_get (ip_to_container (process_event_in ts m d)) ip = Some owner"
    if "hm_get (ip_to_container d) ip = Some owner" for m d
    using that by (cases m) (simp add: process_event_in_def Let_def ips)
  then show "hm_get (ip_to_container d) ip = Some owner \<longrightarrow>
      hm_get (ip_to_container (process_batch ts batch d)) ip = Some owner"
    unfolding process_batch_events by (induction batch arbitrary: d) simp_all
qed

section \<open>Resolution\<close>

lemma walk_ppids_cache:
  "walk_ppids env pc pid n cur cache = Some (cid, cache') \<Longrightarrow>
     hm_get cache' pid = Some (Some cid) \<and>
     (\<forall>p c. p \<noteq> pid \<longrightarrow> hm_get cache p = Some (Some c) \<longrightarrow> hm_get cache' p = Some (Some c))"
proof (induction n arbitrary: cur)
  case (Suc n)
  show ?case
  proof (cases "cur = 0 \<or> cur = 1")
    case True
    with Suc.prems show ?thesis by simp
  next
    case False
    let ?up = "case hm_get pc cur of Some p \<Rightarrow> p
      | None \<Rightarrow> (case read_ppid (pe_status env cur) of Some p \<Rightarrow> p | None \<Rightarrow> 0)"
    consider (hit) c where "hm_get cache cur = Some (Some c)"
      | (found) c where "\<nexists>c. hm_get cache cur = Some (Some c)" "container_from_pid (pe_cgroup env cur) = Some c"
      | (up) "\<nexists>c. hm_get cache cur = Some (Some c)" "container_from_pid (pe_cgroup env cur) = None"
      by fastforce
    then show ?thesis
    proof cases
      case hit
      with Suc.prems False show ?thesis by (simp add: hm_get_insert) (metis hm_get_insert)
    next
      case found
      then have "cid = c \<and> cache' = hm_insert pid (Some c) (hm_insert cur (Some c) cache)"
        using Suc.prems False by (cases "hm_get cache cur") (auto split: option.splits)
      with found(1) show ?thesis by (auto simp: hm_get_insert)
    next
      case up
      then have "walk_ppids env pc pid n ?up cache = Some (cid, cache')"
        using Suc.prems False by (cases "hm_get cache cur") (simp_all split: option.splits)
      then show ?thesis by (rule Suc.IH)
    qed
  qed
qed simp

text \<open>
  C33: a process once resolved to a container stays with it: asking again gives the same container
  without touching the cache, whatever \<open>/proc\<close> says then (the process may be gone, its pid given
  away, its parents dead); no other process loses its container by a resolution, and a failed one
  changes nothing.
\<close>

theorem resolution_is_stable:
  assumes "resolve_container env pid hint isc pc cache = (r, cache')" "hm_get cache pid \<noteq> Some None"
  shows "(\<forall>cid. r = Some cid \<longrightarrow> resolve_container env2 pid hint2 isc2 pc2 cache' = (Some cid, cache')) \<and>
    (r = None \<longrightarrow> cache' = cache) \<and>
    (\<forall>p c. hm_get cache p = Some (Some c) \<longrightarrow> hm_get cache' p = Some (Some c))"
proof -
  have known: "(\<forall>cid. r = Some cid \<longrightarrow> hm_get cache' pid = Some (Some cid)) \<and> (r = None \<longrightarrow> cache' = cache) \<and>
    (\<forall>p c. hm_get cache p = Some (Some c) \<longrightarrow> hm_get cache' p = Some (Some c))"
  proof (cases "hm_get cache pid")
    case (Some x)
    with assms show ?thesis by (auto simp: resolve_container_def)
  next
    case None
    show ?thesis
    proof (cases "container_from_pid (pe_cgroup env pid)")
      case (Some cid)
      with None assms(1) show ?thesis by (auto simp: resolve_container_def hm_get_insert)
    next
      case no: None
      let ?start = "if 0 < hint then hint else case hm_get pc pid of Some p \<Rightarrow> p | None \<Rightarrow> 0"
      show ?thesis
      proof (cases "walk_ppids env pc pid PPID_WALK_MAX_DEPTH ?start cache")
        case (Some w)
        obtain cid c' where w: "w = (cid, c')" by (cases w)
        have "r = Some cid" "cache' = c'" using assms(1) None no Some w by (auto simp: resolve_container_def Let_def)
        moreover have "p \<noteq> pid" if "hm_get cache p = Some (Some c)" for p c using that None by auto
        ultimately show ?thesis using walk_ppids_cache [OF Some [unfolded w]] by simp
      next
        case stop: None
        consider "known_containers cache = []" | cid where "known_containers cache = [cid]"
          | a b ks where "known_containers cache = a # b # ks"
          by (cases "known_containers cache" rule: remdups_adj.cases) auto
        then show ?thesis
          using assms(1) None no stop
          by cases (auto simp: resolve_container_def Let_def hm_get_insert split: if_splits option.splits)
      qed
    qed
  qed
  then show ?thesis by (auto simp: resolve_container_def)
qed

section \<open>Groups and events\<close>

definition interns_self :: "(string, string) hashmap \<Rightarrow> bool" where
  "interns_self m \<longleftrightarrow> (\<forall>s t. hm_get m s = Some t \<longrightarrow> t = s)"

definition interns_ok :: "RecvState \<Rightarrow> bool" where
  "interns_ok st \<longleftrightarrow> interns_self (rs_exe_intern st) \<and> interns_self (rs_cid_intern st) \<and> interns_self (rs_cmd_intern st)"

lemma intern_self: "interns_self m \<Longrightarrow> fst (intern m s) = s \<and> interns_self (snd (intern m s))"
  by (auto simp: intern_def interns_self_def hm_get_insert split: option.splits)

lemma interns_new [simp]: "interns_ok RecvState_new"
  by (simp add: interns_ok_def interns_self_def RecvState_new_def)

lemma group_container_interns:
  "group_container env g st = (c, st') \<Longrightarrow> interns_ok st' = interns_ok st \<and> rs_cmdline_cache st' = rs_cmdline_cache st"
  by (auto simp: group_container_def interns_ok_def split: option.splits prod.splits)

text \<open>
  an event carries the data of its group, whatever the caches hold: pid, parent, call, executable
  and the command line, which is the arguments of an \<open>execve\<close> or else what the process was last
  seen with; a group of a container that was identified when its record arrived is never dropped,
  and its event goes to that container.
\<close>

theorem event_carries_group:
  assumes "interns_ok st" "receive_group env g st = (r, st')"
  shows "interns_ok st' \<and>
    (sg_is_container g \<and> sg_container_id g = Some cid \<longrightarrow> (\<exists>ev. r = Some ev \<and> se_container_id ev = cid)) \<and>
    (\<forall>ev. r = Some ev \<longrightarrow>
       se_pid ev = sg_pid g \<and> se_ppid ev = sg_ppid g \<and> se_syscall ev = sg_syscall g \<and> se_exe ev = sg_exe g \<and>
       se_detail ev = classify_syscall_group (syscall_name (sg_syscall g)) g \<and>
       se_timestamp_ms ev = sg_timestamp_ms g \<and> se_cmdline ev = group_cmdline env g st \<and>
       hm_get (rs_cmdline_cache st') (sg_pid g) = Some (se_cmdline ev))"
proof (cases "sg_is_container g")
  case False
  with assms show ?thesis by (simp add: receive_group_def)
next
  case True
  let ?st = "if 0 < sg_ppid g then st\<lparr>rs_ppid_cache := hm_insert (sg_pid g) (sg_ppid g) (rs_ppid_cache st)\<rparr> else st"
  obtain c st1 where gc: "group_container env g ?st = (c, st1)" by fastforce
  have ok: "interns_ok st1" "rs_cmdline_cache st1 = rs_cmdline_cache st"
    using group_container_interns [OF gc] assms(1) by (simp_all add: interns_ok_def)
  have cl: "group_cmdline env g st1 = group_cmdline env g st" by (simp add: group_cmdline_def ok(2))
  have cid: "sg_container_id g = Some cid \<Longrightarrow> c = Some cid"
    using gc by (simp add: group_container_def)
  have i: "fst (intern m s) = s" "interns_self (snd (intern m s))"
    if "m \<in> {rs_exe_intern st1, rs_cid_intern st1, rs_cmd_intern st1}" for m s
    using intern_self [of m s] that ok(1) by (auto simp: interns_ok_def)
  show ?thesis
  proof (cases c)
    case None
    then show ?thesis using assms(2) True gc ok(1) cid by (auto simp: receive_group_def Let_def)
  next
    case (Some container_id)
    then show ?thesis using assms(2) True gc ok cid i cl
      by (auto simp: receive_group_def Let_def split_def interns_ok_def hm_get_insert)
  qed
qed

section \<open>The daemon as a state machine\<close>

text \<open>
  The receiving thread and the processor share the buffer; the processor takes it as a whole and then
  locks the state once per chunk, so requests and further receipts come between the chunks. The
  fields \<open>pushed\<close> and \<open>handled\<close> record the events that went into the buffer and those that were
  dispatched.
\<close>

record World =
  buffer :: "(SyscallEvent \<times> u64) list"
  in_flight :: "(SyscallEvent \<times> u64) list list"
  batch_time :: u64
  daemon :: DaemonState
  pushed :: "(SyscallEvent \<times> u64) list"
  handled :: "(SyscallEvent \<times> u64) list"

definition World_new :: World where
  "World_new = \<lparr>buffer = [], in_flight = [], batch_time = 0, daemon = DaemonState_new, pushed = [], handled = []\<rparr>"

definition push :: "SyscallEvent \<times> u64 \<Rightarrow> World \<Rightarrow> World" where
  "push m w = w\<lparr>buffer := buffer w @ [m], pushed := pushed w @ [m]\<rparr>"

definition take_batch :: "u64 \<Rightarrow> World \<Rightarrow> World" where
  "take_batch ts w = w\<lparr>in_flight := chunks PROCESS_CHUNK_SIZE (buffer w), buffer := [], batch_time := ts\<rparr>"

definition handle_chunk :: "World \<Rightarrow> World" where
  "handle_chunk w =
     (case in_flight w of
        [] \<Rightarrow> w
      | c # cs \<Rightarrow> w\<lparr>in_flight := cs, daemon := process_chunk (batch_time w) c (daemon w), handled := handled w @ c\<rparr>)"

inductive world_step :: "hash_order \<Rightarrow> World \<Rightarrow> World \<Rightarrow> bool" for H :: hash_order where
  receive: "world_step H w (push m w)"
| tick: "in_flight w = [] \<Longrightarrow> buffer w \<noteq> [] \<Longrightarrow> world_step H w (take_batch ts w)"
| chunk: "in_flight w \<noteq> [] \<Longrightarrow> world_step H w (handle_chunk w)"
| request: "serve H r (daemon w) = Some (resp, d) \<Longrightarrow> world_step H w (w\<lparr>daemon := d\<rparr>)"

inductive reachable :: "hash_order \<Rightarrow> World \<Rightarrow> bool" for H :: hash_order where
  start: "reachable H World_new"
| step: "reachable H w \<Longrightarrow> world_step H w w' \<Longrightarrow> reachable H w'"

lemma serve_wf:
  assumes "daemon_wf d" "hash_order_ok H" "serve H r d = Some (resp, d')"
  shows "daemon_wf d'"
  using serve_returns [OF assms(1,2), of r] assms(3) by auto

lemma process_event_wf:
  assumes "daemon_wf d"
  shows "daemon_wf (process_event_in ts m d)"
proof -
  have new: "container_wf c \<and> numbered c" if st: "container_step ts m (hm_get (containers d) (event_key m)) = Some c" for c
  proof -
    obtain ev wall where m: "m = (ev, wall)" by (cases m)
    obtain c0 where c: "c = dispatch ev ts c0" and c0: "container_wf c0" "numbered c0"
    proof (cases "hm_get (containers d) (event_key m)")
      case None
      then show ?thesis
        using st m container_wf_new numbered_new by (intro that [of "ContainerState_new wall baseline_new"])
          (simp_all add: container_step_def)
    next
      case (Some c0)
      then show ?thesis using st m daemon_wf_get [OF assms Some] by (intro that [of c0]) (simp_all add: container_step_def)
    qed
    then show ?thesis using handle_all_wf [OF c0(1), of "[(ev, ts)]"] handle_all_numbered [of "[(ev, ts)]" c0]
      by (simp add: handle_all_def)
  qed
  have "hm_wf (containers (process_event_in ts m d))"
    using assms by (cases m) (simp add: process_event_in_def Let_def daemon_wf_def hm_wf_insert del: set_map)
  moreover have "container_wf c \<and> numbered c" if "hm_get (containers (process_event_in ts m d)) i = Some c" for i c
  proof (cases "i = event_key m")
    case True
    then show ?thesis using that new process_event_slot [of ts m d i] by (simp add: container_slot_def)
  next
    case False
    then show ?thesis using that daemon_wf_get [OF assms] process_event_slot [of ts m d i] by (simp add: container_slot_def)
  qed
  ultimately show ?thesis by (simp add: daemon_wf_def)
qed

lemma process_chunk_wf: "daemon_wf d \<Longrightarrow> daemon_wf (process_chunk ts ms d)"
  unfolding process_chunk_def by (induction ms arbitrary: d) (simp_all add: process_event_wf)

definition world_ok :: "World \<Rightarrow> bool" where
  "world_ok w \<longleftrightarrow> daemon_wf (daemon w) \<and> pushed w = handled w @ concat (in_flight w) @ buffer w \<and>
     (\<forall>c \<in> set (in_flight w). length c \<le> PROCESS_CHUNK_SIZE)"

lemma world_step_ok:
  assumes "world_step H w w'" "world_ok w" "hash_order_ok H"
  shows "world_ok w'"
  using assms(1)
proof (cases rule: world_step.cases)
  case (receive m)
  with assms(2) show ?thesis by (simp add: world_ok_def push_def)
next
  case (tick ts)
  with assms(2) show ?thesis
    using chunks_size [of _ PROCESS_CHUNK_SIZE "buffer w"] concat_chunks [of PROCESS_CHUNK_SIZE "buffer w"]
    by (auto simp: world_ok_def take_batch_def PROCESS_CHUNK_SIZE_def)
next
  case chunk
  with assms(2) show ?thesis
    by (cases "in_flight w") (auto simp: world_ok_def handle_chunk_def process_chunk_wf)
next
  case (request r resp d)
  with assms(2) serve_wf [OF _ assms(3) request(2)] show ?thesis by (simp add: world_ok_def)
qed

lemma reachable_ok: "reachable H w \<Longrightarrow> hash_order_ok H \<Longrightarrow> world_ok w"
proof (induction rule: reachable.induct)
  case start
  then show ?case by (simp add: world_ok_def World_new_def)
next
  case (step w w')
  then show ?case using world_step_ok by blast
qed


text \<open>The steps of the processor alone.\<close>

inductive processor_steps :: "World \<Rightarrow> World \<Rightarrow> bool" where
  halt: "processor_steps w w"
| tick: "in_flight w = [] \<Longrightarrow> buffer w \<noteq> [] \<Longrightarrow> processor_steps (take_batch ts w) w' \<Longrightarrow> processor_steps w w'"
| chunk: "in_flight w \<noteq> [] \<Longrightarrow> processor_steps (handle_chunk w) w' \<Longrightarrow> processor_steps w w'"

lemma flight_drains:
  "\<exists>w'. processor_steps w w' \<and> in_flight w' = [] \<and> buffer w' = buffer w \<and> pushed w' = pushed w \<and>
     handled w' = handled w @ concat (in_flight w)"
proof (induction "in_flight w" arbitrary: w)
  case Nil
  then show ?case by (intro exI [of _ w]) (auto intro: processor_steps.halt)
next
  case (Cons c cs)
  let ?w = "handle_chunk w"
  have "in_flight ?w = cs" "buffer ?w = buffer w" "pushed ?w = pushed w" "handled ?w = handled w @ c"
    by (simp_all add: handle_chunk_def flip: Cons.hyps(2))
  then obtain w' where "processor_steps ?w w'" "in_flight w' = []" "buffer w' = buffer w" "pushed w' = pushed w"
    "handled w' = (handled w @ c) @ concat cs"
    using Cons.hyps(1) [of ?w] by auto
  moreover have "processor_steps w w'"
    by (rule processor_steps.chunk) (use Cons.hyps(2) calculation(1) in \<open>auto dest: sym\<close>)
  ultimately show ?case using Cons.hyps(2) [symmetric] by auto
qed

lemma processor_trans: "processor_steps u v \<Longrightarrow> processor_steps v w \<Longrightarrow> processor_steps u w"
  by (induction rule: processor_steps.induct) (auto intro: processor_steps.intros)


section \<open>A concrete run\<close>

definition sample_env :: proc_env where
  "sample_env = \<lparr>pe_cgroup = (\<lambda>pid. if pid = 40 then Some ''0::/system.slice/docker-0123456789abcdef.scope'' else None),
     pe_status = (\<lambda>_. None), pe_cmdline = (\<lambda>_. None), pe_cgroups = []\<rparr>"

definition gone_env :: proc_env where
  "gone_env = \<lparr>pe_cgroup = (\<lambda>_. None), pe_status = (\<lambda>_. None), pe_cmdline = (\<lambda>_. None), pe_cgroups = []\<rparr>"

definition sample_group :: SyscallGroup where
  "sample_group = default_group\<lparr>sg_pid := 41, sg_ppid := 40, sg_syscall := 59, sg_is_container := True,
     sg_container_id := Some ''0123456789ab'', sg_exe := ''/bin/ls'', sg_argv := [''ls'', ''-l'']\<rparr>"

theorem resolution_is_stable_witness:
  "resolve_container sample_env 41 40 True [] [] =
     (Some ''0123456789ab'', [(40, Some ''0123456789ab''), (41, Some ''0123456789ab'')]) \<and>
   resolve_container gone_env 41 0 False [] [(40, Some ''0123456789ab''), (41, Some ''0123456789ab'')] =
     (Some ''0123456789ab'', [(40, Some ''0123456789ab''), (41, Some ''0123456789ab'')])"
proof
  show r: "resolve_container sample_env 41 40 True [] [] =
      (Some ''0123456789ab'', [(40, Some ''0123456789ab''), (41, Some ''0123456789ab'')])"
    by code_simp
  show "resolve_container gone_env 41 0 False [] [(40, Some ''0123456789ab''), (41, Some ''0123456789ab'')] =
      (Some ''0123456789ab'', [(40, Some ''0123456789ab''), (41, Some ''0123456789ab'')])"
    using resolution_is_stable [OF r, of gone_env 0 False "[]"] by simp
qed

theorem event_carries_group_witness:
  "\<exists>ev. fst (receive_group gone_env sample_group RecvState_new) = Some ev \<and> se_container_id ev = ''0123456789ab'' \<and>
     se_cmdline ev = ''ls -l'' \<and> se_exe ev = ''/bin/ls''"
proof -
  obtain r st' where r: "receive_group gone_env sample_group RecvState_new = (r, st')" by fastforce
  have "group_cmdline gone_env sample_group RecvState_new = ''ls -l''"
    by (simp add: group_cmdline_def sample_group_def)
  then show ?thesis
    using event_carries_group [OF interns_new r, of "''0123456789ab''"] r by (auto simp: sample_group_def)
qed

theorem containers_isolated_witness:
  "hm_get (ip_to_container (process_batch 1 [(sample_event 2 8 (File ''/tmp/out'' 0 4), 2)]
     (DaemonState_new\<lparr>ip_to_container := [((10, 0, 0, 2), ''feed'')]\<rparr>))) (10, 0, 0, 2) = Some ''feed''"
  using containers_isolated [of 1 "[(sample_event 2 8 (File ''/tmp/out'' 0 4), 2)]"
      "DaemonState_new\<lparr>ip_to_container := [((10, 0, 0, 2), ''feed'')]\<rparr>" _ "(10, 0, 0, 2)" "''feed''"]
  by simp

definition sample_world :: World where
  "sample_world = take_batch 1 (push (sample_event 2 8 (File ''/tmp/out'' 0 4), 2) World_new)"

lemma sample_reachable: "reachable insertion_order sample_world"
proof -
  let ?m = "(sample_event 2 8 (File ''/tmp/out'' 0 4), 2)"
  have "reachable insertion_order (push ?m World_new)"
    by (rule reachable.step [OF reachable.start world_step.receive])
  moreover have "in_flight (push ?m World_new) = []" "buffer (push ?m World_new) \<noteq> []"
    by (simp_all add: push_def World_new_def)
  ultimately show ?thesis unfolding sample_world_def by (blast intro: reachable.step world_step.tick)
qed



end
