(* ===== verification/Mitre.thy ===== *)
theory Mitre
  imports Rust_Text
begin

text \<open>
  \<open>src/src/mitre.rs\<close>: the table of rules that map observed behaviour to MITRE ATT&CK techniques, and
  its evaluation.
\<close>

record Rule =
  ru_name :: string
  ru_syscalls :: "string list"
  ru_file_patterns :: "string list"
  ru_process_patterns :: "string list"
  ru_process_exclude :: "string list"
  ru_technique_id :: string
  ru_severity :: nat

definition rule ::
  "string \<Rightarrow> string list \<Rightarrow> string list \<Rightarrow> string list \<Rightarrow> string list \<Rightarrow> string \<Rightarrow> nat \<Rightarrow> Rule" where
  "rule name syscalls file_patterns process_patterns process_exclude technique_id severity =
     \<lparr>ru_name = name, ru_syscalls = syscalls, ru_file_patterns = file_patterns,
      ru_process_patterns = process_patterns, ru_process_exclude = process_exclude,
      ru_technique_id = technique_id, ru_severity = severity\<rparr>"

text \<open>A pattern may begin or end with a star; a pattern without one is a prefix.\<close>

definition path_matches :: "string \<Rightarrow> string \<Rightarrow> bool" where
  "path_matches path pattern =
     (if pattern = ''*'' then True
      else case strip_prefix ''*'' pattern of
        Some suffix \<Rightarrow> ends_with path suffix
      | None \<Rightarrow>
          (case strip_suffix ''*'' pattern of
             Some prefix \<Rightarrow> starts_with path prefix
           | None \<Rightarrow> path = pattern \<or> starts_with path pattern))"

definition proc_basename :: "string \<Rightarrow> string" where
  "proc_basename exe = (case rfind_char CHR ''/'' exe of Some i \<Rightarrow> drop (Suc i) exe | None \<Rightarrow> exe)"

definition runtime_noise :: "string \<Rightarrow> string \<Rightarrow> bool" where
  "runtime_noise base comm \<longleftrightarrow>
     base = ''runc'' \<or> base = ''containerd-shim'' \<or> comm = ''runc'' \<or> starts_with comm ''runc:''"

text \<open>The condition of the filter.\<close>

definition rule_matches :: "string \<Rightarrow> string \<Rightarrow> string \<Rightarrow> string list \<Rightarrow> string list \<Rightarrow> Rule \<Rightarrow> bool" where
  "rule_matches syscall exe comm file_paths net_connections r \<longleftrightarrow>
     (let base = proc_basename exe; named = (\<lambda>ps. base \<in> set ps \<or> comm \<in> set ps) in
      (ru_syscalls r = [] \<or> syscall \<in> set (ru_syscalls r)) \<and>
      \<not> runtime_noise base comm \<and>
      \<not> (ru_process_exclude r \<noteq> [] \<and> named (ru_process_exclude r)) \<and>
      (ru_process_patterns r = [] \<or> named (ru_process_patterns r)) \<and>
      (ru_file_patterns r = [] \<or>
       list_ex (\<lambda>fp. list_ex (path_matches fp) (ru_file_patterns r)) file_paths \<or>
       net_connections \<noteq> [] \<and> list_ex (\<lambda>p. starts_with p ''net:'') (ru_file_patterns r)))"

section \<open>The rules\<close>

definition RULES :: "Rule list" where
  "RULES = [
     rule ''Cron job modification'' [''openat'', ''open'', ''rename'', ''renameat'']
       [''/etc/cron*'', ''/var/spool/cron*'', ''*/crontab'']
       [] [''cron'', ''crond'', ''anacron''] ''T1053.003'' 3,
     rule ''Shell config modification'' [''openat'', ''open'']
       [''*/.bashrc'', ''*/.bash_profile'', ''*/.profile'', ''*/.zshrc'', ''*/.cshrc'',
         ''/etc/profile*'', ''/etc/bash.bashrc'', ''/etc/zsh*'']
       [] [] ''T1546.004'' 2,
     rule ''Systemd service modification'' [''openat'', ''open'']
       [''/etc/systemd/*'', ''/lib/systemd/*'', ''/usr/lib/systemd/*'']
       [] [''systemd'', ''systemctl''] ''T1543'' 3,
     rule ''SSH authorized_keys modification'' [''openat'', ''open'']
       [''*/.ssh/authorized_keys*'']
       [] [''sshd''] ''T1098.004'' 3,
     rule ''Setuid/setgid call'' [''setuid'', ''setgid'', ''setreuid'', ''setregid'', ''setresuid'', ''setresgid'']
       []
       [] [''sudo'', ''su'', ''login'', ''sshd'', ''passwd'', ''chsh'', ''newgrp''] ''T1548.001'' 2,
     rule ''Kernel module load'' [''init_module'', ''finit_module'']
       []
       [] [] ''T1547.006'' 3,
     rule ''Container escape attempt'' [''execve'', ''execveat'']
       []
       [''nsenter'', ''unshare''] [] ''T1611'' 3,
     rule ''Timestomping'' [''settimeofday'', ''clock_settime'', ''adjtimex'']
       []
       [] [''chronyd'', ''ntpd'', ''systemd-timesyncd''] ''T1070.006'' 2,
     rule ''File deletion (evidence removal)'' [''unlink'', ''unlinkat'', ''rename'', ''renameat'', ''renameat2'']
       [''/var/log*'', ''*/.bash_history'', ''*/auth.log*'', ''*/syslog*'']
       [] [''logrotate''] ''T1070'' 3,
     rule ''Hidden file/directory creation'' [''openat'', ''open'', ''mkdir'', ''mkdirat'']
       [''/tmp/.*'', ''/var/tmp/.*'', ''/dev/shm/.*'']
       [] [] ''T1564.001'' 2,
     rule ''Chmod sensitive file'' [''chmod'', ''fchmod'', ''fchmodat'']
       [''/etc/*'', ''/usr/bin/*'', ''/usr/sbin/*'']
       [] [''dpkg'', ''rpm'', ''apk'', ''apt''] ''T1222.002'' 2,
     rule ''Credential file read'' [''openat'', ''open'']
       [''/etc/shadow'', ''/etc/gshadow'', ''/etc/master.passwd'', ''*/.ssh/id_*'',
         ''*/.ssh/known_hosts'', ''*/.aws/credentials'', ''*/.docker/config.json'',
         ''*/.kube/config'', ''*/.netrc'', ''*/.pgpass'']
       [] [''sshd'', ''login'', ''passwd'', ''shadow'', ''chage''] ''T1552.001'' 3,
     rule ''Password store access'' [''openat'', ''open'']
       [''*/passwords.xml'', ''*/.mozilla/*/logins.json'', ''*/.config/chromium/*/Login*'',
         ''*/key3.db'', ''*/key4.db'']
       [] [] ''T1555'' 3,
     rule ''Passwd/shadow modification'' [''openat'', ''open'']
       [''/etc/passwd'', ''/etc/shadow'', ''/etc/group'']
       [] [''passwd'', ''useradd'', ''usermod'', ''groupadd'', ''groupmod'', ''adduser'',
         ''addgroup''] ''T1098'' 3,
     rule ''Network discovery'' [''execve'', ''execveat'']
       []
       [''ifconfig'', ''ip'', ''netstat'', ''ss'', ''arp'', ''route'', ''nmap'', ''masscan'',
         ''ping'', ''traceroute''] [] ''T1046'' 1,
     rule ''Archive creation (staging data)'' [''execve'', ''execveat'']
       []
       [''tar'', ''gzip'', ''zip'', ''bzip2'', ''xz'', ''7z'', ''rar''] [] ''T1560'' 1,
     rule ''Outbound network connection'' [''connect'']
       []
       [] [''apt'', ''apt-get'', ''apk'', ''yum'', ''dnf'', ''pip'', ''npm'', ''git''] ''T1071'' 1,
     rule ''Curl/wget download'' [''execve'', ''execveat'']
       []
       [''curl'', ''wget''] [] ''T1105'' 2,
     rule ''Netcat/socat (reverse shell tool)'' [''execve'', ''execveat'']
       []
       [''nc'', ''ncat'', ''netcat'', ''socat''] [] ''T1059.004'' 3,
     rule ''Data exfiltration tool'' [''execve'', ''execveat'']
       []
       [''scp'', ''sftp'', ''rsync''] [] ''T1048'' 2,
     rule ''Cryptominer detection'' [''execve'', ''execveat'']
       []
       [''xmrig'', ''minerd'', ''minergate'', ''cpuminer'', ''ethminer''] [] ''T1496'' 3,
     rule ''Data destruction (bulk delete)'' [''execve'', ''execveat'']
       []
       [''rm'', ''shred'', ''wipe''] [] ''T1485'' 2,
     rule ''Ptrace process injection'' [''ptrace'']
       []
       [] [''gdb'', ''strace'', ''ltrace'', ''lldb''] ''T1055.008'' 3,
     rule ''Debug tool execution'' [''execve'', ''execveat'']
       []
       [''gdb'', ''strace'', ''ltrace'', ''lldb''] [] ''T1055'' 2,
     rule ''Source compilation'' [''execve'', ''execveat'']
       []
       [''gcc'', ''g++'', ''cc'', ''c++'', ''clang'', ''clang++'', ''rustc'', ''javac'', ''go''] [] ''T1027.004'' 1,
     rule ''Memfd create (fileless execution vector)'' [''memfd_create'']
       []
       [] [] ''T1620'' 3,
     rule ''Kernel-space data transfer (sendfile/splice)'' [''sendfile'', ''splice'', ''tee'', ''copy_file_range'']
       []
       [] [''nginx'', ''apache2'', ''httpd'', ''haproxy''] ''T1048'' 2,
     rule ''SSH client execution'' [''execve'', ''execveat'']
       []
       [''ssh'', ''sshpass''] [] ''T1021.004'' 2]"

definition evaluate :: "string \<Rightarrow> string \<Rightarrow> string \<Rightarrow> string list \<Rightarrow> string list \<Rightarrow> Rule list" where
  "evaluate syscall exe comm file_paths net_connections =
     filter (rule_matches syscall exe comm file_paths net_connections) RULES"

end
