(* ===== verification/Semantic.thy ===== *)
theory Semantic
  imports Mitre State
begin

text \<open>
  \<open>src/src/semantic.rs\<close>: the high-level operations of the completed actions. The code evaluates the
  rules for each executed program, each written file and each tainted process with network
  activity, in this order, and reports a match once per action, technique and process. Here the
  matches are first listed in the order of the code's loops (\<open>candidates\<close>) and then reported
  with the set \<open>seen\<close>. The text block of the receipt is in
  \<open>Receipt\<close>.
\<close>

definition CMDLINE_TRUNCATE :: nat where "CMDLINE_TRUNCATE = 70"
definition MAX_INLINE_REMOTE_ADDRS :: nat where "MAX_INLINE_REMOTE_ADDRS = 3"

record SemanticOp =
  so_description :: string
  so_mitre_id :: string
  so_severity :: nat
  so_action_id :: nat

text \<open>The cut is moved to the left to the boundary of a character, so the slice does not panic.\<close>

fun char_floor :: "string \<Rightarrow> nat \<Rightarrow> nat" where
  "char_floor s 0 = 0"
| "char_floor s (Suc n) = (if is_char_boundary s (Suc n) then Suc n else char_floor s n)"

definition truncate_str :: "string \<Rightarrow> nat \<Rightarrow> string" where
  "truncate_str s m = (if length s \<le> m then s else take (char_floor s (m - 3)) s @ ''...'')"

definition is_local_addr :: "string \<Rightarrow> bool" where
  "is_local_addr addr = list_ex (starts_with addr)
     [''127.'', ''0.0.0.0'', ''[::1]'', ''[::]'', ''unix:'', ''netlink:'', ''packet:'']"

section \<open>Candidates\<close>

text \<open>A match of a rule for a process in an action, and the description it is reported with; a match
  without one only marks the technique as seen.\<close>

record candidate =
  cd_action :: nat
  cd_pid :: u32
  cd_rule :: Rule
  cd_description :: "string option"

definition candidates_of :: "nat \<Rightarrow> u32 \<Rightarrow> (Rule \<Rightarrow> string option) \<Rightarrow> Rule list \<Rightarrow> candidate list" where
  "candidates_of aid pid describe rules =
     map (\<lambda>r. \<lparr>cd_action = aid, cd_pid = pid, cd_rule = r, cd_description = describe r\<rparr>) rules"

definition exec_candidates :: "ContainerState \<Rightarrow> ActionLog \<Rightarrow> ProcessEvent \<Rightarrow> candidate list" where
  "exec_candidates c action pe =
     (if pv_operation pe \<noteq> POExec then []
      else (let pid = pv_pid pe; info = hm_get (process_table c) pid;
                cmdline = (case info of Some i \<Rightarrow> pi_cmdline i | None \<Rightarrow> [])
            in candidates_of (al_action_id action) pid
                 (\<lambda>r. Some (if cmdline \<noteq> [] then ru_name r @ '': '' @ truncate_str cmdline CMDLINE_TRUNCATE else ru_name r))
                 (evaluate ''execve'' (pv_exe pe) (pv_comm pe)
                   (case info of Some i \<Rightarrow> pi_open_files i | None \<Rightarrow> [])
                   (case info of Some i \<Rightarrow> pi_net_connections i | None \<Rightarrow> []))))"

definition file_candidates :: "ContainerState \<Rightarrow> ActionLog \<Rightarrow> string \<Rightarrow> candidate list" where
  "file_candidates c action path =
     (case hm_get (file_nodes c) path of
        None \<Rightarrow> []
      | Some node \<Rightarrow>
          concat (map (\<lambda>(pid, a).
            let info = hm_get (process_table c) pid in
            candidates_of (al_action_id action) pid (\<lambda>r. Some (ru_name r @ '': '' @ path))
              (evaluate ''openat'' (case info of Some i \<Rightarrow> pi_exec_path i | None \<Rightarrow> [])
                (case info of Some i \<Rightarrow> pi_comm i | None \<Rightarrow> []) [path] []))
            (filter (\<lambda>(pid, a). a = al_action_id action) (fn_writers node))))"

definition remote_addrs :: "ProcessInfo \<Rightarrow> string list" where
  "remote_addrs info = filter (\<lambda>a. \<not> is_local_addr a) (List.map_filter (strip_prefix ''connect '') (pi_net_connections info))"

definition net_description :: "string list \<Rightarrow> Rule \<Rightarrow> string option" where
  "net_description remotes r =
     (if remotes = [] \<and> ru_technique_id r = ''T1071'' then None
      else if remotes = [] then Some (ru_name r)
      else if length remotes \<le> MAX_INLINE_REMOTE_ADDRS then Some (ru_name r @ '': '' @ join '', '' remotes)
      else Some (ru_name r @ '': '' @ join '', '' (take 2 remotes) @ '' +'' @ dec (length remotes - 2) @ '' more''))"

definition net_candidates :: "ContainerState \<Rightarrow> ActionLog \<Rightarrow> u32 \<Rightarrow> candidate list" where
  "net_candidates c action pid =
     (case hm_get (process_table c) pid of
        None \<Rightarrow> []
      | Some info \<Rightarrow>
          candidates_of (al_action_id action) pid (net_description (remote_addrs info))
            (evaluate ''connect'' (pi_exec_path info) (pi_comm info) (pi_open_files info) (pi_net_connections info)))"

definition action_net_pids :: "ContainerState \<Rightarrow> ActionLog \<Rightarrow> u32 list" where
  "action_net_pids c action =
     filter (\<lambda>pid. case hm_get (process_table c) pid of Some p \<Rightarrow> is_tainted p | None \<Rightarrow> False)
       (map fst (hm_keys (al_net_op_counts action)))"

definition action_candidates :: "hash_order \<Rightarrow> ContainerState \<Rightarrow> ActionLog \<Rightarrow> candidate list" where
  "action_candidates H c action =
     concat (map (exec_candidates c action) (al_process_events action)) @
     concat (map (file_candidates c action) (ord_str H (hm_keys (file_nodes c)))) @
     concat (map (net_candidates c action) (ord_pid H (action_net_pids c action)))"

section \<open>Reports\<close>

type_synonym reports = "SemanticOp list \<times> (nat \<times> string \<times> u32) list"

definition report :: "candidate \<Rightarrow> reports \<Rightarrow> reports" where
  "report d = (\<lambda>(ops, seen).
     let key = (cd_action d, ru_technique_id (cd_rule d), cd_pid d) in
     if key \<in> set seen then (ops, seen)
     else case cd_description d of
            None \<Rightarrow> (ops, key # seen)
          | Some text \<Rightarrow>
              (ops @ [\<lparr>so_description = text, so_mitre_id = ru_technique_id (cd_rule d),
                       so_severity = ru_severity (cd_rule d), so_action_id = cd_action d\<rparr>], key # seen))"

text \<open>The stable sort by severity, highest first, and then by action.\<close>

definition detect_operations :: "hash_order \<Rightarrow> ContainerState \<Rightarrow> SemanticOp list" where
  "detect_operations H c =
     sort_key (\<lambda>o1. - int (so_severity o1)) (sort_key so_action_id
       (fst (fold report (concat (map (action_candidates H c) (completed_actions c))) ([], []))))"

end
