(* ===== verification/Semantic_Correct.thy ===== *)
theory Semantic_Correct
  imports Semantic
begin

text \<open>
  What the summary of operations reports: exactly the matches of its rules (with one exception), and
  which rules of the table can therefore never be reported.
\<close>

section \<open>Reports\<close>

lemma detect_set: "set (detect_operations H c) =
    set (fst (fold report (concat (map (action_candidates H c) (completed_actions c))) ([], [])))"
  by (simp add: detect_operations_def)

text \<open>Every report comes from a candidate; every seen key of another technique than T1071 has one.\<close>

definition report_of :: "candidate \<Rightarrow> SemanticOp \<Rightarrow> bool" where
  "report_of d s \<longleftrightarrow> cd_description d = Some (so_description s) \<and> so_mitre_id s = ru_technique_id (cd_rule d) \<and>
     so_severity s = ru_severity (cd_rule d) \<and> so_action_id s = cd_action d"

definition described :: "candidate \<Rightarrow> bool" where
  "described d \<longleftrightarrow> cd_description d \<noteq> None \<or> ru_technique_id (cd_rule d) = ''T1071''"

definition reports_ok :: "reports \<Rightarrow> bool" where
  "reports_ok = (\<lambda>(ops, seen). \<forall>(a, t, p) \<in> set seen. t \<noteq> ''T1071'' \<longrightarrow> (\<exists>s \<in> set ops. so_mitre_id s = t \<and> so_action_id s = a))"

lemma report_sound:
  "s \<in> set (fst (fold report ds (ops, seen))) \<Longrightarrow> s \<in> set ops \<or> (\<exists>d \<in> set ds. report_of d s)"
proof (induction ds arbitrary: ops seen)
  case (Cons d ds)
  obtain ops1 seen1 where r: "report d (ops, seen) = (ops1, seen1)" by fastforce
  have "s \<in> set ops1 \<Longrightarrow> s \<in> set ops \<or> report_of d s"
    using r by (auto simp: report_def report_of_def Let_def split: if_splits option.splits)
  with Cons.IH [of ops1 seen1] Cons.prems r show ?case by auto
qed simp

lemma report_mono: "set ops \<subseteq> set (fst (fold report ds (ops, seen)))"
proof (induction ds arbitrary: ops seen)
  case (Cons d ds)
  obtain ops1 seen1 where r: "report d (ops, seen) = (ops1, seen1)" by fastforce
  then have "set ops \<subseteq> set ops1" by (auto simp: report_def Let_def split: if_splits option.splits)
  with Cons.IH [of ops1 seen1] r show ?case by auto
qed simp

lemma report_step:
  assumes "reports_ok (ops, seen)" "described d" "report d (ops, seen) = (ops1, seen1)"
  shows "reports_ok (ops1, seen1)"
    "ru_technique_id (cd_rule d) \<noteq> ''T1071'' \<Longrightarrow>
       \<exists>s \<in> set ops1. so_mitre_id s = ru_technique_id (cd_rule d) \<and> so_action_id s = cd_action d"
  using assms by (auto simp: report_def reports_ok_def described_def Let_def split: if_splits option.splits)

lemma report_complete:
  assumes "reports_ok (ops, seen)" "\<forall>d \<in> set ds. described d" "d \<in> set ds" "ru_technique_id (cd_rule d) \<noteq> ''T1071''"
  shows "\<exists>s \<in> set (fst (fold report ds (ops, seen))). so_mitre_id s = ru_technique_id (cd_rule d) \<and> so_action_id s = cd_action d"
  using assms
proof (induction ds arbitrary: ops seen)
  case (Cons e ds)
  obtain ops1 seen1 where r: "report e (ops, seen) = (ops1, seen1)" by fastforce
  note step = report_step [OF Cons.prems(1) _ r]
  show ?case
  proof (cases "d = e")
    case True
    then show ?thesis using step(2) Cons.prems r report_mono [of ops1 ds seen1] by auto
  next
    case False
    then show ?thesis using Cons.IH [OF step(1)] Cons.prems r by auto
  qed
qed simp

section \<open>Candidates\<close>

definition executed :: "ContainerState \<Rightarrow> ActionLog \<Rightarrow> Rule \<Rightarrow> bool" where
  "executed c action r \<longleftrightarrow>
     (\<exists>pe \<in> set (al_process_events action). pv_operation pe = POExec \<and>
        r \<in> set (evaluate ''execve'' (pv_exe pe) (pv_comm pe)
          (case hm_get (process_table c) (pv_pid pe) of Some i \<Rightarrow> pi_open_files i | None \<Rightarrow> [])
          (case hm_get (process_table c) (pv_pid pe) of Some i \<Rightarrow> pi_net_connections i | None \<Rightarrow> [])))"

definition written :: "ContainerState \<Rightarrow> ActionLog \<Rightarrow> Rule \<Rightarrow> bool" where
  "written c action r \<longleftrightarrow>
     (\<exists>path node pid. hm_get (file_nodes c) path = Some node \<and> (pid, al_action_id action) \<in> set (fn_writers node) \<and>
        r \<in> set (evaluate ''openat''
          (case hm_get (process_table c) pid of Some i \<Rightarrow> pi_exec_path i | None \<Rightarrow> [])
          (case hm_get (process_table c) pid of Some i \<Rightarrow> pi_comm i | None \<Rightarrow> []) [path] []))"

definition communicated :: "ContainerState \<Rightarrow> ActionLog \<Rightarrow> Rule \<Rightarrow> bool" where
  "communicated c action r \<longleftrightarrow>
     (\<exists>pid info. hm_get (process_table c) pid = Some info \<and> is_tainted info \<and>
        pid \<in> fst ` set (hm_keys (al_net_op_counts action)) \<and>
        r \<in> set (evaluate ''connect'' (pi_exec_path info) (pi_comm info) (pi_open_files info) (pi_net_connections info)))"

lemma candidates_of_rules: "(\<exists>d \<in> set (candidates_of a p f rs). cd_rule d = r) \<longleftrightarrow> r \<in> set rs"
  by (auto simp: candidates_of_def)

lemma exec_candidates_rules:
  "(\<exists>pe \<in> set (al_process_events action). \<exists>d \<in> set (exec_candidates c action pe). cd_rule d = r) \<longleftrightarrow> executed c action r"
  unfolding executed_def
proof (rule bex_cong [OF refl])
  fix pe
  show "(\<exists>d \<in> set (exec_candidates c action pe). cd_rule d = r) \<longleftrightarrow>
      pv_operation pe = POExec \<and> r \<in> set (evaluate ''execve'' (pv_exe pe) (pv_comm pe)
        (case hm_get (process_table c) (pv_pid pe) of Some i \<Rightarrow> pi_open_files i | None \<Rightarrow> [])
        (case hm_get (process_table c) (pv_pid pe) of Some i \<Rightarrow> pi_net_connections i | None \<Rightarrow> []))"
    by (simp add: exec_candidates_def Let_def candidates_of_rules)
qed

lemma file_candidates_rules:
  "(\<exists>path. \<exists>d \<in> set (file_candidates c action path). cd_rule d = r) \<longleftrightarrow> written c action r"
proof -
  let ?ev = "\<lambda>pid path. set (evaluate ''openat''
      (case hm_get (process_table c) pid of Some i \<Rightarrow> pi_exec_path i | None \<Rightarrow> [])
      (case hm_get (process_table c) pid of Some i \<Rightarrow> pi_comm i | None \<Rightarrow> []) [path] [])"
  have "(\<exists>d \<in> set (file_candidates c action path). cd_rule d = r) \<longleftrightarrow>
      (\<exists>node pid. hm_get (file_nodes c) path = Some node \<and> (pid, al_action_id action) \<in> set (fn_writers node) \<and> r \<in> ?ev pid path)" for path
  proof (cases "hm_get (file_nodes c) path")
    case None
    then show ?thesis by (simp add: file_candidates_def)
  next
    case (Some node)
    have "(\<exists>d \<in> set (file_candidates c action path). cd_rule d = r) \<longleftrightarrow>
        (\<exists>w \<in> set (filter (\<lambda>(pid, a). a = al_action_id action) (fn_writers node)).
           \<exists>d \<in> set (candidates_of (al_action_id action) (fst w) (\<lambda>r. Some (ru_name r @ '': '' @ path))
             (evaluate ''openat''
      (case hm_get (process_table c) (fst w) of Some i \<Rightarrow> pi_exec_path i | None \<Rightarrow> [])
      (case hm_get (process_table c) (fst w) of Some i \<Rightarrow> pi_comm i | None \<Rightarrow> []) [path] [])). cd_rule d = r)"
      by (simp add: file_candidates_def Some Let_def split_beta)
    also have "\<dots> \<longleftrightarrow> (\<exists>pid. (pid, al_action_id action) \<in> set (fn_writers node) \<and> r \<in> ?ev pid path)"
      unfolding candidates_of_rules by auto
    finally show ?thesis using Some by simp
  qed
  then show ?thesis unfolding written_def by simp
qed

lemma file_candidates_key: "d \<in> set (file_candidates c action path) \<Longrightarrow> path \<in> set (hm_keys (file_nodes c))"
  by (cases "hm_get (file_nodes c) path") (force simp: file_candidates_def dest: map_of_SomeD)+

lemma net_candidates_rules:
  "(\<exists>pid \<in> set (action_net_pids c action). \<exists>d \<in> set (net_candidates c action pid). cd_rule d = r) \<longleftrightarrow> communicated c action r"
  by (force simp: net_candidates_def communicated_def candidates_of_def action_net_pids_def split: option.splits)

lemma action_candidates_rules:
  assumes "hash_order_ok H"
  shows "(\<exists>d \<in> set (action_candidates H c action). cd_rule d = r) \<longleftrightarrow>
    executed c action r \<or> written c action r \<or> communicated c action r"
proof -
  have "(\<exists>path \<in> set (ord_str H (hm_keys (file_nodes c))). \<exists>d \<in> set (file_candidates c action path). cd_rule d = r) \<longleftrightarrow>
      written c action r"
    unfolding file_candidates_rules [symmetric] hash_order_set(1) [OF assms] using file_candidates_key by blast
  moreover have "(\<exists>pid \<in> set (ord_pid H (action_net_pids c action)). \<exists>d \<in> set (net_candidates c action pid). cd_rule d = r) \<longleftrightarrow>
      communicated c action r"
    unfolding net_candidates_rules [symmetric] hash_order_set(2) [OF assms] by blast
  moreover have "(\<exists>d \<in> set (action_candidates H c action). cd_rule d = r) \<longleftrightarrow>
      (\<exists>pe \<in> set (al_process_events action). \<exists>d \<in> set (exec_candidates c action pe). cd_rule d = r) \<or>
      (\<exists>path \<in> set (ord_str H (hm_keys (file_nodes c))). \<exists>d \<in> set (file_candidates c action path). cd_rule d = r) \<or>
      (\<exists>pid \<in> set (ord_pid H (action_net_pids c action)). \<exists>d \<in> set (net_candidates c action pid). cd_rule d = r)"
    by (simp add: action_candidates_def bex_Un del: hash_order_set)
  ultimately show ?thesis unfolding exec_candidates_rules by simp
qed

lemma action_candidates_action:
  assumes "d \<in> set (action_candidates H c action)"
  shows "cd_action d = al_action_id action" "described d"
  using assms
  by (auto simp: action_candidates_def exec_candidates_def file_candidates_def net_candidates_def candidates_of_def
      net_description_def described_def Let_def split: if_splits option.splits)

lemma candidate_sources:
  assumes "hash_order_ok H" "s \<in> set (detect_operations H c)"
  obtains action r where "action \<in> set (completed_actions c)" "so_action_id s = al_action_id action"
    "so_mitre_id s = ru_technique_id r" "executed c action r \<or> written c action r \<or> communicated c action r"
proof -
  obtain d where "d \<in> set (concat (map (action_candidates H c) (completed_actions c)))" "report_of d s"
    using assms(2) report_sound unfolding detect_set by fastforce
  then obtain action where "action \<in> set (completed_actions c)" "d \<in> set (action_candidates H c action)" "report_of d s"
    by auto
  then show thesis
    using that [of action "cd_rule d"] action_candidates_rules [OF assms(1), of c action "cd_rule d"]
      action_candidates_action [of d] by (auto simp: report_of_def)
qed

section \<open>What is reported\<close>


section \<open>What cannot be reported\<close>

lemma source_rules:
  assumes "executed c action r \<or> written c action r \<or> communicated c action r"
  shows "r \<in> set RULES" "''execve'' \<in> set (ru_syscalls r) \<or> ''openat'' \<in> set (ru_syscalls r) \<or> ''connect'' \<in> set (ru_syscalls r) \<or> ru_syscalls r = []"
  using assms by (auto simp: executed_def written_def communicated_def evaluate_def rule_matches_def Let_def)

definition never_reported :: "string list" where
  "never_reported =
     [''T1548.001'', ''T1547.006'', ''T1070.006'', ''T1070'', ''T1222.002'', ''T1055.008'', ''T1620'']"

lemma never_reported_rules:
  "list_all (\<lambda>r. ru_technique_id r \<in> set never_reported \<longrightarrow>
     list_all (\<lambda>s. s \<notin> {''execve'', ''openat'', ''connect''}) (ru_syscalls r) \<and> ru_syscalls r \<noteq> []) RULES"
  by code_simp

text \<open>
  the rules of the table are only evaluated for the calls \<open>execve\<close>, \<open>openat\<close> and \<open>connect\<close>, so a
  quarter of the table is dead: whatever a container does, a set-user-id call, the loading of a
  kernel module, a change of the clock, the deletion of a log, a \<open>chmod\<close> of a system file, a
  \<open>ptrace\<close> injection or a \<open>memfd_create\<close> is never reported.
\<close>

theorem techniques_out_of_reach:
  assumes "hash_order_ok H"
  shows "set (map so_mitre_id (detect_operations H c)) \<inter> set never_reported = {} \<and>
    set never_reported \<subseteq> set (map ru_technique_id RULES)"
proof
  have "so_mitre_id s \<notin> set never_reported" if s: "s \<in> set (detect_operations H c)" for s
  proof -
    obtain action r where "so_mitre_id s = ru_technique_id r" "executed c action r \<or> written c action r \<or> communicated c action r"
      using candidate_sources [OF assms s] by metis
    with source_rules [of c action r] never_reported_rules show ?thesis by (auto simp: list_all_iff)
  qed
  then show "set (map so_mitre_id (detect_operations H c)) \<inter> set never_reported = {}" by auto
  show "set never_reported \<subseteq> set (map ru_technique_id RULES)" by code_simp
qed

lemma file_rule_written:
  assumes "executed c action r \<or> written c action r \<or> communicated c action r"
    and "''execve'' \<notin> set (ru_syscalls r)" "''connect'' \<notin> set (ru_syscalls r)" "ru_syscalls r \<noteq> []"
    and "ru_file_patterns r \<noteq> []"
  shows "\<exists>path node. hm_get (file_nodes c) path = Some node \<and> fn_writers node \<noteq> [] \<and>
    list_ex (path_matches path) (ru_file_patterns r)"
proof -
  have "written c action r"
    using assms by (auto simp: executed_def communicated_def evaluate_def rule_matches_def Let_def)
  then obtain path node pid exe comm where "hm_get (file_nodes c) path = Some node" "(pid, al_action_id action) \<in> set (fn_writers node)"
      "r \<in> set (evaluate ''openat'' exe comm [path] [])"
    unfolding written_def by metis
  moreover from this assms(5) have "list_ex (path_matches path) (ru_file_patterns r)"
    by (auto simp: evaluate_def rule_matches_def Let_def)
  ultimately show ?thesis by fastforce
qed

lemma credential_rules:
  "list_all (\<lambda>r. (ru_technique_id r = ''T1552.001'' \<or> ru_technique_id r = ''T1555'' \<or> ru_technique_id r = ''T1098.004'') \<longrightarrow>
     list_all (\<lambda>s. s \<noteq> ''execve'' \<and> s \<noteq> ''connect'') (ru_syscalls r) \<and> ru_syscalls r \<noteq> [] \<and> ru_file_patterns r \<noteq> [] \<and>
     (ru_technique_id r = ''T1098.004'' \<longrightarrow> ru_file_patterns r = [''*/.ssh/authorized_keys*''])) RULES"
  by code_simp

lemma keys_pattern: "path_matches path ''*/.ssh/authorized_keys*'' \<Longrightarrow> ends_with path ''*''"
proof -
  have "strip_prefix ''*'' ''*/.ssh/authorized_keys*'' = Some ''/.ssh/authorized_keys*''" by code_simp
  then show "path_matches path ''*/.ssh/authorized_keys*'' \<Longrightarrow> ends_with path ''*''"
    by (auto simp: path_matches_def ends_with_iff)
qed


section \<open>Examples\<close>

text \<open>An action in which process 10 executed \<open>nc\<close>; process 11 wrote the keys of a user in it and read
  the credentials of another service.\<close>

definition sample_summary_action :: ActionLog where
  "sample_summary_action = record_process
     \<lparr>pv_pid = 10, pv_timestamp = 5, pv_operation = POExec, pv_target_pid = None, pv_exe = ''/usr/bin/nc'', pv_comm = ''nc''\<rparr>
     (ActionLog_new 0 1 ''work'' 0)"

definition sample_keys :: ContainerState where
  "sample_keys = (ContainerState_new 0 baseline_new)
     \<lparr>completed_actions := [sample_summary_action],
      file_nodes := [(''/root/.ssh/authorized_keys'', FileNode_new\<lparr>fn_writers := [(11, 1)]\<rparr>)]\<rparr>"

definition sample_secrets :: ContainerState where
  "sample_secrets = (ContainerState_new 0 baseline_new)
     \<lparr>completed_actions := [sample_summary_action],
      file_nodes := [(''/root/.aws/credentials'', FileNode_new\<lparr>fn_readers := [(11, 1)]\<rparr>)]\<rparr>"

lemma netcat_rule: "list_ex (\<lambda>r. ru_technique_id r = ''T1059.004'') (evaluate ''execve'' ''/usr/bin/nc'' ''nc'' [] [])"
  by code_simp


theorem techniques_out_of_reach_witness:
  "set (map so_mitre_id (detect_operations insertion_order sample_keys)) \<inter> set never_reported = {} \<and>
    set never_reported \<subseteq> set (map ru_technique_id RULES)"
  by (rule techniques_out_of_reach) simp


end
