(* ===== verification/Graph.thy ===== *)
theory Graph
  imports State
begin

text \<open>
  \<open>src/src/graph.rs\<close>: the functions on texts, paths and actions from which the DOT source of the
  influence graph is made: escaping, colours of actions, the filter and the shortening of paths and
  the identifiers of nodes. The documents are in theory \<open>Dot\<close>.
\<close>

definition newline :: char where "newline = CHR 0x0A"
definition quote :: char where "quote = CHR 0x22"
definition backslash :: char where "backslash = CHR 0x5C"

section \<open>Escaping\<close>

definition escape_dot :: "string \<Rightarrow> string" where
  "escape_dot s =
     replace_all [newline] [backslash, CHR ''n'']
       (replace_all [quote] [backslash, quote] (replace_all [backslash] [backslash, backslash] s))"

definition escape_html :: "string \<Rightarrow> string" where
  "escape_html s =
     replace_all [quote] ''&quot;''
       (replace_all ''>'' ''&gt;'' (replace_all ''<'' ''&lt;'' (replace_all ''&'' ''&amp;'' s)))"

section \<open>Actions\<close>

definition ACTION_COLORS :: "(string \<times> string) list" where
  "ACTION_COLORS =
     [(''#bbdefb'', ''#1565c0''), (''#c8e6c9'', ''#2e7d32''), (''#fff9c4'', ''#f9a825''),
      (''#ffccbc'', ''#d84315''), (''#e1bee7'', ''#7b1fa2''), (''#b2ebf2'', ''#00838f''),
      (''#f8bbd0'', ''#c2185b''), (''#d7ccc8'', ''#5d4037''), (''#c5cae9'', ''#283593''),
      (''#dcedc8'', ''#558b2f''), (''#ffe0b2'', ''#e65100''), (''#b3e5fc'', ''#0277bd''),
      (''#f0f4c3'', ''#9e9d24''), (''#ffcdd2'', ''#b71c1c''), (''#d1c4e9'', ''#4527a0''),
      (''#b2dfdb'', ''#00695c''), (''#ffe082'', ''#ff8f00''), (''#f3e5f5'', ''#6a1b9a''),
      (''#e0f7fa'', ''#006064''), (''#fce4ec'', ''#880e4f'')]"

definition action_color :: "nat \<Rightarrow> string \<times> string" where
  "action_color action_id =
     (if action_id = 0 then (''#e8e8e8'', ''#999999'') else ACTION_COLORS ! ((action_id - 1) mod length ACTION_COLORS))"

text \<open>The action in which a process was first seen, 0 for none.\<close>

definition find_process_action :: "ContainerState \<Rightarrow> u32 \<Rightarrow> nat" where
  "find_process_action c pid =
     (let actions = completed_actions c @ (case current_action c of Some a \<Rightarrow> [a] | None \<Rightarrow> [])
      in case find (\<lambda>a. list_ex (\<lambda>pe. pv_pid pe = pid) (al_process_events a)) actions of
           Some a \<Rightarrow> al_action_id a
         | None \<Rightarrow> 0)"

section \<open>Paths\<close>

definition skip_path :: "string \<Rightarrow> bool" where
  "skip_path path \<longleftrightarrow>
     path = [] \<or> path = ''/'' \<or>
     list_ex (starts_with path) [''/proc/'', ''/dev/'', ''/sys/''] \<or>
     contains path ''(deleted)'' \<or> contains path ''(null)'' \<or>
     list_ex (starts_with path) [''pipe:'', ''anon_inode:'', ''socket:'', ''//''] \<or>
     contains path ''/overlay2/'' \<or> contains path ''/docker/'' \<or>
     list_all is_digit path \<or>
     12 \<le> length path \<and> list_all is_hexdigit path \<or>
     list_ex (\<lambda>seg. 20 \<le> length seg \<and> list_all is_hexdigit seg) (split_char CHR ''/'' path) \<or>
     \<not> contains path ''/'' \<and> \<not> starts_with path ''.''"

definition is_sensitive_path :: "string \<Rightarrow> bool" where
  "is_sensitive_path path = list_ex (contains path) [''/etc/shadow'', ''/etc/passwd'', ''/.ssh/'', ''/etc/sudoers'']"

definition short_path :: "string \<Rightarrow> string panicking" where
  "short_path p = (if 45 < length p then str_slice p (length p - 45) (length p) else Some p)"

definition path_id :: "string \<Rightarrow> u64" where
  "path_id path = foldl (\<lambda>hash byte. hash * 33 + of_nat (bval byte)) 5381 path"

section \<open>Characterwise replacement\<close>

lemma replace_char: "replace_all [c] new s = concat (map (\<lambda>d. if d = c then new else [d]) s)"
  by (induction s) (auto simp: replace_all.simps [of "[c]"] starts_with_def)

definition dot_char :: "char \<Rightarrow> string" where
  "dot_char c = (if c = backslash then [backslash, backslash] else if c = quote then [backslash, quote]
     else if c = newline then [backslash, CHR ''n''] else [c])"

lemma concat_map_twice: "concat (map f (concat (map g s))) = concat (map (\<lambda>c. concat (map f (g c))) s)"
  by (induction s) simp_all

lemma escape_dot_chars: "escape_dot s = concat (map dot_char s)"
proof -
  have "(\<lambda>c. concat (map (\<lambda>d. if d = newline then [backslash, CHR ''n''] else [d])
      (concat (map (\<lambda>d. if d = quote then [backslash, quote] else [d]) (if c = backslash then [backslash, backslash] else [c]))))) = dot_char"
    by (rule ext) (simp add: dot_char_def newline_def quote_def backslash_def)
  then show ?thesis unfolding escape_dot_def replace_char concat_map_twice by (simp only: concat_map_twice)
qed

definition html_char :: "char \<Rightarrow> string" where
  "html_char c = (if c = CHR ''&'' then ''&amp;'' else if c = CHR ''<'' then ''&lt;'' else if c = CHR ''>'' then ''&gt;''
     else if c = quote then ''&quot;'' else [c])"

lemma escape_html_chars: "escape_html s = concat (map html_char s)"
proof -
  have "(\<lambda>c. concat (map (\<lambda>d. if d = quote then ''&quot;'' else [d])
      (concat (map (\<lambda>d. if d = CHR ''>'' then ''&gt;'' else [d])
        (concat (map (\<lambda>d. if d = CHR ''<'' then ''&lt;'' else [d]) (if c = CHR ''&'' then ''&amp;'' else [c]))))))) = html_char"
    by (rule ext) (simp add: html_char_def quote_def)
  then show ?thesis unfolding escape_html_def replace_char concat_map_twice by (simp only: concat_map_twice)
qed

section \<open>Reading the texts back\<close>

text \<open>The documented syntax of DOT: a quoted string ends at the first quote that no backslash precedes
  in its pair; the pair of backslash and quote stands for the quote, all other pairs stay. In
  a label the pair of two backslashes stands for one and a backslash with n for a line break.\<close>

fun dot_string :: "string \<Rightarrow> (string \<times> string) option" where
  "dot_string [] = None"
| "dot_string (c # s) =
     (if c = quote then Some ([], s)
      else if c = backslash
      then (case s of
              [] \<Rightarrow> None
            | d # s' \<Rightarrow> map_option (\<lambda>(t, rest). ((if d = quote then [quote] else [backslash, d]) @ t, rest)) (dot_string s'))
      else map_option (\<lambda>(t, rest). (c # t, rest)) (dot_string s))"

fun label_text :: "string \<Rightarrow> string" where
  "label_text [] = []"
| "label_text [c] = [c]"
| "label_text (c # d # s) =
     (if c = backslash then (if d = CHR ''n'' then newline else d) # label_text s else c # label_text (d # s))"

definition lexed_char :: "char \<Rightarrow> string" where
  "lexed_char c = (if c = quote then [quote] else dot_char c)"

lemma dot_string_char: "dot_string (dot_char c @ s) = map_option (\<lambda>(t, rest). (lexed_char c @ t, rest)) (dot_string s)"
  by (simp add: dot_char_def lexed_char_def newline_def quote_def backslash_def)

lemma dot_string_escaped: "dot_string (concat (map dot_char s) @ quote # rest) = Some (concat (map lexed_char s), rest)"
proof (induction s)
  case Nil
  show ?case by simp
next
  case (Cons c s)
  have "dot_string (dot_char c @ concat (map dot_char s) @ quote # rest) = Some (lexed_char c @ concat (map lexed_char s), rest)"
    unfolding dot_string_char Cons.IH by simp
  then show ?case by simp
qed

lemma label_text_char: "label_text (lexed_char c @ s) = c # label_text s"
  by (cases s) (simp_all add: lexed_char_def dot_char_def newline_def quote_def backslash_def)

lemma label_text_escaped: "label_text (concat (map lexed_char s)) = s"
  by (induction s) (simp_all add: label_text_char)


text \<open>The same for the HTML labels: no markup character is left, and the entities give the text back.\<close>

lemma escape_html_plain: "set (escape_html s) \<inter> {CHR ''<'', CHR ''>'', quote} = {}"
  by (induction s) (auto simp: escape_html_chars html_char_def quote_def)

text \<open>
  \<open>short_path\<close> cuts a path of more than 45 bytes at a byte, not at a character: it panics exactly
  if the cut falls inside a character of several bytes, and there are such paths of valid UTF-8. The
  request for the graph of a container in which such a file is shown fails.
\<close>

theorem short_path_panics:
  "(short_path p = None \<longleftrightarrow> 45 < length p \<and> is_cont (p ! (length p - 45))) \<and>
   utf8_valid (CHR ''/'' # CHR 0xC3 # CHR 0xBC # replicate 44 CHR ''a'') \<and>
   short_path (CHR ''/'' # CHR 0xC3 # CHR 0xBC # replicate 44 CHR ''a'') = None"
proof (intro conjI)
  show "short_path p = None \<longleftrightarrow> 45 < length p \<and> is_cont (p ! (length p - 45))"
    by (auto simp: short_path_def str_slice_def is_char_boundary_def)
  show "utf8_valid (CHR ''/'' # CHR 0xC3 # CHR 0xBC # replicate 44 CHR ''a'')"
    "short_path (CHR ''/'' # CHR 0xC3 # CHR 0xBC # replicate 44 CHR ''a'') = None"
    by code_simp+
qed

end
