(* ===== verification/Dot.thy ===== *)
theory Dot
  imports Graph Ingest
begin

text \<open>
  \<open>src/src/graph.rs\<close>: the DOT documents of a container (\<open>render_dot\<close>) and of an experiment
  (\<open>render_experiment_dot\<close>). A document is first built as a list of statements, one per \<open>writeln!\<close>, and
  then written out, so the text is that of the code and the statements can be reasoned about. The
  result is None where a slice of a text panics. The iteration orders of the hash maps and
  sets are those of \<open>H\<close>.
\<close>

section \<open>Markup\<close>

definition quoted :: "string \<Rightarrow> string" where
  "quoted s = quote # s @ [quote]"

definition element :: "string \<Rightarrow> (string \<times> string) list \<Rightarrow> string \<Rightarrow> string" where
  "element tag attributes body =
     ''<'' @ tag @ concat (map (\<lambda>(k, v). '' '' @ k @ ''='' @ quoted v) attributes) @ ''>'' @ body @ ''</'' @ tag @ ''>''"

text \<open>\<open>wrap_html\<close>: the result so far and the length of its last line, a piece at a time. A piece that
  does not fit is put on a new line; \<open>sep\<close> is the separator before it and \<open>kept\<close> the part of it that
  stays at the end of a broken line.\<close>

definition line_break :: string where "line_break = ''<BR/>  ''"

definition put_piece :: "nat \<Rightarrow> string \<Rightarrow> string \<Rightarrow> string \<Rightarrow> string \<times> nat \<Rightarrow> string \<times> nat" where
  "put_piece max_width kept sep piece = (\<lambda>(result, line_len).
     if max_width < line_len + 1 + length piece
     then (result @ kept @ line_break @ piece, 2 + length piece)
     else (result @ sep @ piece, line_len + 1 + length piece))"

definition put_word :: "nat \<Rightarrow> string \<Rightarrow> string \<times> nat \<Rightarrow> string \<times> nat" where
  "put_word max_width w = (\<lambda>(result, line_len).
     if 0 < line_len then put_piece max_width [] '' '' w (result, line_len) else (result @ w, length w))"

definition wrap_word :: "nat \<Rightarrow> string \<Rightarrow> string \<times> nat \<Rightarrow> string \<times> nat" where
  "wrap_word max_width w st =
     (if max_width < length w \<and> contains w ''/''
      then (case split_char CHR ''/'' w of
              [] \<Rightarrow> st
            | s # ss \<Rightarrow> fold (put_piece max_width ''/'' ''/'') ss (put_word max_width s st))
      else put_word max_width w st)"

definition wrap_html :: "string \<Rightarrow> nat \<Rightarrow> string" where
  "wrap_html s max_width =
     (let escaped = escape_html s
      in if length escaped \<le> max_width then escaped
         else fst (fold (wrap_word max_width) (split_char CHR '' '' escaped) ([], 0)))"

section \<open>Colours\<close>

text \<open>\<open>as u8\<close> on an \<open>f64\<close>: truncated and saturated.\<close>

definition f64_as_u8 :: "rat \<Rightarrow> nat" where
  "f64_as_u8 x = (if x \<le> 0 then 0 else nat (min 255 \<lfloor>x\<rfloor>))"

definition radix_or :: "nat \<Rightarrow> string \<Rightarrow> nat" where
  "radix_or d s = (case s of [a, b] \<Rightarrow> (case u8_from_hex a b of Some v \<Rightarrow> unat v | None \<Rightarrow> d) | _ \<Rightarrow> d)"

definition blend :: "rat \<Rightarrow> nat \<Rightarrow> nat" where
  "blend score c = f64_as_u8 (fadd 232 (fmul (of_nat c - 232) score))"

definition taint_gradient :: "string \<Rightarrow> rat \<Rightarrow> string panicking" where
  "taint_gradient hex0 score0 =
     (let score = (if score0 < 0 then 0 else if 1 < score0 then 1 else score0);
          hex = dropWhile (\<lambda>c. c = CHR ''#'') hex0
      in if length hex \<noteq> 6 then Some (''#'' @ hex)
         else do {
           r \<leftarrow> str_slice hex 0 2;
           g \<leftarrow> str_slice hex 2 4;
           b \<leftarrow> str_slice hex 4 6;
           Some (''#'' @ hex2 (blend score (radix_or 232 r)) @ hex2 (blend score (radix_or 232 g)) @ hex2 (blend score (radix_or 232 b)))
         })"

definition edge_color :: "rat \<Rightarrow> string" where
  "edge_color score =
     (if TAINT_THRESHOLD \<le> score
      then (let rest = hex2 (255 - f64_as_u8 (fmul score 255)) in ''#cc'' @ rest @ rest)
      else ''#cccccc'')"

section \<open>Statements\<close>

datatype dot_attr = Bare string string | Quoted string string | Html string string

datatype stmt =
    Line string
  | NodeStmt string "dot_attr list"
  | EdgeStmt string string "dot_attr list"
  | Rank "string list"

fun show_attr :: "dot_attr \<Rightarrow> string" where
  "show_attr (Bare k v) = k @ ''='' @ v"
| "show_attr (Quoted k v) = k @ ''='' @ quoted v"
| "show_attr (Html k v) = k @ ''=<'' @ v @ ''>''"

definition show_attrs :: "dot_attr list \<Rightarrow> string" where
  "show_attrs attributes = ''['' @ join '', '' (map show_attr attributes) @ '']''"

fun show_stmt :: "stmt \<Rightarrow> string" where
  "show_stmt (Line s) = s"
| "show_stmt (NodeStmt n attributes) = n @ '' '' @ show_attrs attributes @ '';''"
| "show_stmt (EdgeStmt a b attributes) = a @ '' -> '' @ b @ '' '' @ show_attrs attributes @ '';''"
| "show_stmt (Rank ns) = ''{ rank=same; '' @ join ''; '' ns @ '' }''"

text \<open>A line: its indentation and its statement.\<close>

type_synonym document = "(nat \<times> stmt) list"

definition show_document :: "document \<Rightarrow> string" where
  "show_document d = concat (map (\<lambda>(k, s). replicate k CHR '' '' @ show_stmt s @ [newline]) d)"

abbreviation blank :: "nat \<times> stmt" where
  "blank \<equiv> (0, Line [])"

section \<open>Names of nodes\<close>

definition p_name :: "u32 \<Rightarrow> string" where
  "p_name pid = ''p'' @ dec (unat pid)"

definition f_name :: "string \<Rightarrow> string" where
  "f_name path = ''f'' @ dec (unat (path_id path))"

definition n_name :: "string \<Rightarrow> string" where
  "n_name endpoint = ''n'' @ dec (unat (path_id endpoint))"

text \<open>The names of the nodes of one container are used as they are, or in the scope of its cluster.\<close>

definition top_name :: "string \<Rightarrow> string" where
  "top_name n = n"

section \<open>Parts that both documents share\<close>

definition has_cross_flow :: "FileNode \<Rightarrow> bool" where
  "has_cross_flow node =
     list_ex (\<lambda>w. list_ex (\<lambda>r. w \<noteq> r) (map fst (fn_readers node) @ map fst (fn_executors node))) (map fst (fn_writers node))"

definition only_exec :: "FileNode \<Rightarrow> bool" where
  "only_exec node \<longleftrightarrow> fn_writers node = [] \<and> fn_readers node = [] \<and> fn_deleters node = [] \<and> fn_modifiers node = [] \<and>
     fn_executors node \<noteq> []"

definition shows_file :: "string \<Rightarrow> FileNode \<Rightarrow> bool" where
  "shows_file path node \<longleftrightarrow>
     \<not> skip_path path \<and> \<not> only_exec node \<and>
     (has_cross_flow node \<or> is_sensitive_path path \<or> fn_deleters node \<noteq> [] \<or> fn_modifiers node \<noteq> [] \<or>
      fn_writers node \<noteq> [] \<and> (fn_readers node \<noteq> [] \<or> fn_executors node \<noteq> []))"

text \<open>The shown files with their nodes, in the order of the set.\<close>

definition shown_files :: "hash_order \<Rightarrow> ContainerState \<Rightarrow> (string \<times> FileNode) list" where
  "shown_files H c =
     List.map_filter (\<lambda>path. map_option (\<lambda>node. (path, node)) (hm_get (file_nodes c) path))
       (ord_str H (map fst (filter (\<lambda>(path, node). shows_file path node) (file_nodes c))))"

text \<open>The processes in the order of the map.\<close>

definition process_order :: "hash_order \<Rightarrow> ContainerState \<Rightarrow> (u32 \<times> ProcessInfo) list" where
  "process_order H c =
     List.map_filter (\<lambda>pid. map_option (\<lambda>info. (pid, info)) (hm_get (process_table c) pid)) (ord_pid H (hm_keys (process_table c)))"

text \<open>\<open>sort_by\<close> on the scores, highest first; the sort is stable.\<close>

definition by_taint :: "(u32 \<times> ProcessInfo) list \<Rightarrow> (u32 \<times> ProcessInfo) list" where
  "by_taint = sort_key (\<lambda>(pid, info). - pi_taint_score info)"

definition max_nodes :: nat where "max_nodes = 50"

definition file_fill :: "string \<Rightarrow> FileNode \<Rightarrow> string" where
  "file_fill path node =
     (if is_sensitive_path path then ''#ffcdd2''
      else if fn_executors node \<noteq> [] then ''#ffe0b2''
      else if fn_deleters node \<noteq> [] then ''#ef9a9a''
      else ''#e3f2fd'')"

definition file_stmt :: "(string \<Rightarrow> string) \<Rightarrow> string \<times> FileNode \<Rightarrow> stmt panicking" where
  "file_stmt scope = (\<lambda>(path, node). do {
     short \<leftarrow> short_path path;
     Some (NodeStmt (scope (f_name path))
       [Bare ''shape'' ''ellipse'', Quoted ''label'' (escape_dot short), Quoted ''fillcolor'' (file_fill path node),
        Bare ''style'' ''filled'', Quoted ''color'' ''#666666''])
   })"

datatype direction = Connect | Listen

definition connection :: "string \<Rightarrow> (direction \<times> string) option" where
  "connection conn =
     (case strip_prefix ''connect '' conn of
        Some a \<Rightarrow> Some (Connect, a)
      | None \<Rightarrow> (case strip_prefix ''listen '' conn of Some a \<Rightarrow> Some (Listen, a) | None \<Rightarrow> None))"

definition net_endpoints :: "hash_order \<Rightarrow> ContainerState \<Rightarrow> (string, (u32 \<times> direction) list) hashmap" where
  "net_endpoints H c =
     fold (\<lambda>(pid, info). fold (\<lambda>conn m. case connection conn of Some (d, a) \<Rightarrow> hm_push a (pid, d) m | None \<Rightarrow> m)
             (pi_net_connections info))
       (process_order H c) []"

definition any_address :: "string \<Rightarrow> bool" where
  "any_address endpoint \<longleftrightarrow> starts_with endpoint ''0.0.0.0:'' \<or> starts_with endpoint ''[::]:''"

text \<open>The endpoints that are drawn, with their processes.\<close>

definition shown_endpoints :: "hash_order \<Rightarrow> ContainerState \<Rightarrow> (string \<times> (u32 \<times> direction) list) list" where
  "shown_endpoints H c =
     (let m = net_endpoints H c
      in map (\<lambda>endpoint. (endpoint, hm_list m endpoint)) (filter (\<lambda>endpoint. \<not> any_address endpoint) (ord_str H (hm_keys m))))"

definition endpoint_stmt :: "(string \<Rightarrow> string) \<Rightarrow> string \<Rightarrow> stmt" where
  "endpoint_stmt scope endpoint =
     NodeStmt (scope (n_name endpoint))
       [Bare ''shape'' ''diamond'', Quoted ''label'' (escape_dot endpoint), Quoted ''fillcolor'' ''#ffe0e0'',
        Bare ''style'' ''filled'', Quoted ''color'' ''#cc0000'']"

definition fork_stmt :: "(string \<Rightarrow> string) \<Rightarrow> ContainerState \<Rightarrow> TaintEdge \<Rightarrow> stmt" where
  "fork_stmt scope c edge =
     (let color = edge_color (taint_score (process_table c) (te_source_pid edge))
      in EdgeStmt (scope (p_name (te_source_pid edge))) (scope (p_name (te_target_pid edge)))
           [Quoted ''label'' (escape_dot (show_ChannelType (te_channel_type edge))), Quoted ''color'' color,
            Quoted ''fontcolor'' color, Bare ''style'' ''dashed'', Bare ''penwidth'' ''1.0''])"

definition coloured :: "string \<Rightarrow> string \<Rightarrow> dot_attr list" where
  "coloured label color = [Quoted ''label'' label, Quoted ''color'' color, Quoted ''fontcolor'' color]"

text \<open>The edges of writers, readers and executors, in both documents.\<close>

definition flow_stmts :: "(string \<Rightarrow> string) \<Rightarrow> (u32 \<Rightarrow> bool) \<Rightarrow> string \<times> FileNode \<Rightarrow> stmt list" where
  "flow_stmts scope shown = (\<lambda>(path, node).
     (let f = scope (f_name path); p = (\<lambda>e. scope (p_name (fst e))); known = filter (\<lambda>e. shown (fst e))
      in map (\<lambda>e. EdgeStmt (p e) f (coloured ''write'' ''#2e7d32'' @ [Bare ''penwidth'' ''1.5''])) (known (fn_writers node)) @
         map (\<lambda>e. EdgeStmt f (p e) (coloured ''read'' ''#1565c0'')) (known (fn_readers node)) @
         map (\<lambda>e. EdgeStmt f (p e) (coloured ''exec'' ''#e65100'' @ [Bare ''penwidth'' ''2.0'', Bare ''style'' ''bold'']))
           (known (fn_executors node))))"

definition net_stmts :: "(string \<Rightarrow> string) \<Rightarrow> (u32 \<Rightarrow> bool) \<Rightarrow> string \<times> (u32 \<times> direction) list \<Rightarrow> stmt list" where
  "net_stmts scope shown = (\<lambda>(endpoint, procs).
     map (\<lambda>(pid, d).
         case d of
           Connect \<Rightarrow> EdgeStmt (scope (p_name pid)) (scope (n_name endpoint)) (coloured ''connect'' ''#cc0000'' @ [Bare ''penwidth'' ''1.5''])
         | Listen \<Rightarrow> EdgeStmt (scope (n_name endpoint)) (scope (p_name pid)) (coloured ''listen'' ''#0d47a1''))
       (filter (\<lambda>(pid, d). shown pid) procs))"

definition legend_row :: "nat \<times> string \<Rightarrow> string panicking" where
  "legend_row = (\<lambda>(action_id, command). do {
     cmd_short \<leftarrow> (if 30 < length command then str_slice command 0 30 else Some command);
     Some (element ''TR'' [] (element ''TD'' [(''BGCOLOR'', fst (action_color action_id))]
       (''Action #'' @ dec action_id @ '': '' @ escape_html cmd_short)))
   })"

definition legend :: "(nat \<times> string) list \<Rightarrow> document panicking" where
  "legend actions = do {
     rows \<leftarrow> those (map legend_row actions);
     Some ([(2, Line ''subgraph cluster_legend {''),
            (4, Line (''label='' @ quoted ''Legend'' @ ''; style=rounded; color='' @ quoted ''#cccccc'' @ ''; fontsize=10;'')),
            (4, Line ''node [shape=plaintext, fontsize=8];'')] @
           (if rows = [] then []
            else [(4, NodeStmt ''legend''
                       [Html ''label'' (element ''TABLE'' [(''BORDER'', ''0''), (''CELLBORDER'', ''1''), (''CELLSPACING'', ''0'')]
                          (concat rows))])]) @
           [(2, Line ''}'')])
   }"

definition table_attributes :: "string \<Rightarrow> string \<Rightarrow> (string \<times> string) list" where
  "table_attributes fill border =
     [(''BORDER'', ''1''), (''CELLBORDER'', ''0''), (''CELLSPACING'', ''2''), (''CELLPADDING'', ''4''), (''BGCOLOR'', fill),
      (''COLOR'', border), (''STYLE'', ''ROUNDED'')]"

definition cell :: "string \<Rightarrow> string" where
  "cell r = element ''TR'' [] (element ''TD'' [(''ALIGN'', ''LEFT'')] r)"

definition grey_text :: "string \<Rightarrow> string" where
  "grey_text s = element ''FONT'' [(''POINT-SIZE'', ''7''), (''COLOR'', ''#666666'')] s"

definition dollar_text :: "string \<Rightarrow> string" where
  "dollar_text s = element ''FONT'' [(''POINT-SIZE'', ''8'')] (''$ '' @ s)"

section \<open>The graph of a container\<close>

definition shown_command :: "ProcessInfo \<Rightarrow> string option" where
  "shown_command info =
     (if pi_cmdline info \<noteq> [] \<and> \<not> starts_with (pi_cmdline info) ''runc'' then Some (pi_cmdline info)
      else if pi_exec_path info \<noteq> [] \<and> \<not> starts_with (pi_exec_path info) ''/runc'' then Some (pi_exec_path info)
      else None)"

definition process_stmt :: "ContainerState \<Rightarrow> u32 \<times> ProcessInfo \<Rightarrow> stmt panicking" where
  "process_stmt c = (\<lambda>(pid, info).
     (let action_id = find_process_action c pid;
          comm = decode_comm (if pi_comm info \<noteq> [] then pi_comm info else ''?'');
          rows = [element ''B'' [] (escape_html comm)] @
                 (case shown_command info of Some cmd \<Rightarrow> [dollar_text (wrap_html cmd 40)] | None \<Rightarrow> []) @
                 [grey_text (escape_html (''pid '' @ dec (unat pid) @ '' | action #'' @ dec action_id))] @
                 (if pi_exited info then [grey_text ''(exited)''] else [])
      in do {
        fill \<leftarrow> (if is_tainted info then taint_gradient (fst (action_color action_id)) (pi_taint_score info) else Some ''#e8e8e8'');
        Some (NodeStmt (p_name pid)
          [Bare ''shape'' ''plaintext'',
           Html ''label'' (element ''TABLE''
             (table_attributes fill (if is_tainted info then snd (action_color action_id) else ''#999999''))
             (concat (map cell rows)))])
      }))"

text \<open>Processes whose parent is unknown, unless they are the entry point of the container.\<close>

definition exec_entry :: "ContainerState \<Rightarrow> ProcessInfo \<Rightarrow> bool" where
  "exec_entry c info \<longleftrightarrow>
     pi_ppid info \<noteq> 0 \<and> \<not> hm_contains (process_table c) (pi_ppid info) \<and> pi_taint_source info \<noteq> ''container entry point''"

definition other_flow_stmts :: "(u32 \<Rightarrow> bool) \<Rightarrow> string \<times> FileNode \<Rightarrow> stmt list" where
  "other_flow_stmts shown = (\<lambda>(path, node).
     (let f = f_name path; p = (\<lambda>e. p_name (fst e)); known = filter (\<lambda>e. shown (fst e))
      in map (\<lambda>e. EdgeStmt (p e) f (coloured ''delete'' ''#b71c1c'' @ [Bare ''style'' ''dotted''])) (known (fn_deleters node)) @
         map (\<lambda>e. EdgeStmt (p e) f (coloured ''chmod'' ''#6a1b9a'')) (known (fn_modifiers node))))"

definition render_stmts :: "hash_order \<Rightarrow> ContainerState \<Rightarrow> document panicking" where
  "render_stmts H c =
     (let process_list = by_taint (process_order H c);
          files = shown_files H c;
          endpoints = shown_endpoints H c;
          known = hm_contains (process_table c);
          entries = map fst (filter (\<lambda>(pid, info). exec_entry c info) (process_order H c));
          indented = map (\<lambda>s. (2::nat, s))
      in do {
        processes \<leftarrow> those (map (process_stmt c) (take max_nodes process_list));
        file_nodes \<leftarrow> those (map (file_stmt top_name) files);
        key \<leftarrow> legend (map (\<lambda>a. (al_action_id a, al_command a)) (completed_actions c));
        Some ([(0, Line ''digraph syscon {''), (2, Line ''rankdir=LR;''),
               (2, Line (''bgcolor='' @ quoted ''#fafafa'' @ '';'')), (2, Line ''newrank=true;''),
               (2, Line (''node [fontname='' @ quoted ''monospace'' @ '', fontsize=9, margin='' @ quoted ''0.15,0.1'' @ ''];'')),
               (2, Line (''edge [fontname='' @ quoted ''monospace'' @ '', fontsize=8];'')),
               (2, Line ''graph [nodesep=0.4, ranksep=0.6];''), blank] @
              (if max_nodes < length process_list
               then [(2, Line (''// Showing top '' @ dec max_nodes @ '' of '' @ dec (length process_list) @ '' processes (by taint score)''))]
               else []) @
              [(2, Line ''// Process nodes'')] @ indented processes @
              (if 1 < length entries then [(2, Rank (map p_name entries))] else []) @
              [blank, (2, Line ''// File nodes (data flow mediators)'')] @ indented file_nodes @
              [blank, (2, Line ''// Network endpoints'')] @ indented (map (\<lambda>e. endpoint_stmt top_name (fst e)) endpoints) @
              [blank, (2, Line ''// Fork/spawn edges'')] @ indented (map (fork_stmt top_name c) (tg_edges (taint_graph c))) @
              [blank, (2, Line ''// Data flow edges'')] @
              indented (concat (map (\<lambda>f. flow_stmts top_name known f @ other_flow_stmts known f) files)) @
              [(2, Line ''// Network edges'')] @ indented (concat (map (net_stmts top_name known) endpoints)) @
              [blank, (2, Line ''// Legend'')] @ key @ [(0, Line ''}'')])
      })"

definition render_dot :: "hash_order \<Rightarrow> ContainerState \<Rightarrow> string panicking" where
  "render_dot H c = map_option show_document (render_stmts H c)"


section \<open>The graph of an experiment\<close>

definition c_name :: "nat \<Rightarrow> string \<Rightarrow> string" where
  "c_name idx n = ''c'' @ dec idx @ n"

definition listen_name :: "nat \<Rightarrow> string \<Rightarrow> string" where
  "listen_name idx port = ''c'' @ dec idx @ ''listen_'' @ dec (unat (path_id (''0.0.0.0:'' @ port)))"

text \<open>The processes of a cluster: the tainted ones, at most \<open>max_nodes\<close>.\<close>

definition cluster_processes :: "hash_order \<Rightarrow> ContainerState \<Rightarrow> (u32 \<times> ProcessInfo) list" where
  "cluster_processes H c = take max_nodes (by_taint (filter (\<lambda>(pid, info). is_tainted info) (process_order H c)))"

definition cluster_process_stmt :: "nat \<Rightarrow> ContainerState \<Rightarrow> u32 \<times> ProcessInfo \<Rightarrow> stmt panicking" where
  "cluster_process_stmt idx c = (\<lambda>(pid, info).
     (let action_id = find_process_action c pid
      in do {
        fill \<leftarrow> taint_gradient (fst (action_color action_id)) (pi_taint_score info);
        cmd_short \<leftarrow> (if 40 < length (pi_cmdline info)
                      then map_option (\<lambda>s. s @ ''...'') (str_slice (pi_cmdline info) 0 40) else Some (pi_cmdline info));
        Some (NodeStmt (c_name idx (p_name pid))
          [Bare ''shape'' ''plaintext'',
           Html ''label'' (element ''TABLE'' (table_attributes fill (snd (action_color action_id)))
             (cell (element ''B'' [] (escape_html (decode_comm (pi_comm info)))) @ cell (dollar_text (escape_html cmd_short)) @
              cell (grey_text (''pid '' @ dec (unat pid) @ '' | action #'' @ dec action_id))))])
      }))"

definition cluster :: "hash_order \<Rightarrow> nat \<Rightarrow> string \<Rightarrow> ContainerState \<Rightarrow> document panicking" where
  "cluster H idx cid c =
     (let procs = cluster_processes H c;
          shown = (\<lambda>pid. pid \<in> set (map fst procs));
          files = shown_files H c;
          endpoints = shown_endpoints H c;
          indented = map (\<lambda>s. (4::nat, s))
      in do {
        short \<leftarrow> str_slice cid 0 (min (length cid) 12);
        processes \<leftarrow> those (map (cluster_process_stmt idx c) procs);
        file_nodes \<leftarrow> those (map (file_stmt (c_name idx)) files);
        Some ([(2, Line (''subgraph cluster_'' @ dec idx @ '' {'')), (4, Line (''label='' @ quoted (''Container '' @ short) @ '';'')),
               (4, Line (''style=rounded; color='' @ quoted ''#666666'' @ ''; fontsize=10;'')), blank] @
              indented processes @ indented file_nodes @
              indented (map (\<lambda>e. endpoint_stmt (c_name idx) (fst e)) endpoints) @
              indented (map (fork_stmt (c_name idx) c)
                (filter (\<lambda>e. shown (te_source_pid e) \<and> shown (te_target_pid e)) (tg_edges (taint_graph c)))) @
              indented (concat (map (flow_stmts (c_name idx) shown) files)) @
              indented (concat (map (net_stmts (c_name idx) shown) endpoints)) @
              [(2, Line ''}''), blank])
      })"

fun index_of :: "'a \<Rightarrow> 'a list \<Rightarrow> nat option" where
  "index_of x [] = None"
| "index_of x (y # ys) = (if y = x then Some 0 else map_option Suc (index_of x ys))"

text \<open>The edges between clusters: a connection to an address that belongs to another container of the
  experiment.\<close>

definition cross_stmt :: "DaemonState \<Rightarrow> string list \<Rightarrow> nat \<Rightarrow> ProcessInfo \<Rightarrow> string \<Rightarrow> stmt option" where
  "cross_stmt d ids idx_a info conn = do {
     addr \<leftarrow> strip_prefix ''connect '' conn;
     (ip_str, port) \<leftarrow> rsplit_once CHR '':'' addr;
     ip \<leftarrow> parse_ipv4 ip_str;
     target_cid \<leftarrow> hm_get (ip_to_container d) ip;
     idx_b \<leftarrow> index_of target_cid ids;
     if idx_a = idx_b then None
     else Some (EdgeStmt (c_name idx_a (p_name (pi_pid info))) (listen_name idx_b port)
       [Quoted ''label'' (escape_dot addr), Quoted ''color'' ''#d32f2f'', Bare ''penwidth'' ''2.0'', Bare ''style'' ''bold''])
   }"

definition cross_stmts :: "hash_order \<Rightarrow> DaemonState \<Rightarrow> string list \<Rightarrow> stmt list" where
  "cross_stmts H d ids =
     concat (map (\<lambda>(idx_a, cid_a).
       case hm_get (containers d) cid_a of
         None \<Rightarrow> []
       | Some c \<Rightarrow>
           concat (map (\<lambda>(pid, info).
             if is_tainted info then List.map_filter (cross_stmt d ids idx_a info) (pi_net_connections info) else [])
             (process_order H c))) (List.enumerate 0 ids))"

text \<open>The actions of the legend: the first one with each number, over all containers.\<close>

definition legend_actions :: "DaemonState \<Rightarrow> string list \<Rightarrow> (nat \<times> string) list" where
  "legend_actions d ids =
     sort_key fst (fold (\<lambda>cid acts.
       case hm_get (containers d) cid of
         None \<Rightarrow> acts
       | Some c \<Rightarrow> fold (\<lambda>a acts. if al_action_id a = 0 \<or> al_action_id a \<in> fst ` set acts then acts
                                 else acts @ [(al_action_id a, al_command a)]) (completed_actions c) acts) ids [])"

definition render_experiment_stmts :: "hash_order \<Rightarrow> DaemonState \<Rightarrow> Experiment \<Rightarrow> document panicking" where
  "render_experiment_stmts H d ex =
     (let ids = ex_container_ids ex
      in do {
        clusters \<leftarrow> those (map (\<lambda>(idx, cid). case hm_get (containers d) cid of None \<Rightarrow> Some [] | Some c \<Rightarrow> cluster H idx cid c)
                           (List.enumerate 0 ids));
        key \<leftarrow> legend (legend_actions d ids);
        Some ([(0, Line ''digraph experiment {''), (2, Line ''rankdir=LR;''),
               (2, Line (''bgcolor='' @ quoted ''#fafafa'' @ '';'')), (2, Line ''compound=true;''),
               (2, Line (''node [fontname='' @ quoted ''monospace'' @ '', fontsize=9, margin='' @ quoted ''0.15,0.1'' @ ''];'')),
               (2, Line (''edge [fontname='' @ quoted ''monospace'' @ '', fontsize=8];'')), blank] @
              concat clusters @ map (\<lambda>s. (2, s)) (cross_stmts H d ids) @ [blank] @ key @ [(0, Line ''}'')])
      })"

definition render_experiment_dot :: "hash_order \<Rightarrow> DaemonState \<Rightarrow> Experiment \<Rightarrow> string panicking" where
  "render_experiment_dot H d ex = map_option show_document (render_experiment_stmts H d ex)"


section \<open>The requests for graphs\<close>

datatype graph_answer = PlainText string | DotText string

definition influence_graph :: "hash_order \<Rightarrow> string \<Rightarrow> DaemonState \<Rightarrow> graph_answer panicking" where
  "influence_graph H i d =
     (case hm_get (containers d) i of
        None \<Rightarrow> Some (PlainText (''unknown container: '' @ i))
      | Some c \<Rightarrow> map_option DotText (render_dot H c))"

definition influence_graph_dot :: "hash_order \<Rightarrow> string \<Rightarrow> DaemonState \<Rightarrow> graph_answer panicking" where
  "influence_graph_dot H i d =
     (case hm_get (containers d) i of
        None \<Rightarrow> Some (PlainText (''unknown container: '' @ i))
      | Some c \<Rightarrow> map_option DotText (render_dot H c))"

definition experiment_graph :: "hash_order \<Rightarrow> string \<Rightarrow> DaemonState \<Rightarrow> graph_answer panicking" where
  "experiment_graph H i d =
     (case hm_get (experiments d) i of
        None \<Rightarrow> Some (PlainText (''experiment not found: '' @ i))
      | Some ex \<Rightarrow> map_option DotText (render_experiment_dot H d ex))"


end
