(* ===== verification/Dot_Correct.thy ===== *)
theory Dot_Correct
  imports Dot
begin

text \<open>
  Properties of the DOT documents: the wrapping of a text keeps it, and which ends of edges
  are declared nodes.
\<close>

section \<open>Wrapping\<close>

abbreviation no_space :: "string \<Rightarrow> string" where
  "no_space \<equiv> filter (\<lambda>c. c \<noteq> CHR '' '')"

text \<open>The state of the loop: the lines so far, the last of which is not longer than the counter, and
  the text that they hold.\<close>

definition wrapped :: "nat \<Rightarrow> bool \<Rightarrow> string \<Rightarrow> string \<times> nat \<Rightarrow> bool" where
  "wrapped m fits t st \<longleftrightarrow>
     (\<exists>ls l. fst st = join line_break (ls @ [l]) \<and> length l \<le> snd st \<and> no_space (concat (ls @ [l])) = no_space t \<and>
        (fits \<longrightarrow> length l \<le> m \<and> (\<forall>k \<in> set ls. length k \<le> m + 1)))"

lemma join_snoc: "join sep (ls @ [l]) @ t = join sep (ls @ [l @ t])"
  by (induction ls) (simp_all add: join_Cons)

lemma join_break: "join sep (ls @ [l]) @ sep @ t = join sep (ls @ [l, t])"
  by (induction ls) (simp_all add: join_Cons)

lemma put_piece_wrapped:
  assumes "wrapped m fits t st" "fits \<longrightarrow> length piece \<le> m"
    and "kept = [] \<and> sep = '' '' \<or> kept = ''/'' \<and> sep = ''/''"
  shows "wrapped m fits (t @ (if sep = '' '' then [] else sep) @ piece) (put_piece m kept sep piece st)"
proof -
  obtain r n where st: "st = (r, n)" by (cases st)
  obtain ls l where w: "r = join line_break (ls @ [l])" "length l \<le> n" "no_space (concat (ls @ [l])) = no_space t"
      "fits \<longrightarrow> length l \<le> m \<and> (\<forall>k \<in> set ls. length k \<le> m + 1)"
    using assms(1) unfolding wrapped_def st by auto
  show ?thesis
  proof (cases "m < n + 1 + length piece")
    case True
    have "r @ kept @ line_break @ piece = join line_break ((ls @ [l @ kept]) @ [piece])"
      using join_break [of line_break ls "l @ kept" piece] join_snoc [of line_break ls l kept] w(1)
      by (metis append_assoc append_Cons append_Nil)
    moreover have "fits \<longrightarrow> length piece \<le> m \<and> (\<forall>k \<in> set (ls @ [l @ kept]). length k \<le> m + 1)"
      using w(4) assms(2,3) by auto
    moreover have "no_space (concat ((ls @ [l @ kept]) @ [piece])) = no_space (t @ (if sep = '' '' then [] else sep) @ piece)"
      using w(3) assms(3) by auto
    moreover have "put_piece m kept sep piece st = (r @ kept @ line_break @ piece, 2 + length piece)"
      using True by (simp add: put_piece_def st)
    ultimately show ?thesis unfolding wrapped_def by (metis fst_conv snd_conv le_add2)
  next
    case False
    have "r @ sep @ piece = join line_break (ls @ [l @ sep @ piece])"
      using join_snoc [of line_break ls l "sep @ piece"] w(1) by simp
    moreover have len: "length (l @ sep @ piece) \<le> n + 1 + length piece" using w(2) assms(3) by auto
    moreover have "fits \<longrightarrow> length (l @ sep @ piece) \<le> m \<and> (\<forall>k \<in> set ls. length k \<le> m + 1)"
      using w(4) len False by auto
    moreover have "no_space (concat (ls @ [l @ sep @ piece])) = no_space (t @ (if sep = '' '' then [] else sep) @ piece)"
      using w(3) assms(3) by auto
    moreover have "put_piece m kept sep piece st = (r @ sep @ piece, n + 1 + length piece)"
      using False by (simp add: put_piece_def st)
    ultimately show ?thesis unfolding wrapped_def by (metis fst_conv snd_conv)
  qed
qed

lemma put_word_wrapped:
  assumes "wrapped m fits t st" "fits \<longrightarrow> length w \<le> m"
  shows "wrapped m fits (t @ w) (put_word m w st)"
proof -
  obtain r n where st: "st = (r, n)" by (cases st)
  show ?thesis
  proof (cases "0 < n")
    case True
    then show ?thesis using put_piece_wrapped [OF assms, of "[]" "'' ''"] by (simp add: put_word_def st)
  next
    case False
    then obtain ls where w: "r = join line_break (ls @ [[]])" "no_space (concat ls) = no_space t"
        "fits \<longrightarrow> (\<forall>k \<in> set ls. length k \<le> m + 1)"
      using assms(1) unfolding wrapped_def st by auto
    have "r @ w = join line_break (ls @ [w])" using join_snoc [of line_break ls "[]" w] w(1) by simp
    with w assms(2) False show ?thesis
      by (auto simp: wrapped_def put_word_def st intro!: exI [of _ ls] exI [of _ w])
  qed
qed

lemma put_pieces_wrapped:
  assumes "wrapped m fits t st" "fits \<longrightarrow> (\<forall>s \<in> set ss. length s \<le> m)"
  shows "wrapped m fits (t @ concat (map (\<lambda>s. ''/'' @ s) ss)) (fold (put_piece m ''/'' ''/'') ss st)"
  using assms
proof (induction ss arbitrary: t st)
  case (Cons s ss)
  from put_piece_wrapped [OF Cons.prems(1), of s "''/''" "''/''"] Cons.prems(2)
  have "wrapped m fits (t @ ''/'' @ s) (put_piece m ''/'' ''/'' s st)" by simp
  from Cons.IH [OF this] Cons.prems(2) show ?case by simp
qed simp

text \<open>The pieces of a word: itself, or its segments if it is a long path.\<close>

definition pieces :: "nat \<Rightarrow> string \<Rightarrow> string list" where
  "pieces m w = (if m < length w \<and> contains w ''/'' then split_char CHR ''/'' w else [w])"

lemma join_concat: "join sep (s # ss) = s @ concat (map (\<lambda>t. sep @ t) ss)"
  by (induction ss arbitrary: s) simp_all

lemma wrap_word_wrapped:
  assumes "wrapped m fits t st" "fits \<longrightarrow> (\<forall>p \<in> set (pieces m w). length p \<le> m)"
  shows "wrapped m fits (t @ w) (wrap_word m w st)"
proof (cases "m < length w \<and> contains w ''/''")
  case True
  obtain s ss where sp: "split_char CHR ''/'' w = s # ss" by (meson neq_Nil_conv split_char_nonempty)
  then have w: "w = s @ concat (map (\<lambda>s. ''/'' @ s) ss)" using join_split_char [of "CHR ''/''" w] by (simp only: join_concat)
  have fit: "fits \<longrightarrow> length s \<le> m" "fits \<longrightarrow> (\<forall>s \<in> set ss. length s \<le> m)"
    using assms(2) True by (auto simp: pieces_def sp)
  have "wrap_word m w st = fold (put_piece m ''/'' ''/'') ss (put_word m s st)"
    using True by (simp add: wrap_word_def sp)
  then show ?thesis
    using put_pieces_wrapped [OF put_word_wrapped [OF assms(1) fit(1)] fit(2)] by (subst w) (simp only: append_assoc)
next
  case False
  then have "wrap_word m w st = put_word m w st" "pieces m w = [w]" by (auto simp: wrap_word_def pieces_def)
  with put_word_wrapped [OF assms(1), of w] assms(2) show ?thesis by simp
qed

lemma wrap_words_wrapped:
  assumes "wrapped m fits t st" "fits \<longrightarrow> (\<forall>w \<in> set ws. \<forall>p \<in> set (pieces m w). length p \<le> m)"
  shows "wrapped m fits (t @ concat ws) (fold (wrap_word m) ws st)"
  using assms
proof (induction ws arbitrary: t st)
  case (Cons w ws)
  from wrap_word_wrapped [OF Cons.prems(1), of w] Cons.prems(2)
  have "wrapped m fits (t @ w) (wrap_word m w st)" by simp
  from Cons.IH [OF this] Cons.prems(2) show ?case by simp
qed simp

lemma no_space_words: "no_space (concat (split_char CHR '' '' s)) = no_space s"
proof -
  have "no_space (join '' '' ws) = no_space (concat ws)" for ws
    by (induction "'' '' :: string" ws rule: join.induct) simp_all
  then show ?thesis using join_split_char [of "CHR '' ''" s] by metis
qed

text \<open>
  Wrapping a text for an HTML label only inserts line breaks: joined without the breaks and the
  spaces, the lines are the escaped text, and no line is longer than the width by more than
  the slash at its end, unless a word or a segment of a path alone is wider.
\<close>

theorem wrap_html_keeps_text:
  "\<exists>ls. wrap_html s m = join line_break ls \<and> no_space (concat ls) = no_space (escape_html s) \<and>
     ((\<forall>w \<in> set (split_char CHR '' '' (escape_html s)). \<forall>p \<in> set (pieces m w). length p \<le> m) \<longrightarrow>
        (\<forall>l \<in> set ls. length l \<le> m + 1))"
proof (cases "length (escape_html s) \<le> m")
  case True
  then show ?thesis by (intro exI [of _ "[escape_html s]"]) (simp add: wrap_html_def)
next
  case False
  define ws where "ws = split_char CHR '' '' (escape_html s)"
  define fits where "fits = (\<forall>w \<in> set ws. \<forall>p \<in> set (pieces m w). length p \<le> m)"
  have "wrapped m fits [] ([], 0)" unfolding wrapped_def by (rule exI [of _ "[]"]) simp
  from wrap_words_wrapped [OF this, of ws] obtain ls l where
    "wrap_html s m = join line_break (ls @ [l])" "no_space (concat (ls @ [l])) = no_space (concat ws)"
    "fits \<longrightarrow> (\<forall>k \<in> set (ls @ [l]). length k \<le> m + 1)"
    using False unfolding fits_def [symmetric] wrapped_def by (auto simp: wrap_html_def Let_def ws_def [symmetric])
  then show ?thesis unfolding ws_def no_space_words fits_def by blast
qed

lemma wrap_html_keeps_text_witness:
  "\<exists>ls. wrap_html ''ab cd ef gh'' 5 = join line_break ls \<and> no_space (concat ls) = ''abcdefgh'' \<and> (\<forall>l \<in> set ls. length l \<le> 6)"
proof -
  have "escape_html ''ab cd ef gh'' = ''ab cd ef gh''" by code_simp
  moreover have "split_char CHR '' '' ''ab cd ef gh'' = [''ab'', ''cd'', ''ef'', ''gh'']" by simp
  ultimately show ?thesis using wrap_html_keeps_text [of "''ab cd ef gh''" 5] by (simp add: pieces_def)
qed

section \<open>Nodes and edges of a document\<close>

fun node_of :: "stmt \<Rightarrow> string set" where
  "node_of (NodeStmt n attributes) = {n}"
| "node_of s = {}"

fun edge_of :: "stmt \<Rightarrow> (string \<times> string) set" where
  "edge_of (EdgeStmt a b attributes) = {(a, b)}"
| "edge_of s = {}"

definition declared :: "document \<Rightarrow> string set" where
  "declared d = (\<Union>l \<in> set d. node_of (snd l))"

definition edges :: "document \<Rightarrow> (string \<times> string) set" where
  "edges d = (\<Union>l \<in> set d. edge_of (snd l))"

lemma document_simps [simp]:
  "declared [] = {}" "declared (l # d) = node_of (snd l) \<union> declared d" "declared (d @ e) = declared d \<union> declared e"
  "declared (concat ds) = (\<Union>d \<in> set ds. declared d)" "declared (map (\<lambda>s. (k, s)) ss) = (\<Union>s \<in> set ss. node_of s)"
  "edges [] = {}" "edges (l # d) = edge_of (snd l) \<union> edges d" "edges (d @ e) = edges d \<union> edges e"
  "edges (concat ds) = (\<Union>d \<in> set ds. edges d)" "edges (map (\<lambda>s. (k, s)) ss) = (\<Union>s \<in> set ss. edge_of s)"
  by (auto simp: declared_def edges_def)

lemma those_nodes:
  assumes "those (map f xs) = Some ys" "\<And>x y. f x = Some y \<Longrightarrow> node_of y = {g x} \<and> edge_of y = {}"
  shows "(\<Union>y \<in> set ys. node_of y) = g ` set xs \<and> (\<Union>y \<in> set ys. edge_of y) = {}"
  using assms(1)
proof (induction xs arbitrary: ys)
  case (Cons x xs)
  then obtain y zs where "f x = Some y" "those (map f xs) = Some zs" "ys = y # zs"
    by (auto split: option.splits)
  with Cons.IH assms(2) show ?case by simp
qed simp

lemma process_stmt_node: "process_stmt c x = Some s \<Longrightarrow> node_of s = {p_name (fst x)} \<and> edge_of s = {}"
  by (cases x) (auto simp: process_stmt_def Let_def bind_eq_Some_conv)

lemma cluster_process_stmt_node:
  "cluster_process_stmt idx c x = Some s \<Longrightarrow> node_of s = {c_name idx (p_name (fst x))} \<and> edge_of s = {}"
  by (cases x) (auto simp: cluster_process_stmt_def Let_def bind_eq_Some_conv)

lemma file_stmt_node: "file_stmt scope x = Some s \<Longrightarrow> node_of s = {scope (f_name (fst x))} \<and> edge_of s = {}"
  by (cases x) (auto simp: file_stmt_def bind_eq_Some_conv)

lemma endpoint_stmt_node [simp]:
  "node_of (endpoint_stmt scope e) = {scope (n_name e)}" "edge_of (endpoint_stmt scope e) = {}"
  by (simp_all add: endpoint_stmt_def)

lemma fork_stmt_edge [simp]:
  "node_of (fork_stmt scope c e) = {}"
  "edge_of (fork_stmt scope c e) = {(scope (p_name (te_source_pid e)), scope (p_name (te_target_pid e)))}"
  by (simp_all add: fork_stmt_def Let_def)

lemma legend_parts: "legend acts = Some key \<Longrightarrow> declared key \<subseteq> {''legend''} \<and> edges key = {}"
  by (auto simp: legend_def bind_eq_Some_conv split: if_splits)

text \<open>The edges of a file and of an endpoint join it to processes that are shown.\<close>

lemma flow_stmts_edges:
  "s \<in> set (flow_stmts scope shown f) \<Longrightarrow> node_of s = {} \<and>
    (\<exists>pid. shown pid \<and> edge_of s \<in> {{(scope (p_name pid), scope (f_name (fst f)))}, {(scope (f_name (fst f)), scope (p_name pid))}})"
  by (cases f) (auto simp: flow_stmts_def Let_def)

lemma other_flow_stmts_edges:
  "s \<in> set (other_flow_stmts shown f) \<Longrightarrow> node_of s = {} \<and> (\<exists>pid. shown pid \<and> edge_of s = {(p_name pid, f_name (fst f))})"
  by (cases f) (auto simp: other_flow_stmts_def Let_def)

lemma net_stmts_edges:
  "s \<in> set (net_stmts scope shown e) \<Longrightarrow> node_of s = {} \<and>
    (\<exists>pid. shown pid \<and> edge_of s \<in> {{(scope (p_name pid), scope (n_name (fst e)))}, {(scope (n_name (fst e)), scope (p_name pid))}})"
  by (cases e) (auto simp: net_stmts_def split: direction.splits)

section \<open>When a graph cannot be drawn\<close>

definition colour_ok :: "string \<Rightarrow> bool" where
  "colour_ok s \<longleftrightarrow> (let hex = dropWhile (\<lambda>c. c = CHR ''#'') s
     in str_slice hex 0 2 \<noteq> None \<and> str_slice hex 2 4 \<noteq> None \<and> str_slice hex 4 6 \<noteq> None)"

lemma action_color_ok: "colour_ok (fst (action_color i))"
proof -
  have "list_all (\<lambda>p. colour_ok (fst p)) ACTION_COLORS" "colour_ok ''#e8e8e8''" "ACTION_COLORS \<noteq> []" by code_simp+
  then show ?thesis by (simp add: action_color_def list_all_length)
qed

lemma taint_gradient_total: "taint_gradient (fst (action_color i)) score \<noteq> None"
  using action_color_ok [of i] by (auto simp: taint_gradient_def colour_ok_def Let_def bind_eq_None_conv)

lemma process_stmt_total: "process_stmt c x \<noteq> None"
  using taint_gradient_total by (cases x) (auto simp: process_stmt_def Let_def bind_eq_None_conv)

lemma process_stmt_never: "process_stmt c x = None \<longleftrightarrow> False"
  using process_stmt_total by blast

lemma file_stmt_None: "file_stmt scope x = None \<longleftrightarrow> short_path (fst x) = None"
  by (cases x) (auto simp: file_stmt_def bind_eq_None_conv)

lemma legend_None:
  "legend acts = None \<longleftrightarrow> (\<exists>a \<in> set acts. 30 < length (snd a) \<and> is_cont (snd a ! 30))"
proof -
  have "legend_row a = None \<longleftrightarrow> 30 < length (snd a) \<and> is_cont (snd a ! 30)" for a
    by (cases a) (auto simp: legend_row_def bind_eq_None_conv str_slice_def is_char_boundary_def)
  then show ?thesis by (simp add: legend_def bind_eq_None_conv those_None)
qed

lemma render_dot_None:
  "render_dot H c = None \<longleftrightarrow>
    (\<exists>f \<in> set (shown_files H c). 45 < length (fst f) \<and> is_cont (fst f ! (length (fst f) - 45))) \<or>
    (\<exists>a \<in> set (completed_actions c). 30 < length (al_command a) \<and> is_cont (al_command a ! 30))"
proof -
  have short: "short_path p = None \<longleftrightarrow> 45 < length p \<and> is_cont (p ! (length p - 45))" for p
    by (auto simp: short_path_def str_slice_def is_char_boundary_def)
  have "render_dot H c = None \<longleftrightarrow> (\<exists>f \<in> set (shown_files H c). short_path (fst f) = None) \<or>
      (\<exists>a \<in> set (completed_actions c). 30 < length (al_command a) \<and> is_cont (al_command a ! 30))"
    by (simp add: process_stmt_never render_dot_def render_stmts_def Let_def bind_eq_None_conv those_None legend_None file_stmt_None)
  then show ?thesis by (simp only: short)
qed

text \<open>
  C31: The graph of a container fails to be drawn exactly if a shown path of more than 45 bytes or a
  command of a completed action of more than 30 bytes is cut inside a character, and valid UTF-8
  texts do this. Nothing else in the state, no name, score or number of nodes, can make it fail.
\<close>

theorem render_dot_panics:
  "(render_dot H c = None \<longleftrightarrow>
      (\<exists>f \<in> set (shown_files H c). 45 < length (fst f) \<and> is_cont (fst f ! (length (fst f) - 45))) \<or>
      (\<exists>a \<in> set (completed_actions c). 30 < length (al_command a) \<and> is_cont (al_command a ! 30))) \<and>
   utf8_valid (CHR ''/'' # CHR 0xC3 # CHR 0xBC # replicate 44 CHR ''a'') \<and>
   is_cont ((CHR ''/'' # CHR 0xC3 # CHR 0xBC # replicate 44 CHR ''a'') ! (47 - 45))"
  using render_dot_None by (intro conjI; (blast | code_simp))

section \<open>The graph of a container\<close>

lemma nodeless [simp]:
  "(\<Union>s \<in> set (flow_stmts scope shown f). node_of s) = {}" "(\<Union>s \<in> set (other_flow_stmts shown f). node_of s) = {}"
  "(\<Union>s \<in> set (net_stmts scope shown e). node_of s) = {}"
  using flow_stmts_edges other_flow_stmts_edges net_stmts_edges by blast+

lemma render_stmts_parts:
  assumes "render_stmts H c = Some d"
  shows "declared d - {''legend''} \<subseteq> p_name ` fst ` set (take max_nodes (by_taint (process_order H c))) \<union>
      f_name ` fst ` set (shown_files H c) \<union> n_name ` fst ` set (shown_endpoints H c)"
    and "p_name ` fst ` set (take max_nodes (by_taint (process_order H c))) \<union>
      f_name ` fst ` set (shown_files H c) \<union> n_name ` fst ` set (shown_endpoints H c) \<subseteq> declared d"
    and "edges d = (\<Union>s \<in> set (map (fork_stmt top_name c) (tg_edges (taint_graph c)) @
      concat (map (\<lambda>f. flow_stmts top_name (hm_contains (process_table c)) f @ other_flow_stmts (hm_contains (process_table c)) f) (shown_files H c)) @
      concat (map (net_stmts top_name (hm_contains (process_table c))) (shown_endpoints H c))). edge_of s)"
proof -
  obtain ps fs key where
    ps: "those (map (process_stmt c) (take max_nodes (by_taint (process_order H c)))) = Some ps" and
    fs: "those (map (file_stmt top_name) (shown_files H c)) = Some fs" and
    key: "legend (map (\<lambda>a. (al_action_id a, al_command a)) (completed_actions c)) = Some key"
    using assms unfolding render_stmts_def Let_def bind_eq_Some_conv by blast
  note P = those_nodes [OF ps, where g = "\<lambda>x. p_name (fst x)", OF process_stmt_node]
    and F = those_nodes [OF fs, where g = "\<lambda>x. top_name (f_name (fst x))", OF file_stmt_node [where scope = top_name]] and L = legend_parts [OF key]
  have parts: "declared d = (\<Union>y \<in> set ps. node_of y) \<union> (\<Union>y \<in> set fs. node_of y) \<union> n_name ` fst ` set (shown_endpoints H c) \<union> declared key"
    using assms unfolding render_stmts_def Let_def ps fs key bind.bind_lunit option.inject
    by (rule subst) (simp add: image_image Un_assoc UNION_singleton_eq_range top_name_def del: map_map)
  show "declared d - {''legend''} \<subseteq> p_name ` fst ` set (take max_nodes (by_taint (process_order H c))) \<union>
      f_name ` fst ` set (shown_files H c) \<union> n_name ` fst ` set (shown_endpoints H c)"
    unfolding parts using P F L by (auto simp: top_name_def)
  show "p_name ` fst ` set (take max_nodes (by_taint (process_order H c))) \<union>
      f_name ` fst ` set (shown_files H c) \<union> n_name ` fst ` set (shown_endpoints H c) \<subseteq> declared d"
    unfolding parts using P F by (auto simp: top_name_def)
  show "edges d = (\<Union>s \<in> set (map (fork_stmt top_name c) (tg_edges (taint_graph c)) @
      concat (map (\<lambda>f. flow_stmts top_name (hm_contains (process_table c)) f @ other_flow_stmts (hm_contains (process_table c)) f) (shown_files H c)) @
      concat (map (net_stmts top_name (hm_contains (process_table c))) (shown_endpoints H c))). edge_of s)"
    using assms unfolding render_stmts_def Let_def ps fs key bind.bind_lunit option.inject
    by (rule subst) (simp add: P F L Un_assoc del: map_map)
qed


lemma map_filter_fst:
  "\<forall>k \<in> set ks. hm_get m k \<noteq> None \<Longrightarrow> map fst (List.map_filter (\<lambda>k. map_option (\<lambda>v. (k, v)) (hm_get m k)) ks) = ks"
  by (induction ks) (auto simp: map_filter_simps)

lemma process_order_keys:
  assumes "hash_order_ok H"
  shows "map fst (process_order H c) = ord_pid H (hm_keys (process_table c))"
  unfolding process_order_def using assms by (intro map_filter_fst) (auto simp: map_of_eq_None_iff)

lemma by_taint_set [simp]: "set (by_taint ps) = set ps" "length (by_taint ps) = length ps"
  by (simp_all add: by_taint_def)

lemma process_order_length: "hash_order_ok H \<Longrightarrow> length (process_order H c) \<le> length (process_table c)"
proof -
  assume H: "hash_order_ok H"
  have "length (process_order H c) = length (ord_pid H (hm_keys (process_table c)))"
    using process_order_keys [OF H, of c] length_map by metis
  also have "\<dots> = card (set (hm_keys (process_table c)))" using H by (metis distinct_card hash_order_set(2,5))
  also have "\<dots> \<le> length (process_table c)" by (metis card_length length_map)
  finally show ?thesis .
qed

lemma known_declared:
  assumes "hash_order_ok H" "render_stmts H c = Some d" "length (process_table c) \<le> max_nodes" "hm_contains (process_table c) pid"
  shows "p_name pid \<in> declared d"
proof -
  have "length (process_order H c) \<le> max_nodes" using process_order_length [OF assms(1), of c] assms(3) by simp
  moreover have "pid \<in> fst ` set (process_order H c)"
    using process_order_keys [OF assms(1), of c] assms(1,4) by (metis hash_order_set(2) hm_contains_iff list.set_map)
  ultimately have "p_name pid \<in> p_name ` fst ` set (take max_nodes (by_taint (process_order H c)))" by simp
  with render_stmts_parts(2) [OF assms(2)] show ?thesis by blast
qed

definition edges_known :: "ContainerState \<Rightarrow> bool" where
  "edges_known c \<longleftrightarrow> (\<forall>e \<in> set (tg_edges (taint_graph c)).
     hm_contains (process_table c) (te_source_pid e) \<and> hm_contains (process_table c) (te_target_pid e))"


lemma p_name_inject [simp]: "p_name a = p_name b \<longleftrightarrow> a = b"
  by (simp add: p_name_def word_unat_eq_iff)

lemma p_name_other [simp]: "p_name a \<noteq> f_name b" "p_name a \<noteq> n_name b" "p_name a \<noteq> ''legend''"
  by (simp_all add: p_name_def f_name_def n_name_def)

lemma inj_p_name: "inj p_name"
  by (rule injI) simp

lemma declared_p_name:
  assumes "p_name pid \<in> D" "D - {''legend''} \<subseteq> P \<union> f_name ` A \<union> n_name ` B"
  shows "p_name pid \<in> P"
  using assms p_name_other by blast

lemma writer_edge:
  assumes "render_stmts H c = Some d" "f \<in> set (shown_files H c)" "s \<in> set (flow_stmts top_name (hm_contains (process_table c)) f)"
  shows "edge_of s \<subseteq> edges d"
  unfolding render_stmts_parts(3) [OF assms(1)] using assms(2,3) by auto

text \<open>Known processes that wrote one shown file.\<close>

definition file_writers :: "hash_order \<Rightarrow> ContainerState \<Rightarrow> string \<Rightarrow> u32 list \<Rightarrow> bool" where
  "file_writers H c path pids \<longleftrightarrow> (\<exists>node. (path, node) \<in> set (shown_files H c) \<and>
     (\<forall>pid \<in> set pids. hm_contains (process_table c) pid \<and> pid \<in> fst ` set (fn_writers node)))"

text \<open>
  The limit that should keep large graphs small does not hold for edges: if more known processes
  than \<open>max_nodes\<close> wrote one shown file, every one of them is the end of an edge, and
  some of these ends are not declared, so the viewer adds them as bare nodes.
\<close>

theorem node_limit_ineffective:
  assumes "render_stmts H c = Some d" "file_writers H c path pids" "distinct pids" "max_nodes < length pids"
  shows "(\<forall>pid \<in> set pids. (p_name pid, f_name path) \<in> edges d) \<and> (\<exists>pid \<in> set pids. p_name pid \<notin> declared d)"
proof
  show "\<forall>pid \<in> set pids. (p_name pid, f_name path) \<in> edges d"
  proof
    fix pid assume "pid \<in> set pids"
    with assms(2) obtain node a where w: "(path, node) \<in> set (shown_files H c)" "hm_contains (process_table c) pid"
        "(pid, a) \<in> set (fn_writers node)"
      by (auto simp: file_writers_def)
    then have "EdgeStmt (p_name pid) (f_name path) (coloured ''write'' ''#2e7d32'' @ [Bare ''penwidth'' ''1.5'']) \<in>
        set (flow_stmts top_name (hm_contains (process_table c)) (path, node))"
      by (force simp: flow_stmts_def Let_def top_name_def)
    from writer_edge [OF assms(1) w(1) this] show "(p_name pid, f_name path) \<in> edges d" by simp
  qed
  let ?shown = "take max_nodes (by_taint (process_order H c))"
  show "\<exists>pid \<in> set pids. p_name pid \<notin> declared d"
  proof (rule ccontr)
    assume "\<not> ?thesis"
    then have "p_name pid \<in> p_name ` fst ` set ?shown" if "pid \<in> set pids" for pid
      using declared_p_name [OF _ render_stmts_parts(1) [OF assms(1)]] that by blast
    then have "set pids \<subseteq> fst ` set ?shown" using inj_image_mem_iff [OF inj_p_name] by blast
    then have "card (set pids) \<le> card (fst ` set ?shown)" by (simp add: card_mono)
    also have "\<dots> \<le> card (set ?shown)" by (rule card_image_le) simp
    also have "\<dots> \<le> length ?shown" by (rule card_length)
    also have "\<dots> \<le> max_nodes" by simp
    finally show False using assms(3,4) distinct_card [of pids] by simp
  qed
qed


section \<open>The graph of an experiment\<close>

lemma cluster_parts:
  assumes "cluster H idx cid c = Some d"
  shows "declared d = c_name idx ` (p_name ` fst ` set (cluster_processes H c) \<union> f_name ` fst ` set (shown_files H c) \<union>
      n_name ` fst ` set (shown_endpoints H c))"
    and "edges d \<subseteq> declared d \<times> declared d"
proof -
  define shown where "shown = (\<lambda>pid. pid \<in> set (map fst (cluster_processes H c)))"
  obtain short ps fs where
    short: "str_slice cid 0 (min (length cid) 12) = Some short" and
    ps: "those (map (cluster_process_stmt idx c) (cluster_processes H c)) = Some ps" and
    fs: "those (map (file_stmt (c_name idx)) (shown_files H c)) = Some fs"
    using assms unfolding cluster_def Let_def bind_eq_Some_conv by blast
  note P = those_nodes [OF ps, where g = "\<lambda>x. c_name idx (p_name (fst x))", OF cluster_process_stmt_node]
    and F = those_nodes [OF fs, where g = "\<lambda>x. c_name idx (f_name (fst x))", OF file_stmt_node [where scope = "c_name idx"]]
  note d = assms [unfolded cluster_def Let_def short ps fs bind.bind_lunit option.inject, folded shown_def]
  show dec: "declared d = c_name idx ` (p_name ` fst ` set (cluster_processes H c) \<union> f_name ` fst ` set (shown_files H c) \<union>
      n_name ` fst ` set (shown_endpoints H c))"
    using d by (rule subst) (simp add: P F image_image image_Un Un_assoc UNION_singleton_eq_range del: map_map)
  have ends: "edges d = (\<Union>s \<in> set (map (fork_stmt (c_name idx) c)
        (filter (\<lambda>e. shown (te_source_pid e) \<and> shown (te_target_pid e)) (tg_edges (taint_graph c))) @
      concat (map (flow_stmts (c_name idx) shown) (shown_files H c)) @
      concat (map (net_stmts (c_name idx) shown) (shown_endpoints H c))). edge_of s)"
    using d by (rule subst) (simp add: P F Un_assoc shown_def del: map_map)
  have p: "c_name idx (p_name pid) \<in> declared d" if "shown pid" for pid using that unfolding dec shown_def by auto
  have f: "c_name idx (f_name (fst f)) \<in> declared d" if "f \<in> set (shown_files H c)" for f using that unfolding dec by blast
  have n: "c_name idx (n_name (fst e)) \<in> declared d" if "e \<in> set (shown_endpoints H c)" for e using that unfolding dec by blast
  have "edge_of s \<subseteq> declared d \<times> declared d"
    if "f \<in> set (shown_files H c)" "s \<in> set (flow_stmts (c_name idx) shown f)" for f s
    using flow_stmts_edges [OF that(2)] f [OF that(1)] p by auto
  moreover have "edge_of s \<subseteq> declared d \<times> declared d"
    if "e \<in> set (shown_endpoints H c)" "s \<in> set (net_stmts (c_name idx) shown e)" for e s
    using net_stmts_edges [OF that(2)] n [OF that(1)] p by auto
  moreover have "edge_of (fork_stmt (c_name idx) c e) \<subseteq> declared d \<times> declared d"
    if "shown (te_source_pid e)" "shown (te_target_pid e)" for e using p that by simp
  ultimately show "edges d \<subseteq> declared d \<times> declared d" unfolding ends by fastforce
qed

lemma dec_then:
  assumes "\<not> is_digit x" "\<not> is_digit y" "dec i @ x # s = dec j @ y # t"
  shows "x = y"
proof -
  have "dropWhile is_digit (dec k @ z # r) = z # r" if "\<not> is_digit z" for k z r
    using that dec_digits by (simp add: dropWhile_append2)
  with assms show ?thesis by (metis list.inject)
qed

lemma listen_name_other [simp]:
  "listen_name j port \<noteq> c_name i (p_name pid)" "listen_name j port \<noteq> c_name i (f_name path)"
  "listen_name j port \<noteq> c_name i (n_name e)" "listen_name j port \<noteq> ''legend''"
proof -
  have other: "listen_name j port \<noteq> c_name i (x # s)" if "\<not> is_digit x" "x \<noteq> CHR ''l''" for x s
    using dec_then [of "CHR ''l''" x j _ i s] that by (auto simp: listen_name_def c_name_def is_digit_def bval_def)
  show "listen_name j port \<noteq> c_name i (p_name pid)" "listen_name j port \<noteq> c_name i (f_name path)"
    "listen_name j port \<noteq> c_name i (n_name e)"
    unfolding p_name_def f_name_def n_name_def append_Cons append_Nil by (rule other; simp add: is_digit_def bval_def)+
  show "listen_name j port \<noteq> ''legend''" by (simp add: listen_name_def)
qed

lemma cross_stmts_edges:
  assumes "s \<in> set (cross_stmts H d ids)"
  shows "node_of s = {} \<and> (\<exists>idx pid j port. edge_of s = {(c_name idx (p_name pid), listen_name j port)})"
proof -
  have "node_of s = {} \<and> (\<exists>idx pid j port. edge_of s = {(c_name idx (p_name pid), listen_name j port)})"
    if "cross_stmt d ids idx info conn = Some s" for idx info conn s
    using that by (auto simp: cross_stmt_def bind_eq_Some_conv split: if_splits) blast+
  then show ?thesis using assms
    by (fastforce simp: cross_stmts_def map_filter_def split: option.splits if_splits)
qed

definition cross_edges :: "hash_order \<Rightarrow> DaemonState \<Rightarrow> Experiment \<Rightarrow> (string \<times> string) set" where
  "cross_edges H d ex = (\<Union>s \<in> set (cross_stmts H d (ex_container_ids ex)). edge_of s)"

lemma cluster_process_stmt_None:
  "cluster_process_stmt idx c x = None \<longleftrightarrow> 40 < length (pi_cmdline (snd x)) \<and> is_cont (pi_cmdline (snd x) ! 40)"
  using taint_gradient_total
  by (cases x) (auto simp: cluster_process_stmt_def Let_def bind_eq_None_conv str_slice_def is_char_boundary_def)

lemma cluster_None:
  "cluster H idx cid c = None \<longleftrightarrow> str_slice cid 0 (min (length cid) 12) = None \<or>
    (\<exists>p \<in> set (cluster_processes H c). 40 < length (pi_cmdline (snd p)) \<and> is_cont (pi_cmdline (snd p) ! 40)) \<or>
    (\<exists>f \<in> set (shown_files H c). short_path (fst f) = None)"
  by (simp add: cluster_def Let_def bind_eq_None_conv those_None cluster_process_stmt_None file_stmt_None)

lemma render_experiment_None:
  "render_experiment_stmts H d ex = None \<longleftrightarrow>
    (\<exists>x \<in> set (List.enumerate 0 (ex_container_ids ex)). \<exists>c. hm_get (containers d) (snd x) = Some c \<and> cluster H (fst x) (snd x) c = None) \<or>
    (\<exists>a \<in> set (legend_actions d (ex_container_ids ex)). 30 < length (snd a) \<and> is_cont (snd a ! 30))"
  unfolding render_experiment_stmts_def Let_def bind_eq_None_conv those_None legend_None
  by (fastforce split: option.splits)

text \<open>
  C30: In the graph of an experiment every edge inside a cluster joins declared nodes, whatever the
  number of processes; but no edge between two containers ends at a declared node: their ends
  are called \<open>listen_...\<close>, a name that no node has, so the connection is drawn to a stray node
  outside the cluster of the container that it reaches.
\<close>

theorem cross_edges_dangle:
  assumes "render_experiment_stmts H d ex = Some doc"
  shows "edges doc \<subseteq> declared doc \<times> declared doc \<union> cross_edges H d ex \<and> cross_edges H d ex \<subseteq> edges doc \<and>
    (\<forall>(a, b) \<in> cross_edges H d ex. b \<notin> declared doc)"
proof -
  define one where "one = (\<lambda>(idx, cid). case hm_get (containers d) cid of None \<Rightarrow> Some [] | Some c \<Rightarrow> cluster H idx cid c)"
  obtain cs key where
    cs: "those (map one (List.enumerate 0 (ex_container_ids ex))) = Some cs" and
    key: "legend (legend_actions d (ex_container_ids ex)) = Some key"
    using assms unfolding render_experiment_stmts_def Let_def bind_eq_Some_conv one_def by blast
  note L = legend_parts [OF key]
  note doc = assms [unfolded render_experiment_stmts_def Let_def, folded one_def, unfolded cs key bind.bind_lunit option.inject]
  have nodeless: "(\<Union>s \<in> set (cross_stmts H d (ex_container_ids ex)). node_of s) = {}" using cross_stmts_edges by blast
  have D: "declared doc = (\<Union>c \<in> set cs. declared c) \<union> declared key" using doc by (rule subst) (simp add: nodeless del: map_map)
  have E: "edges doc = (\<Union>c \<in> set cs. edges c) \<union> cross_edges H d ex"
    using doc by (rule subst) (simp add: L cross_edges_def del: map_map)
  have clusters: "edges k \<subseteq> declared k \<times> declared k \<and> listen_name j port \<notin> declared k" if "k \<in> set cs" for k j port
  proof -
    have "Some k \<in> one ` set (List.enumerate 0 (ex_container_ids ex))"
      using those_map [OF cs] that by (metis image_eqI list.set_map)
    then obtain idx cid where k: "one (idx, cid) = Some k" by auto
    show ?thesis
    proof (cases "hm_get (containers d) cid")
      case None
      with k show ?thesis by (simp add: one_def)
    next
      case (Some c)
      with k have "cluster H idx cid c = Some k" by (simp add: one_def)
      from cluster_parts [OF this] show ?thesis by auto
    qed
  qed
  have "b \<notin> declared doc" if "(a, b) \<in> cross_edges H d ex" for a b
  proof -
    from that obtain j port where "b = listen_name j port" unfolding cross_edges_def using cross_stmts_edges by fastforce
    with clusters L show ?thesis unfolding D by auto
  qed
  moreover have "edges doc \<subseteq> declared doc \<times> declared doc \<union> cross_edges H d ex" using clusters unfolding D E by blast
  ultimately show ?thesis unfolding E by blast
qed

section \<open>Documents\<close>

definition drawn_process :: "u32 \<Rightarrow> u32 \<Rightarrow> u32 \<times> ProcessInfo" where
  "drawn_process pid ppid =
     (pid, \<lparr>pi_pid = pid, pi_ppid = ppid, pi_comm = ''sh'', pi_exec_path = ''/bin/sh'', pi_cmdline = ''sh -c run'', pi_open_files = [],
       pi_net_connections = [''connect 10.0.0.2:80''], pi_taint_score = 0, pi_taint_source = [], pi_exited = False, pi_children = [],
       pi_attributed_action = 0\<rparr>)"

definition drawn_container :: "u32 list \<Rightarrow> ContainerState" where
  "drawn_container pids = (ContainerState_new 0 baseline_new)
     \<lparr>process_table := map (\<lambda>p. drawn_process p 1) pids,
      taint_graph := add_edge 1 2 ''fork'' Fork 0 graph_empty,
      file_nodes := [(''/data/log'', FileNode_new\<lparr>fn_writers := map (\<lambda>p. (p, 0)) pids, fn_deleters := [(1, 0)]\<rparr>)]\<rparr>"

lemma drawn_container_shown:
  "shown_files insertion_order (drawn_container pids) =
     [(''/data/log'', FileNode_new\<lparr>fn_writers := map (\<lambda>p. (p, 0)) pids, fn_deleters := [(1, 0)]\<rparr>)]"
proof -
  have "\<not> skip_path ''/data/log''" by code_simp
  then show ?thesis
    by (simp add: shown_files_def drawn_container_def insertion_order_def shows_file_def only_exec_def map_filter_simps)
qed

lemma drawn_container_drawn: "\<exists>d. render_stmts insertion_order (drawn_container pids) = Some d"
proof -
  have "render_dot insertion_order (drawn_container pids) \<noteq> None"
    unfolding render_dot_None drawn_container_shown by (simp add: drawn_container_def ContainerState_new_def)
  then show ?thesis by (auto simp: render_dot_def)
qed


lemma node_limit_ineffective_witness:
  "\<exists>d. render_stmts insertion_order (drawn_container (map of_nat [1..<52])) = Some d \<and>
     (\<exists>pid \<in> set (map of_nat [1..<52]). (p_name pid, f_name ''/data/log'') \<in> edges d \<and> p_name pid \<notin> declared d)"
proof -
  let ?pids = "map of_nat [1..<52] :: u32 list"
  obtain d where d: "render_stmts insertion_order (drawn_container ?pids) = Some d" using drawn_container_drawn by blast
  have "inj_on (of_nat :: nat \<Rightarrow> u32) {1..<52}"
    by (rule inj_on_inverseI [of _ unat]) (simp add: unat_of_nat)
  then have "distinct ?pids" by (simp add: distinct_map)
  moreover have "file_writers insertion_order (drawn_container ?pids) ''/data/log'' ?pids"
    unfolding file_writers_def drawn_container_shown
    by (auto simp: drawn_container_def drawn_process_def hm_contains_iff image_iff)
  moreover have "max_nodes < length ?pids" by (simp add: max_nodes_def)
  ultimately show ?thesis using node_limit_ineffective [OF d] d by blast
qed

lemma shown_files_none: "file_nodes c = [] \<Longrightarrow> shown_files insertion_order c = []"
  by (simp add: shown_files_def insertion_order_def map_filter_simps)

lemma cluster_processes_known: "set (cluster_processes H c) \<subseteq> set (process_table c)"
proof -
  have "set (process_order H c) \<subseteq> set (process_table c)"
    by (auto simp: process_order_def map_filter_def dest: map_of_SomeD)
  then show ?thesis by (auto simp: cluster_processes_def dest!: in_set_takeD)
qed

text \<open>Two containers of an experiment, the first connected to the second.\<close>

definition drawn_daemon :: DaemonState where
  "drawn_daemon = DaemonState_new
     \<lparr>containers := [(''aa'', (ContainerState_new 0 baseline_new)
        \<lparr>process_table := [(7, (snd (drawn_process 7 1))\<lparr>pi_taint_score := 1\<rparr>)]\<rparr>), (''bb'', ContainerState_new 0 baseline_new)],
      ip_to_container := [((10, 0, 0, 2), ''bb'')]\<rparr>"

definition drawn_experiment :: Experiment where
  "drawn_experiment = \<lparr>ex_id = ''exp-1'', ex_name = [], ex_container_ids = [''aa'', ''bb'']\<rparr>"

lemma cross_edges_dangle_witness:
  "\<exists>doc. render_experiment_stmts insertion_order drawn_daemon drawn_experiment = Some doc \<and>
     (c_name 0 (p_name 7), listen_name 1 ''80'') \<in> edges doc \<and> listen_name 1 ''80'' \<notin> declared doc"
proof -
  have "cluster insertion_order i cid c \<noteq> None" if "hm_get (containers drawn_daemon) cid = Some c" for i cid c
  proof -
    have c: "file_nodes c = []" "\<forall>p \<in> set (process_table c). length (pi_cmdline (snd p)) \<le> 40"
      and "cid = ''aa'' \<or> cid = ''bb''"
      using that by (auto simp: drawn_daemon_def ContainerState_new_def drawn_process_def split: if_splits)
    then have "str_slice cid 0 (min (length cid) 12) \<noteq> None" by (auto simp: str_slice_def is_char_boundary_def)
    with c cluster_processes_known [of insertion_order c] show ?thesis
      unfolding cluster_None by (fastforce simp: shown_files_none)
  qed
  then have "render_experiment_stmts insertion_order drawn_daemon drawn_experiment \<noteq> None"
    unfolding render_experiment_None
    by (auto simp: legend_actions_def drawn_daemon_def drawn_experiment_def ContainerState_new_def)
  then obtain doc where doc: "render_experiment_stmts insertion_order drawn_daemon drawn_experiment = Some doc" by blast
  have "strip_prefix ''connect '' ''connect 10.0.0.2:80'' = Some ''10.0.0.2:80''"
    "rsplit_once CHR '':'' ''10.0.0.2:80'' = Some (''10.0.0.2'', ''80'')" "parse_ipv4 ''10.0.0.2'' = Some (10, 0, 0, 2)" by code_simp+
  moreover have "TAINT_THRESHOLD \<le> 1"
    using f64_round_mono [of "1/10" 1] is_f64_1 by (simp add: TAINT_THRESHOLD_def is_f64_def)
  ultimately have "(c_name 0 (p_name 7), listen_name 1 ''80'') \<in> cross_edges insertion_order drawn_daemon drawn_experiment"
    by (simp add: cross_edges_def cross_stmts_def cross_stmt_def drawn_daemon_def drawn_experiment_def drawn_process_def
      process_order_def insertion_order_def map_filter_simps is_tainted_def)
  with cross_edges_dangle [OF doc] doc show ?thesis by blast
qed


end
