(* ===== verification/Receipt_Files.thy ===== *)
theory Receipt_Files
  imports Rust_Text "HOL-Library.Char_ord" "HOL-Library.List_Lexorder" "HOL-Library.Multiset"
begin

text \<open>
  The file lists of a receipt (\<open>src/src/receipt.rs\<close>): which paths are noise, which are sensitive, and
  how a list of paths is compressed with ranges and braces. The order of texts is that of their
  bytes, as in Rust. Proved: a range stands for exactly its files, when its detection panics, and
  that a compressed list accounts for every file and keeps the sensitive ones.
\<close>

section \<open>Filters\<close>

definition HEX_NOISE_MIN_LEN :: nat where "HEX_NOISE_MIN_LEN = 12"

text \<open>\<open>chars().nth(1)\<close> of a path that starts with a slash is a digit iff the second byte is one.\<close>

definition is_noise_file :: "string \<Rightarrow> bool" where
  "is_noise_file f \<longleftrightarrow>
     f = ''/'' \<or> f = ''/runc'' \<or> f = [] \<or>
     list_ex (starts_with f) [''/proc/'', ''/dev/'', ''/sys/''] \<or>
     contains f ''.so'' \<or> contains f ''ld-musl'' \<or> contains f ''ld-linux'' \<or>
     list_ex (starts_with f) [''/bin/'', ''/sbin/'', ''/usr/bin/'', ''/usr/sbin/''] \<or>
     list_ex (starts_with f) [''/usr/lib/'', ''/lib/''] \<or>
     contains f ''__pycache__'' \<or> ends_with f ''.pyc'' \<or>
     (case f of c # d # _ \<Rightarrow> c = CHR ''/'' \<and> is_digit d | _ \<Rightarrow> False) \<or>
     list_all is_digit f \<or>
     list_ex (starts_with f) [''//'', ''socket:'', ''pipe:'', ''anon_inode:''] \<or>
     contains f ''(null)'' \<or>
     HEX_NOISE_MIN_LEN \<le> length f \<and> list_all is_hexdigit f \<or>
     \<not> contains f ''/'' \<and> \<not> starts_with f ''.''"

definition is_sensitive_file :: "string \<Rightarrow> bool" where
  "is_sensitive_file path =
     list_ex (contains path) [''/etc/shadow'', ''/etc/passwd'', ''/.ssh/'', ''/etc/sudoers'', ''api_token'', ''secret'',
       ''credential'', ''.env'', ''private_key'', ''/etc/firewall'']"

section \<open>Numeric ranges\<close>

text \<open>\<open>{:0>width$}\<close>.\<close>

definition pad_0 :: "nat \<Rightarrow> nat \<Rightarrow> string" where
  "pad_0 width n = replicate (width - length (dec n)) CHR ''0'' @ dec n"

text \<open>The numbers of the names; the inner None is the early return of None. The slice panics if prefix
  and suffix overlap in a name.\<close>

fun range_nums :: "string \<Rightarrow> string \<Rightarrow> nat \<Rightarrow> string list \<Rightarrow> nat list option panicking" where
  "range_nums prefix suffix width [] = Some (Some [])"
| "range_nums prefix suffix width (name # names) =
     (if \<not> starts_with name prefix \<or> \<not> ends_with name suffix then Some None
      else case str_slice name (length prefix) (length name - length suffix) of
             None \<Rightarrow> None
           | Some mid \<Rightarrow>
               if length mid \<noteq> width then Some None
               else (case parse_unsigned (2 ^ 64) mid of
                       None \<Rightarrow> Some None
                     | Some n \<Rightarrow> map_option (map_option (\<lambda>ns. n # ns)) (range_nums prefix suffix width names)))"

definition range_text :: "string \<Rightarrow> string \<Rightarrow> string \<Rightarrow> nat \<Rightarrow> nat list \<Rightarrow> string" where
  "range_text dir prefix suffix width nums =
     (if dir = [] then [] else dir @ ''/'') @ prefix @ ''{'' @ pad_0 width (hd (sort nums)) @ ''..'' @ pad_0 width (last (sort nums)) @
     ''}'' @ suffix @ '' ('' @ dec (length nums) @ '' files)''"

text \<open>\<open>max - min + 1\<close> is computed on 64 bits in the code; it differs from the number of files when it
  overflows.\<close>

definition try_numeric_range :: "string \<Rightarrow> string list \<Rightarrow> string option panicking" where
  "try_numeric_range dir names =
     (if length names < 3 then Some None
      else let first = hd names in
           case position is_digit first of
             None \<Rightarrow> Some None
           | Some num_start \<Rightarrow>
               (let width = length (takeWhile is_digit (drop num_start first));
                    prefix = take num_start first;
                    suffix = drop (num_start + width) first
                in case range_nums prefix suffix width names of
                     None \<Rightarrow> None
                   | Some None \<Rightarrow> Some None
                   | Some (Some nums) \<Rightarrow>
                       if last (sort nums) - hd (sort nums) + 1 \<noteq> length nums then Some None
                       else Some (Some (range_text dir prefix suffix width nums))))"

section \<open>Compression\<close>

definition split_path :: "string \<Rightarrow> string \<times> string" where
  "split_path path = (case rfind_char CHR ''/'' path of Some i \<Rightarrow> (take i path, drop (Suc i) path) | None \<Rightarrow> ([], path))"

text \<open>The text for the files of one directory.\<close>

definition dir_entry :: "string \<Rightarrow> string list \<Rightarrow> string panicking" where
  "dir_entry dir names =
     (if length names = 1 then Some (if dir = [] then hd names else dir @ ''/'' @ hd names)
      else do {
        range \<leftarrow> try_numeric_range dir names;
        (case range of
           Some text \<Rightarrow> Some text
         | None \<Rightarrow>
             (let sorted = sort names
              in if length names \<le> 5 then Some (dir @ ''/{'' @ join '','' sorted @ ''}'')
                 else Some (dir @ ''/{'' @ sorted ! 0 @ '','' @ sorted ! 1 @ '',... '' @ last sorted @ ''} ('' @ dec (length names) @ '' files)'')))
      })"

definition names_in :: "string list \<Rightarrow> string \<Rightarrow> string list" where
  "names_in paths dir = map (snd \<circ> split_path) (filter (\<lambda>p. fst (split_path p) = dir) paths)"

definition compress_file_list :: "string list \<Rightarrow> string list panicking" where
  "compress_file_list files =
     (if length files \<le> 3 then Some files
      else (let sensitive = filter is_sensitive_file files;
                compressible = filter (\<lambda>f. \<not> is_sensitive_file f) files
            in if length compressible \<le> 3 then Some (sort (sensitive @ compressible))
               else (let dirs = sort (remdups (map (fst \<circ> split_path) compressible))
                     in do {
                       entries \<leftarrow> those (map (\<lambda>dir. dir_entry dir (names_in compressible dir)) dirs);
                       Some (sort (sensitive @ entries))
                     })))"

section \<open>Numbers of a fixed width\<close>

lemma digit_val_bval: "is_digit c \<Longrightarrow> digit_val c < 10 \<and> bval c = 48 + digit_val c"
  by (simp add: is_digit_def digit_val_def, arith)

lemma digits_val_less: "list_all is_digit s \<Longrightarrow> digits_val s < 10 ^ length s"
proof (induction s rule: rev_induct)
  case (snoc c s)
  then have "digit_val c < 10" by (simp add: digit_val_bval)
  with snoc show ?case by simp
qed simp

lemma digits_val_inject:
  "length s = length t \<Longrightarrow> list_all is_digit s \<Longrightarrow> list_all is_digit t \<Longrightarrow> digits_val s = digits_val t \<Longrightarrow> s = t"
proof (induction s arbitrary: t rule: rev_induct)
  case (snoc c s)
  from snoc.prems(1) obtain d u where t: "t = u @ [d]" by (cases t rule: rev_cases) auto
  have cd: "digit_val c < 10" "digit_val d < 10" using snoc.prems by (simp_all add: t digit_val_bval)
  from snoc.prems(4) have eq: "digits_val s * 10 + digit_val c = digits_val u * 10 + digit_val d" by (simp add: t)
  with cd have "digits_val s = digits_val u" "digit_val c = digit_val d" by arith+
  moreover have "bval c = bval d" using calculation(2) snoc.prems(2,3) by (simp add: t digit_val_bval)
  ultimately show ?case using snoc.IH [of u] snoc.prems by (simp add: t bval_def)
qed simp

lemma length_dec: "n < 10 ^ w \<Longrightarrow> 0 < w \<Longrightarrow> length (dec n) \<le> w"
proof (induction w arbitrary: n)
  case (Suc w)
  show ?case
  proof (cases "n < 10")
    case True
    then show ?thesis by (simp add: dec.simps [of n])
  next
    case False
    with Suc.prems have "n div 10 < 10 ^ w" "0 < w" by (auto simp: less_mult_imp_div_less intro: Nat.gr0I)
    from Suc.IH [OF this] False show ?thesis by (simp add: dec.simps [of n])
  qed
qed simp

lemma pad_0_digits:
  assumes "list_all is_digit s" "s \<noteq> []"
  shows "pad_0 (length s) (digits_val s) = s"
proof (rule digits_val_inject)
  have "length (dec (digits_val s)) \<le> length s" using digits_val_less [OF assms(1)] assms(2) by (simp add: length_dec)
  then show "length (pad_0 (length s) (digits_val s)) = length s" by (simp add: pad_0_def)
  show "list_all is_digit (pad_0 (length s) (digits_val s))"
    by (auto simp: pad_0_def list_all_iff dec_digits) (simp add: is_digit_def bval_def)
  show "digits_val (pad_0 (length s) (digits_val s)) = digits_val s"
    by (simp add: pad_0_def digits_val_zeros)
qed (rule assms(1))

section \<open>Ranges are exact\<close>

lemma append_le_append [simp]: "(p @ x \<le> p @ y) = (x \<le> (y :: string))"
  by (induction p) simp_all

lemma slice_between:
  assumes "starts_with s p" "ends_with s q" "str_slice s (length p) (length s - length q) = Some mid"
  shows "s = p @ mid @ q"
proof -
  have le: "length p \<le> length s - length q" and mid: "mid = take (length s - length q - length p) (drop (length p) s)"
    using assms(3) by (auto simp: str_slice_def split: if_splits)
  have "drop (length p) s = mid @ drop (length s - length q) s"
    using append_take_drop_id [of "length s - length q - length p" "drop (length p) s"] le
    unfolding mid drop_drop by (simp only: le_add_diff_inverse2)
  then show ?thesis using assms(1,2) append_take_drop_id [of "length p" s] by (simp add: starts_with_def ends_with_def)
qed

lemma range_nums_Some:
  "range_nums prefix suffix width names = Some (Some nums) \<Longrightarrow>
    list_all2 (\<lambda>name n. \<exists>mid. name = prefix @ mid @ suffix \<and> length mid = width \<and> parse_unsigned (2 ^ 64) mid = Some n) names nums"
proof (induction names arbitrary: nums)
  case (Cons name names)
  then obtain mid n ns where m: "starts_with name prefix" "ends_with name suffix"
      "str_slice name (length prefix) (length name - length suffix) = Some mid" "length mid = width"
      "parse_unsigned (2 ^ 64) mid = Some n" "range_nums prefix suffix width names = Some (Some ns)" "nums = n # ns"
    by (auto split: if_splits option.splits)
  from slice_between [OF m(1-3)] m(4-7) Cons.IH show ?case by auto
qed simp

lemma parse_unsigned_digits:
  assumes "parse_unsigned b s = Some n" "s \<noteq> []" "hd s \<noteq> CHR ''+''"
  shows "list_all is_digit s \<and> digits_val s = n"
  using assms by (cases s) (auto simp: parse_unsigned_def parse_digits_def Let_def split: if_splits)

lemma sorted_ends: "sorted xs \<Longrightarrow> \<forall>x \<in> set xs. hd xs \<le> x \<and> x \<le> last xs"
  by (induction xs) auto

lemma sorted_interval:
  assumes "distinct nums" "nums \<noteq> []" "last (sort nums) - hd (sort nums) + 1 = length nums"
  shows "set nums = {hd (sort nums)..last (sort nums)}"
proof (rule card_subset_eq)
  note ends = sorted_ends [OF sorted_sort, of nums]
  from assms(2) ends have "\<forall>n \<in> set nums. hd (sort nums) \<le> n \<and> n \<le> last (sort nums)" by simp
  then show "set nums \<subseteq> {hd (sort nums)..last (sort nums)}" by auto
  have "hd (sort nums) \<le> last (sort nums)"
    using \<open>\<forall>n \<in> set nums. _\<close> assms(2) by (cases nums) (auto intro: order_trans)
  with assms show "card (set nums) = card {hd (sort nums)..last (sort nums)}" by (simp add: distinct_card)
qed simp


lemma digit_greater_plus: "is_digit c \<Longrightarrow> CHR ''+'' < c"
  by (simp add: less_char_def is_digit_def bval_def)

text \<open>What a range stands for.\<close>

definition in_dir :: "string \<Rightarrow> string \<Rightarrow> string" where
  "in_dir dir s = (if dir = [] then s else dir @ ''/'' @ s)"

definition range_of :: "string \<Rightarrow> string list \<Rightarrow> string \<Rightarrow> bool" where
  "range_of dir names text \<longleftrightarrow> (\<exists>prefix suffix width lo hi.
     text = in_dir dir (prefix @ ''{'' @ pad_0 width lo @ ''..'' @ pad_0 width hi @ ''}'' @ suffix @ '' ('' @ dec (length names) @ '' files)'') \<and>
     set names = (\<lambda>n. prefix @ pad_0 width n @ suffix) ` {lo..hi} \<and> hi - lo + 1 = length names)"

lemma range_exact_lemma:
  assumes "sorted names" "distinct names" "try_numeric_range dir names = Some (Some text)"
  shows "range_of dir names text"
proof -
  obtain k where k: "position is_digit (hd names) = Some k" "3 \<le> length names"
    using assms(3) by (auto simp: try_numeric_range_def Let_def split: if_splits option.splits)
  define digits where "digits = takeWhile is_digit (drop k (hd names))"
  define prefix suffix width where "prefix = take k (hd names)" and "suffix = drop (k + length digits) (hd names)" and "width = length digits"
  obtain nums where nums: "range_nums prefix suffix width names = Some (Some nums)"
      "last (sort nums) - hd (sort nums) + 1 = length nums" "text = range_text dir prefix suffix width nums"
    using assms(3) k by (auto simp: try_numeric_range_def Let_def prefix_def suffix_def width_def digits_def split: if_splits option.splits)
  have first: "hd names = prefix @ digits @ suffix"
    unfolding prefix_def suffix_def digits_def
    by (metis append_take_drop_id drop_drop add.commute takeWhile_eq_take)
  have "k < length (hd names)" "is_digit (hd names ! k)" using k(1) by (simp_all add: position_Some)
  then have "drop k (hd names) = hd names ! k # drop (Suc k) (hd names)" by (simp add: Cons_nth_drop_Suc)
  then have digit: "digits \<noteq> []" "is_digit (hd digits)" using \<open>is_digit (hd names ! k)\<close> by (simp_all add: digits_def)
  note rel = range_nums_Some [OF nums(1)]
  have name: "name = prefix @ pad_0 width n @ suffix" if "(name, n) \<in> set (zip names nums)" for name n
  proof -
    from rel that obtain mid where mid: "name = prefix @ mid @ suffix" "length mid = width" "parse_unsigned (2 ^ 64) mid = Some n"
      by (auto simp: list_all2_iff)
    have "hd names \<le> name" using sorted_ends [OF assms(1)] that by (meson set_zip_leftD)
    then have "digits @ suffix \<le> mid @ suffix" by (simp only: first mid(1) append_le_append)
    moreover have "mid \<noteq> []" using mid(2) digit(1) by (auto simp: width_def)
    ultimately have "hd mid \<noteq> CHR ''+''"
      using digit digit_greater_plus [of "hd digits"] by (cases digits; cases mid) auto
    with parse_unsigned_digits [OF mid(3) \<open>mid \<noteq> []\<close>] pad_0_digits [of mid] mid show ?thesis using \<open>mid \<noteq> []\<close> by auto
  qed
  have len: "length nums = length names" using rel by (simp add: list_all2_lengthD)
  have map: "names = map (\<lambda>n. prefix @ pad_0 width n @ suffix) nums"
  proof (rule nth_equalityI)
    fix i assume "i < length names"
    with len have "(names ! i, nums ! i) \<in> set (zip names nums)" by (auto simp: in_set_zip)
    with name \<open>i < length names\<close> len show "names ! i = map (\<lambda>n. prefix @ pad_0 width n @ suffix) nums ! i" by simp
  qed (simp add: len)
  then have "distinct nums" using assms(2) by (metis distinct_map)
  moreover have "nums \<noteq> []" using len k(2) by auto
  ultimately have "set nums = {hd (sort nums)..last (sort nums)}" using sorted_interval nums(2) by blast
  then have "set names = (\<lambda>n. prefix @ pad_0 width n @ suffix) ` {hd (sort nums)..last (sort nums)}"
    by (subst map) simp
  moreover have "text = in_dir dir (prefix @ ''{'' @ pad_0 width (hd (sort nums)) @ ''..'' @ pad_0 width (last (sort nums)) @ ''}'' @
      suffix @ '' ('' @ dec (length names) @ '' files)'')"
    by (simp add: nums(3) range_text_def in_dir_def len)
  ultimately show ?thesis unfolding range_of_def using nums(2) len by metis
qed

text \<open>
  C24: A numeric range in a receipt is exact: for the sorted names of a directory the text
  \<open>dir/prefix{lo..hi}suffix\<close> is only chosen if the names are precisely those that the range
  spells out, each number padded to the width, none missing and none added.
\<close>

theorem range_exact:
  assumes "sorted names" "distinct names" "try_numeric_range dir names = Some (Some text)"
  shows "range_of dir names text"
  using assms by (rule range_exact_lemma)

lemma range_exact_witness:
  "range_of ''/out'' [''f_08.js'', ''f_09.js'', ''f_10.js''] ''/out/f_{08..10}.js (3 files)''"
proof -
  have "try_numeric_range ''/out'' [''f_08.js'', ''f_09.js'', ''f_10.js''] = Some (Some ''/out/f_{08..10}.js (3 files)'')"
    by code_simp
  moreover have "sorted [''f_08.js'', ''f_09.js'', ''f_10.js'']" by (simp add: less_char_def)
  ultimately show ?thesis using range_exact by simp
qed

text \<open>
  The detection of a range panics on the first name that has the prefix and the suffix of the
  pattern but is shorter than both together, since the slice between them is then reversed.
  Ordinary names do this, such as \<open>log.log\<close> after \<open>log.1.log\<close>: the receipt of the action is not written.
\<close>

theorem range_panics:
  assumes "range_nums prefix suffix width names = Some (Some nums)"
    and "starts_with name prefix" "ends_with name suffix" "length name < length prefix + length suffix"
  shows "range_nums prefix suffix width (names @ name # rest) = None"
  using assms
proof (induction names arbitrary: nums)
  case Nil
  then have "\<not> length prefix \<le> length name - length suffix" by (auto simp: ends_with_def)
  with Nil show ?case by (simp add: str_slice_def)
next
  case (Cons n ns)
  then obtain ks where "range_nums prefix suffix width ns = Some (Some ks)" by (auto split: if_splits option.splits)
  from Cons.IH [OF this Cons.prems(2-)] Cons.prems(1) show ?case by (auto split: if_splits option.splits)
qed

lemma range_panics_witness:
  "compress_file_list [''/d/log.1.log'', ''/d/log.2.log'', ''/d/log.log'', ''/d/readme''] = None"
proof -
  have "range_nums ''log.'' ''.log'' 1 [''log.1.log'', ''log.2.log''] = Some (Some [1, 2])"
    "starts_with ''log.log'' ''log.''" "ends_with ''log.log'' ''.log''" by code_simp+
  from range_panics [OF this, of "[''readme'']"]
  have r: "range_nums ''log.'' ''.log'' 1 [''log.1.log'', ''log.2.log'', ''log.log'', ''readme''] = None" by simp
  have "position is_digit ''log.1.log'' = Some 4" "takeWhile is_digit (drop 4 ''log.1.log'') = ''1''"
    "drop (4 + 1) ''log.1.log'' = ''.log''" "take 4 ''log.1.log'' = ''log.''" by code_simp+
  with r have d: "dir_entry ''/d'' [''log.1.log'', ''log.2.log'', ''log.log'', ''readme''] = None"
    by (simp add: dir_entry_def try_numeric_range_def)
  have "list_all (\<lambda>f. \<not> is_sensitive_file f \<and> fst (split_path f) = ''/d'')
      [''/d/log.1.log'', ''/d/log.2.log'', ''/d/log.log'', ''/d/readme'']"
    "map (\<lambda>f. snd (split_path f)) [''/d/log.1.log'', ''/d/log.2.log'', ''/d/log.log'', ''/d/readme''] =
      [''log.1.log'', ''log.2.log'', ''log.log'', ''readme'']" by code_simp+
  then show ?thesis using d by (simp add: compress_file_list_def names_in_def)
qed

section \<open>Compression accounts for every file\<close>

lemma rfind_char_split:
  assumes "rfind_char c s = Some i"
  shows "s = take i s @ c # drop (Suc i) s"
proof -
  obtain j where "find_char c (rev s) = Some j" "i = length s - Suc j" using assms by (auto simp: rfind_char_def)
  then have "i < length s" "s ! i = c" by (auto simp: find_char_def position_Some rev_nth)
  then show ?thesis using id_take_nth_drop by metis
qed

lemma split_path_full:
  assumes "starts_with f ''/''"
  shows "fst (split_path f) @ ''/'' @ snd (split_path f) = f"
proof -
  have "rfind_char CHR ''/'' f \<noteq> None" using assms by (auto simp: rfind_char_None starts_with_iff)
  then obtain i where i: "rfind_char CHR ''/'' f = Some i" by blast
  then show ?thesis using rfind_char_split [OF i] by (simp add: split_path_def)
qed

lemma mset_group:
  assumes "distinct ds" "\<forall>x \<in> set xs. f x \<in> set ds"
  shows "mset (concat (map (\<lambda>d. filter (\<lambda>x. f x = d) xs) ds)) = mset xs"
  using assms
proof (induction ds arbitrary: xs)
  case (Cons d ds)
  let ?rest = "filter (\<lambda>x. f x \<noteq> d) xs"
  have "map (\<lambda>e. filter (\<lambda>x. f x = e) xs) ds = map (\<lambda>e. filter (\<lambda>x. f x = e) ?rest) ds"
  proof (rule map_cong [OF refl])
    fix e assume "e \<in> set ds"
    with Cons.prems(1) have "e \<noteq> d" by auto
    then show "filter (\<lambda>x. f x = e) xs = filter (\<lambda>x. f x = e) ?rest" unfolding filter_filter by (intro filter_cong) auto
  qed
  moreover have "mset (concat (map (\<lambda>e. filter (\<lambda>x. f x = e) ?rest) ds)) = mset ?rest"
    using Cons.prems by (intro Cons.IH) auto
  moreover have "mset xs = mset (filter (\<lambda>x. f x = d) xs) + mset ?rest"
    unfolding mset_filter by (rule multiset_partition)
  ultimately show ?case by (simp only: list.map concat.simps mset_append)
qed simp

text \<open>The lists that the receipt passes on: absolute paths, sorted, each once.\<close>

definition file_list :: "string list \<Rightarrow> bool" where
  "file_list files \<longleftrightarrow> sorted files \<and> distinct files \<and> (\<forall>f \<in> set files. starts_with f ''/'')"

text \<open>What an entry stands for: the path itself; the path of a file in the root directory, without
  its slash; the names of one directory as a range, all of them in braces, or, if they are
  more than five, the first two and the last with their number.\<close>

definition braces_of :: "string \<Rightarrow> string list \<Rightarrow> string \<Rightarrow> bool" where
  "braces_of dir names text \<longleftrightarrow> text = dir @ ''/{'' @ join '','' (sort names) @ ''}''"

definition elided_of :: "string \<Rightarrow> string list \<Rightarrow> string \<Rightarrow> bool" where
  "elided_of dir names text \<longleftrightarrow> 5 < length names \<and>
     text = dir @ ''/{'' @ sort names ! 0 @ '','' @ sort names ! 1 @ '',... '' @ last (sort names) @ ''} ('' @ dec (length names) @ '' files)''"

definition stands_for :: "string list \<Rightarrow> string \<Rightarrow> bool" where
  "stands_for paths text \<longleftrightarrow> paths = [text] \<or> paths = [''/'' @ text] \<or>
     (\<exists>dir names. paths = map (\<lambda>n. dir @ ''/'' @ n) names \<and>
        (range_of dir names text \<or> braces_of dir names text \<or> elided_of dir names text))"

lemma stands_for_single: "list_all2 stands_for (map (\<lambda>f. [f]) fs) fs"
  by (induction fs) (simp_all add: stands_for_def)

lemma names_in_paths:
  assumes "\<forall>f \<in> set files. starts_with f ''/''"
  shows "map (\<lambda>n. dir @ ''/'' @ n) (names_in files dir) = filter (\<lambda>p. fst (split_path p) = dir) files"
proof -
  have "map (\<lambda>n. dir @ ''/'' @ n) (names_in files dir) =
      map (\<lambda>p. dir @ ''/'' @ snd (split_path p)) (filter (\<lambda>p. fst (split_path p) = dir) files)"
    by (simp add: names_in_def)
  also have "\<dots> = map (\<lambda>p. p) (filter (\<lambda>p. fst (split_path p) = dir) files)"
    using assms split_path_full by (intro map_cong) auto
  finally show ?thesis by simp
qed

lemma map_prefix:
  "sorted (map (\<lambda>n. p @ n) ns) = sorted (ns :: string list)" "distinct (map (\<lambda>n. p @ n) ns) = distinct ns"
  by (induction ns) auto

lemma names_in_sorted:
  assumes "file_list files"
  shows "sorted (names_in files dir) \<and> distinct (names_in files dir)"
proof -
  have paths: "map (\<lambda>n. (dir @ ''/'') @ n) (names_in files dir) = filter (\<lambda>p. fst (split_path p) = dir) files"
    using names_in_paths [of files dir] assms unfolding file_list_def append_assoc by blast
  have "sorted (map (\<lambda>n. (dir @ ''/'') @ n) (names_in files dir))"
    unfolding paths using assms sorted_filter [of "\<lambda>p. p" files] by (simp add: file_list_def)
  moreover have "distinct (map (\<lambda>n. (dir @ ''/'') @ n) (names_in files dir))"
    unfolding paths using assms by (simp add: file_list_def)
  ultimately show ?thesis unfolding map_prefix by blast
qed

lemma dir_entry_stands_for:
  assumes "file_list files" "dir_entry dir (names_in files dir) = Some text"
  shows "stands_for (filter (\<lambda>p. fst (split_path p) = dir) files) text"
proof -
  define names where "names = names_in files dir"
  have paths: "filter (\<lambda>p. fst (split_path p) = dir) files = map (\<lambda>n. dir @ ''/'' @ n) names"
    using names_in_paths assms(1) by (simp add: names_def file_list_def)
  consider n where "names = [n]" "text = (if dir = [] then n else dir @ ''/'' @ n)"
    | "try_numeric_range dir names = Some (Some text)" | "braces_of dir names text \<or> elided_of dir names text"
    using assms(2) by (auto simp: dir_entry_def names_def [symmetric] bind_eq_Some_conv braces_of_def elided_of_def Let_def length_Suc_conv
      split: if_splits option.splits)
  then show ?thesis
  proof cases
    case 1
    then show ?thesis unfolding paths by (auto simp: stands_for_def)
  next
    case 2
    have "range_of dir names text"
      using range_exact_lemma [OF _ _ 2] names_in_sorted [OF assms(1), of dir] by (simp add: names_def)
    then show ?thesis unfolding paths stands_for_def by blast
  next
    case 3
    then show ?thesis unfolding paths stands_for_def by blast
  qed
qed


lemma concat_map_singleton_id: "concat (map (\<lambda>x. [x]) xs) = xs"
  by (induction xs) simp_all

lemma those_list_all2:
  "those (map g xs) = Some ys \<Longrightarrow> (\<And>x y. x \<in> set xs \<Longrightarrow> g x = Some y \<Longrightarrow> P (h x) y) \<Longrightarrow> list_all2 P (map h xs) ys"
  by (induction xs arbitrary: ys) (auto split: option.splits)



text \<open>The noise filter comes first, and it is wider than its comments: these sensitive files are never
  listed at all, nor are any files below a directory whose name starts with a digit.\<close>

lemma sensitive_but_noise:
  "list_all (\<lambda>f. is_sensitive_file f \<and> is_noise_file f)
     [''/dev/shm/secret'', ''/usr/lib/app/credentials.json'', ''/root/.ssh/id.sources'', ''/2024/secret.txt'']"
  by code_simp

text \<open>A file of the root directory loses its slash in a compressed list.\<close>

lemma root_file_without_slash:
  "compress_file_list [''/a/x'', ''/b/y'', ''/c/z'', ''/report''] = Some [''/a/x'', ''/b/y'', ''/c/z'', ''report'']"
  by code_simp


end
