(* ===== verification/Communities.thy ===== *)
theory Communities
  imports State Ingest
begin

text \<open>
  \<open>src/src/communities.rs\<close>: the processes of an action are grouped by binary name and connection by
  forks, groups that communicate heavily are merged with a union-find structure, and the result is
  sorted by size. The orders in which the hash maps are iterated are the argument \<open>H\<close>. The text
  of a community in a receipt is in \<open>Receipt\<close>.
\<close>

definition COMMUNITY_MERGE_EVENT_THRESHOLD :: nat where "COMMUNITY_MERGE_EVENT_THRESHOLD = 10"

record Community =
  cm_id :: nat
  cm_label :: string
  cm_members :: "u32 list"
  cm_representative_pid :: u32
  cm_avg_taint_score :: rat

section \<open>Summaries of a group\<close>

text \<open>\<open>max_by_key\<close> returns the last of the maximal elements.\<close>

definition cmdline_length :: "ContainerState \<Rightarrow> u32 \<Rightarrow> nat" where
  "cmdline_length c pid = (case hm_get (process_table c) pid of Some info \<Rightarrow> length (pi_cmdline info) | None \<Rightarrow> 0)"

definition find_representative :: "ContainerState \<Rightarrow> u32 list \<Rightarrow> u32" where
  "find_representative c pids =
     (case pids of
        [] \<Rightarrow> 0
      | p # ps \<Rightarrow> fold (\<lambda>q best. if cmdline_length c best \<le> cmdline_length c q then q else best) ps p)"

definition avg_taint_score :: "ContainerState \<Rightarrow> u32 list \<Rightarrow> rat" where
  "avg_taint_score c pids =
     (if pids = [] then 0
      else (let total = fold (\<lambda>pid sum. fadd sum (taint_score (process_table c) pid)) pids 0
            in f64_round (total / f64_round (of_nat (length pids)))))"

definition community :: "ContainerState \<Rightarrow> nat \<Rightarrow> string \<Rightarrow> u32 list \<Rightarrow> Community" where
  "community c i label members =
     \<lparr>cm_id = i, cm_label = label, cm_members = members,
      cm_representative_pid = find_representative c members, cm_avg_taint_score = avg_taint_score c members\<rparr>"

section \<open>Components of a name\<close>

definition comm_of :: "ContainerState \<Rightarrow> u32 \<Rightarrow> string" where
  "comm_of c pid = (case hm_get (process_table c) pid of Some info \<Rightarrow> decode_comm (pi_comm info) | None \<Rightarrow> ''?'')"

definition group_by_comm :: "ContainerState \<Rightarrow> u32 list \<Rightarrow> (string, u32 list) hashmap" where
  "group_by_comm c pids = fold (\<lambda>pid m. hm_push (comm_of c pid) pid m) pids []"

type_synonym adjacency = "(u32, u32 list) hashmap"

definition fork_adjacency :: "TaintEdge list \<Rightarrow> u32 list \<Rightarrow> adjacency" where
  "fork_adjacency edges pids =
     fold (\<lambda>e adj.
       if te_channel_type e = Fork \<and> te_source_pid e \<in> set pids \<and> te_target_pid e \<in> set pids
       then hm_push (te_target_pid e) (te_source_pid e) (hm_push (te_source_pid e) (te_target_pid e) adj)
       else adj) edges []"

text \<open>The search from a process. The queue is a vector used as a stack: its last element is the
  head of the list here.\<close>

function search :: "adjacency \<Rightarrow> u32 list \<Rightarrow> u32 list \<Rightarrow> u32 list \<Rightarrow> u32 list \<times> u32 list" where
  "search adj visited found [] = (visited, found)"
| "search adj visited found (current # queue) =
     (if current \<in> set visited then search adj visited found queue
      else (let visited' = current # visited;
                unvisited = filter (\<lambda>n. n \<notin> set visited') (hm_list adj current)
            in search adj visited' (found @ [current]) (rev unvisited @ queue)))"
  by pat_completeness auto

text \<open>Each step either takes from the stack only, or visits a new key of the adjacency map.\<close>

termination
proof (relation "measures [\<lambda>(adj, visited, found, queue). card (set (hm_keys adj) - set visited),
    \<lambda>(adj, visited, found, queue). length queue]", goal_cases)
  case (3 adj visited found current queue visited' unvisited)
  show ?case
  proof (cases "current \<in> set (hm_keys adj)")
    case True
    then have "set (hm_keys adj) - set visited' \<subset> set (hm_keys adj) - set visited" using 3 by auto
    then show ?thesis by (simp add: psubset_card_mono)
  next
    case False
    then have "set (hm_keys adj) - set visited' = set (hm_keys adj) - set visited" using 3 by auto
    moreover have "hm_get adj current = None" using False by (simp add: map_of_eq_None_iff)
    then have "unvisited = []" using 3 by (simp add: hm_list_def)
    ultimately show ?thesis by simp
  qed
qed auto

type_synonym partitioning = "Community list \<times> (u32, nat) hashmap"

definition add_component :: "ContainerState \<Rightarrow> string \<Rightarrow> u32 list \<Rightarrow> partitioning \<Rightarrow> partitioning" where
  "add_component c comm found = (\<lambda>(communities, pid_to_community).
     let i = length communities
     in (communities @ [community c i comm found],
         fold (\<lambda>p m. hm_insert p i m) found pid_to_community))"

definition visit_pid :: "ContainerState \<Rightarrow> string \<Rightarrow> adjacency \<Rightarrow> u32 \<Rightarrow> u32 list \<times> partitioning \<Rightarrow> u32 list \<times> partitioning" where
  "visit_pid c comm adj pid = (\<lambda>(visited, part).
     if pid \<in> set visited then (visited, part)
     else (case search adj visited [] [pid] of (visited', found) \<Rightarrow> (visited', add_component c comm found part)))"

definition name_group :: "ContainerState \<Rightarrow> string \<Rightarrow> u32 list \<Rightarrow> partitioning \<Rightarrow> partitioning" where
  "name_group c comm pids part =
     snd (fold (visit_pid c comm (fork_adjacency (tg_edges (taint_graph c)) pids)) pids ([], part))"

definition name_groups :: "hash_order \<Rightarrow> ContainerState \<Rightarrow> u32 list \<Rightarrow> partitioning" where
  "name_groups H c pids =
     (let by_comm = group_by_comm c (ord_pid H pids)
      in fold (\<lambda>comm. name_group c comm (hm_list by_comm comm)) (ord_str H (hm_keys by_comm)) ([], []))"

section \<open>Merging\<close>

definition find_merges :: "TaintEdge list \<Rightarrow> (u32, nat) hashmap \<Rightarrow> (nat \<times> nat) list" where
  "find_merges edges pid_to_community =
     List.map_filter (\<lambda>e.
       if te_channel_type e = Fork \<or> te_event_count e < COMMUNITY_MERGE_EVENT_THRESHOLD then None
       else (case (hm_get pid_to_community (te_source_pid e), hm_get pid_to_community (te_target_pid e)) of
               (Some c1, Some c2) \<Rightarrow> if c1 \<noteq> c2 then Some (min c1 c2, max c1 c2) else None
             | _ \<Rightarrow> None)) edges"

text \<open>\<open>find_root\<close>: None if an index is out of range (a panic) or the loop does not end.\<close>

partial_function (option) find_root :: "nat list \<Rightarrow> nat \<Rightarrow> nat option" where
  "find_root parent i =
     (if length parent \<le> i then None
      else if parent ! i = i then Some i else find_root parent (parent ! i))"

declare find_root.simps [code]

definition union_step :: "nat list \<Rightarrow> nat \<times> nat \<Rightarrow> nat list option" where
  "union_step parent = (\<lambda>(a, b).
     do {
       ra \<leftarrow> find_root parent a;
       rb \<leftarrow> find_root parent b;
       Some (if ra \<noteq> rb then parent[rb := ra] else parent)
     })"

fun unite :: "(nat \<times> nat) list \<Rightarrow> nat list \<Rightarrow> nat list option" where
  "unite [] parent = Some parent"
| "unite (m # ms) parent = do { parent' \<leftarrow> union_step parent m; unite ms parent' }"

fun group_roots :: "nat list \<Rightarrow> nat list \<Rightarrow> (nat, nat list) hashmap \<Rightarrow> (nat, nat list) hashmap option" where
  "group_roots parent [] m = Some m"
| "group_roots parent (i # is) m = do { root \<leftarrow> find_root parent i; group_roots parent is (hm_push root i m) }"

definition merged_label :: "string list \<Rightarrow> string" where
  "merged_label labels =
     (if length labels \<le> 2 then join ''+'' labels
      else (case labels of [] \<Rightarrow> [] | l # ls \<Rightarrow> l @ ''+'' @ dec (length ls) @ '' others''))"

definition merge_group :: "ContainerState \<Rightarrow> Community list \<Rightarrow> nat list \<Rightarrow> Community list \<Rightarrow> Community list" where
  "merge_group c communities indices merged =
     (case indices of
        [i] \<Rightarrow> merged @ [communities ! i]
      | _ \<Rightarrow> merged @ [community c (length merged)
          (merged_label (fold (\<lambda>i. push_unique (cm_label (communities ! i))) indices []))
          (concat (map (\<lambda>i. cm_members (communities ! i)) indices))])"

definition merge_communities :: "hash_order \<Rightarrow> ContainerState \<Rightarrow> (nat \<times> nat) list \<Rightarrow> Community list \<Rightarrow> Community list option" where
  "merge_communities H c merges communities =
     (if merges = [] then Some communities
      else do {
        parent \<leftarrow> unite merges [0..<length communities];
        merged_groups \<leftarrow> group_roots parent [0..<length communities] [];
        Some (fold (\<lambda>root. merge_group c communities (hm_list merged_groups root)) (ord_idx H (hm_keys merged_groups)) [])
      })"

section \<open>Detection\<close>

definition by_size :: "Community list \<Rightarrow> Community list" where
  "by_size communities = map2 (\<lambda>i cm. cm\<lparr>cm_id := i\<rparr>) [0..<length communities]
     (sort_key (\<lambda>cm. - int (length (cm_members cm))) communities)"

definition detect_communities :: "hash_order \<Rightarrow> ContainerState \<Rightarrow> u32 list \<Rightarrow> Community list option" where
  "detect_communities H c action_pids =
     (if action_pids = [] then Some []
      else (case name_groups H c action_pids of
              (communities, pid_to_community) \<Rightarrow>
                map_option by_size
                  (merge_communities H c (find_merges (tg_edges (taint_graph c)) pid_to_community) communities)))"

end
