(* ===== verification/Receipt.thy ===== *)
theory Receipt
  imports Receipt_Files Communities Semantic "HOL-Library.Product_Lexorder"
begin

text \<open>
  The texts of \<open>src/src/receipt.rs\<close>, with the parts of \<open>semantic.rs\<close> and \<open>communities.rs\<close> that write into
  them. A function that writes to the output is a function to the list of the lines it writes;
  None is a panic (the slices of \<open>try_numeric_range\<close>, and of short ids) or a community search
  that does not return. The clock is an argument.
\<close>

definition text_of :: "string list \<Rightarrow> string" where
  "text_of ls = concat (map (\<lambda>l. l @ [CHR 0x0A]) ls)"

section \<open>Names and addresses\<close>

definition annotate_addr :: "(ipv4, string) hashmap \<Rightarrow> string \<Rightarrow> string" where
  "annotate_addr ip_map addr =
     (case do {
        (ip_str, port) \<leftarrow> rsplit_once CHR '':'' addr;
        ip \<leftarrow> parse_ipv4 ip_str;
        hm_get ip_map ip
      } of Some cid \<Rightarrow> addr @ '' (container '' @ cid @ '')'' | None \<Rightarrow> addr)"

definition process_name :: "ContainerState \<Rightarrow> u32 \<Rightarrow> string" where
  "process_name c pid =
     (case hm_get (process_table c) pid of
        Some i \<Rightarrow> decode_comm (pi_comm i) @ '':'' @ dec (unat pid)
      | None \<Rightarrow> ''?:'' @ dec (unat pid))"

section \<open>Commands\<close>

definition looks_like_ip_or_url :: "string \<Rightarrow> bool" where
  "looks_like_ip_or_url token \<longleftrightarrow>
     starts_with token ''http://'' \<or> starts_with token ''https://'' \<or>
     (let parts = split_char CHR ''.'' (hd (split_char CHR '':'' token))
      in length parts = 4 \<and> list_all (\<lambda>p. parse_unsigned 256 p \<noteq> None) parts)"

definition TEMP_BASENAME_MIN_LEN :: nat where "TEMP_BASENAME_MIN_LEN = 6"
definition CC_TEMP_MIN_LEN :: nat where "CC_TEMP_MIN_LEN = 8"

definition looks_like_temp_path :: "string \<Rightarrow> bool" where
  "looks_like_temp_path token =
     (let filename = last (split_char CHR ''/'' token);
          base = hd (split_char CHR ''.'' filename);
          mixed = (if list_ex is_upper base then 1 else 0) + (if list_ex is_lower base then 1 else 0) +
                  (if list_ex is_digit base then 1 else (0::nat))
      in if starts_with filename ''-'' \<or> filename = [] then False
         else if length base < TEMP_BASENAME_MIN_LEN then False
         else 3 \<le> mixed \<and> contains token ''/tmp/'' \<or> starts_with base ''cc'' \<and> 2 \<le> mixed \<and> CC_TEMP_MIN_LEN \<le> length base)"

definition normalize_token :: "string \<Rightarrow> string" where
  "normalize_token token =
     (if looks_like_temp_path token then ''<TMP>'' else if looks_like_ip_or_url token then ''<ADDR>'' else token)"

definition normalize_cmd_for_dedup :: "string \<Rightarrow> string" where
  "normalize_cmd_for_dedup cmd =
     fold (\<lambda>token result. (if result = [] then [] else result @ '' '') @ normalize_token token) (split_char CHR '' '' cmd) []"

section \<open>Processes\<close>

record ProcLine =
  pl_pid :: u32
  pl_exe :: string
  pl_cmdline :: string
  pl_count :: nat

record ProcSummary =
  ps_procs :: "ProcLine list"
  ps_seen :: "(string, nat) hashmap"
  ps_forks :: nat
  ps_exits :: nat

definition RUNTIME_BINARIES :: "string list" where
  "RUNTIME_BINARIES = [''/runc'', ''/usr/bin/runc'', ''/usr/sbin/runc'']"

definition summary_step :: "ContainerState \<Rightarrow> ProcessEvent \<Rightarrow> ProcSummary \<Rightarrow> ProcSummary" where
  "summary_step c ev s =
     (case pv_operation ev of
        POExec \<Rightarrow>
          if pv_exe ev \<in> set RUNTIME_BINARIES then s
          else (let cmdline = (case hm_get (process_table c) (pv_pid ev) of Some i \<Rightarrow> pi_cmdline i | None \<Rightarrow> []);
                    normalized = normalize_cmd_for_dedup cmdline
                in case hm_get (ps_seen s) normalized of
                     Some idx \<Rightarrow> s\<lparr>ps_procs := (ps_procs s)[idx := (ps_procs s ! idx)\<lparr>pl_count := pl_count (ps_procs s ! idx) + 1\<rparr>]\<rparr>
                   | None \<Rightarrow> s\<lparr>ps_seen := hm_insert normalized (length (ps_procs s)) (ps_seen s),
                               ps_procs := ps_procs s @ [\<lparr>pl_pid = pv_pid ev, pl_exe = pv_exe ev, pl_cmdline = cmdline, pl_count = 1\<rparr>]\<rparr>)
      | POFork \<Rightarrow> s\<lparr>ps_forks := ps_forks s + 1\<rparr>
      | POExit \<Rightarrow> s\<lparr>ps_exits := ps_exits s + 1\<rparr>
      | POSignal \<Rightarrow> s)"

definition summary_of :: "ContainerState \<Rightarrow> ProcessEvent list \<Rightarrow> ProcSummary" where
  "summary_of c evs = fold (summary_step c) evs \<lparr>ps_procs = [], ps_seen = [], ps_forks = 0, ps_exits = 0\<rparr>"

definition proc_line :: "ContainerState \<Rightarrow> ProcLine \<Rightarrow> string" where
  "proc_line c p =
     (let name = (case hm_get (process_table c) (pl_pid p) of
                    Some i \<Rightarrow> decode_comm (pi_comm i)
                  | None \<Rightarrow> last (split_char CHR ''/'' (pl_exe p)));
          count_str = (if 1 < pl_count p then '' (x'' @ dec (pl_count p) @ '')'' else [])
      in if pl_cmdline p \<noteq> [] \<and> pl_cmdline p \<noteq> pl_exe p
         then ''  ['' @ name @ '':'' @ dec (unat (pl_pid p)) @ ''] $ '' @ pl_cmdline p @ count_str
         else ''  ['' @ name @ '':'' @ dec (unat (pl_pid p)) @ '']'' @ count_str)"

definition write_process_summary :: "ContainerState \<Rightarrow> ActionLog \<Rightarrow> string list" where
  "write_process_summary c action =
     (let s = summary_of c (al_process_events action)
      in if ps_procs s = [] \<and> ps_forks s = 0 then []
         else [''PROCESSES: '' @ dec (length (ps_procs s)) @ '' unique, '' @ dec (ps_forks s) @ '' forked, '' @ dec (ps_exits s) @ '' exited''] @
              map (proc_line c) (ps_procs s) @ [[]])"

section \<open>Communities\<close>

definition COMMUNITY_SINGLE_TRUNCATE :: nat where "COMMUNITY_SINGLE_TRUNCATE = 100"
definition COMMUNITY_MULTI_TRUNCATE :: nat where "COMMUNITY_MULTI_TRUNCATE = 80"
definition COMMUNITY_DISPLAY_THRESHOLD :: nat where "COMMUNITY_DISPLAY_THRESHOLD = 3"

text \<open>\<open>{:.0}\<close> of a non-negative value; \<open>truncate\<close> is the same function as in \<open>semantic.rs\<close>.\<close>

definition format_0 :: "rat \<Rightarrow> string" where
  "format_0 x = dec (nat (round_even x))"

definition format_community :: "ContainerState \<Rightarrow> Community \<Rightarrow> string" where
  "format_community c cm =
     (let repr = (case hm_get (process_table c) (cm_representative_pid cm) of
                    Some info \<Rightarrow> if pi_cmdline info \<noteq> [] then pi_cmdline info else pi_exec_path info
                  | None \<Rightarrow> cm_label cm)
      in if length (cm_members cm) = 1 then ''  '' @ truncate_str repr COMMUNITY_SINGLE_TRUNCATE
         else ''  ['' @ cm_label cm @ '' x'' @ dec (length (cm_members cm)) @ ''] '' @ truncate_str repr COMMUNITY_MULTI_TRUNCATE @
              '' (taint avg '' @ format_0 (fmul (cm_avg_taint_score cm) 100) @ ''%)'')"

definition write_communities :: "hash_order \<Rightarrow> ContainerState \<Rightarrow> u32 list \<Rightarrow> string list panicking" where
  "write_communities H c action_pids = do {
     comms \<leftarrow> detect_communities H c action_pids;
     (let large = filter (\<lambda>cm. COMMUNITY_DISPLAY_THRESHOLD < length (cm_members cm)) comms;
          small = sum_list (map (\<lambda>cm. length (cm_members cm)) (filter (\<lambda>cm. length (cm_members cm) \<le> COMMUNITY_DISPLAY_THRESHOLD) comms))
      in Some (if large = [] then []
               else [''PROCESS COMMUNITIES:''] @ map (format_community c) large @
                    (if 0 < small then [''  + '' @ dec small @ '' individual processes''] else []) @ [[]]))
   }"

section \<open>The semantic summary\<close>

text \<open>The techniques of an action: severity and descriptions, in the order of the identifiers, then
  stably by severity.\<close>

definition technique_step :: "SemanticOp \<Rightarrow> (string, nat \<times> string list) hashmap \<Rightarrow> (string, nat \<times> string list) hashmap" where
  "technique_step op m =
     hm_modify (so_mitre_id op) (\<lambda>(sev, ds). (max sev (so_severity op), push_unique (so_description op) ds))
       (hm_or_insert (so_mitre_id op) (so_severity op, []) m)"

definition severity_marker :: "nat \<Rightarrow> string" where
  "severity_marker severity = (if severity = 0 then '' '' else if severity = 1 then ''.'' else if severity = 2 then ''!'' else ''!!'')"

definition technique_line :: "string \<times> nat \<times> string list \<Rightarrow> string" where
  "technique_line = (\<lambda>(technique_id, severity, descriptions).
     ''    '' @ severity_marker severity @ '' ['' @ technique_id @ ''] '' @ hd descriptions @
     (if length descriptions = 1 then [] else '' (x'' @ dec (length descriptions) @ '')''))"

definition action_techniques :: "SemanticOp list \<Rightarrow> (string \<times> nat \<times> string list) list" where
  "action_techniques ops =
     (let m = fold technique_step ops []
      in sort_key (\<lambda>(t, sev, ds). - int sev)
           (List.map_filter (\<lambda>t. map_option (\<lambda>v. (t, v)) (hm_get m t)) (sort (hm_keys m))))"

definition format_for_receipt :: "SemanticOp list \<Rightarrow> string list" where
  "format_for_receipt ops =
     (if ops = [] then []
      else [''SEMANTIC SUMMARY:''] @
           concat (map (\<lambda>aid. (''  Action #'' @ dec aid @ '':'') #
               map technique_line (action_techniques (filter (\<lambda>op. so_action_id op = aid) ops)))
             (sort (remdups (map so_action_id ops)))) @ [[]])"

definition write_semantic_summary :: "hash_order \<Rightarrow> ContainerState \<Rightarrow> nat \<Rightarrow> string list" where
  "write_semantic_summary H c action_id =
     format_for_receipt (filter (\<lambda>op. so_action_id op = action_id) (detect_operations H c))"

section \<open>Merging of flow lines\<close>

definition split_once :: "string \<Rightarrow> string \<Rightarrow> (string \<times> string) option" where
  "split_once p s = map_option (\<lambda>i. (take i s, drop (i + length p) s)) (find_sub p s)"

definition strip_pid :: "string \<Rightarrow> string" where
  "strip_pid name =
     (case rfind_char CHR '':'' name of
        Some i \<Rightarrow> if list_all is_digit (drop (Suc i) name) then take i name else name
      | None \<Rightarrow> name)"

definition find_verb :: "string \<Rightarrow> nat option" where
  "find_verb s =
     (case List.map_filter (\<lambda>verb. find_sub verb s) ['' reads '', '' writes '', '' connects '', '' listens ''] of
        [] \<Rightarrow> None
      | pos # _ \<Rightarrow> Some (pos + 1))"

definition edge_sort_key :: "string \<Rightarrow> nat \<times> string \<times> string" where
  "edge_sort_key edge =
     (let s = trim edge in
      if contains s '' -> '' then (0, s, [])
      else (case List.map_filter (\<lambda>(priority, verb). map_option (\<lambda>pos. (priority, drop (pos + length verb) s, take pos s)) (find_sub verb s))
                   [(1, '' reads ''), (2, '' writes ''), (3, '' connects ''), (4, '' listens '')] of
              k # _ \<Rightarrow> k
            | [] \<Rightarrow> if contains s ''wrote'' then (5, s, []) else if contains s ''pre-existing'' then (6, s, []) else (9, s, [])))"

text \<open>A line with an arrow: source, target and the type at the end. A line with a verb: subject, and
  verb with the rest.\<close>

definition arrow_parts :: "string \<Rightarrow> (string \<times> string \<times> string) option" where
  "arrow_parts line = do {
     (left, right) \<leftarrow> split_once '' -> '' (trim line);
     (target, edge_type) \<leftarrow> rsplit_once CHR '' '' right;
     Some (left, target, edge_type)
   }"

definition verb_parts :: "string \<Rightarrow> (string \<times> string) option" where
  "verb_parts line = map_option (\<lambda>pos. (trim (take pos (trim line)), drop pos (trim line))) (find_verb (trim line))"

text \<open>The lines that follow one and are merged with it.\<close>

definition arrow_run :: "string \<Rightarrow> string list \<Rightarrow> string list" where
  "arrow_run line rest =
     (case arrow_parts line of
        None \<Rightarrow> []
      | Some (left, target, edge_type) \<Rightarrow>
          takeWhile (\<lambda>next. case arrow_parts next of
              Some (nl, nt, ny) \<Rightarrow> nl = left \<and> ny = edge_type \<and> strip_pid nt = strip_pid target
            | None \<Rightarrow> False) rest)"

definition verb_run :: "string \<Rightarrow> string list \<Rightarrow> string list" where
  "verb_run line rest =
     (case verb_parts line of
        None \<Rightarrow> []
      | Some (subject, tail) \<Rightarrow>
          takeWhile (\<lambda>next. case verb_parts next of
              Some (ns, nt) \<Rightarrow> nt = tail \<and> strip_pid ns = strip_pid subject
            | None \<Rightarrow> False) rest)"

definition arrow_target :: "string \<Rightarrow> string" where
  "arrow_target line = (case arrow_parts line of Some (l, t, y) \<Rightarrow> t | None \<Rightarrow> [])"

definition verb_subject :: "string \<Rightarrow> string" where
  "verb_subject line = (case verb_parts line of Some (s, t) \<Rightarrow> s | None \<Rightarrow> [])"

definition arrow_line :: "string \<Rightarrow> string list \<Rightarrow> string" where
  "arrow_line line run =
     (case arrow_parts line of
        Some (left, target, edge_type) \<Rightarrow> ''  '' @ left @ '' -> '' @ join '', '' (target # map arrow_target run) @ '' '' @ edge_type
      | None \<Rightarrow> line)"

definition verb_line :: "string \<Rightarrow> string list \<Rightarrow> string" where
  "verb_line line run =
     (case verb_parts line of
        Some (subject, tail) \<Rightarrow> ''  '' @ join '', '' (subject # map verb_subject run) @ '' '' @ tail
      | None \<Rightarrow> line)"

function compress_fork_edges :: "string list \<Rightarrow> string list" where
  "compress_fork_edges [] = []"
| "compress_fork_edges (line # rest) =
     (if arrow_run line rest \<noteq> []
      then arrow_line line (arrow_run line rest) # compress_fork_edges (drop (length (arrow_run line rest)) rest)
      else if verb_run line rest \<noteq> []
      then verb_line line (verb_run line rest) # compress_fork_edges (drop (length (verb_run line rest)) rest)
      else line # compress_fork_edges rest)"
  by pat_completeness auto
termination
  by (relation "measure length") auto


section \<open>The flows of an action\<close>

text \<open>The files with their nodes that are not noise, in the order of the map.\<close>

definition noted_files :: "hash_order \<Rightarrow> ContainerState \<Rightarrow> (string \<times> FileNode) list" where
  "noted_files H c =
     List.map_filter (\<lambda>path. if is_noise_file path then None else map_option (\<lambda>n. (path, n)) (hm_get (file_nodes c) path))
       (ord_str H (hm_keys (file_nodes c)))"

text \<open>Flows from earlier actions: the line with the reader and the path that it explains.\<close>

definition prior_flows :: "ContainerState \<Rightarrow> nat \<Rightarrow> u32 list \<Rightarrow> string \<times> FileNode \<Rightarrow> (string \<times> u32 \<times> string) list" where
  "prior_flows c action_id action_pids = (\<lambda>(path, node).
     (let prior_writers = filter (\<lambda>(p, aid). aid \<noteq> action_id \<and> aid \<noteq> 0) (fn_writers node);
          action_readers = map fst (filter (\<lambda>(p, aid). p \<in> set action_pids) (fn_readers node @ fn_executors node))
      in concat (map (\<lambda>(wpid, waid).
           map (\<lambda>rpid. (''  '' @ process_name c wpid @ '' (action #'' @ dec waid @ '') wrote '' @ path @ '' -> '' @ process_name c rpid @ '' reads'',
                        rpid, path))
             (filter (\<lambda>rpid. rpid \<notin> fst ` set (fn_writers node)) action_readers)) prior_writers)))"

definition add_file :: "string \<Rightarrow> string \<Rightarrow> (string, string list) hashmap \<Rightarrow> (string, string list) hashmap" where
  "add_file name path m = hm_modify name (push_unique path) (hm_or_insert name [] m)"

definition reads_from_nodes ::
  "ContainerState \<Rightarrow> u32 list \<Rightarrow> (u32 \<times> string) list \<Rightarrow> (string \<times> FileNode) list \<Rightarrow> (string, string list) hashmap" where
  "reads_from_nodes c action_pids covered files =
     fold (\<lambda>(path, node). fold (\<lambda>(pid, aid) m.
         if pid \<notin> set action_pids \<or> (pid, path) \<in> set covered then m else add_file (process_name c pid) path m)
       (fn_readers node @ fn_executors node)) files []"

definition reads_from_processes ::
  "hash_order \<Rightarrow> ContainerState \<Rightarrow> u32 list \<Rightarrow> (u32 \<times> string) list \<Rightarrow> (string, string list) hashmap \<Rightarrow> (string, string list) hashmap" where
  "reads_from_processes H c action_pids covered m0 =
     fold (\<lambda>pid m. case hm_get (process_table c) pid of
         None \<Rightarrow> m
       | Some info \<Rightarrow>
           fold (\<lambda>f. if is_noise_file f \<or> (pid, f) \<in> set covered then id else add_file (process_name c pid) f)
             (pi_open_files info) (hm_or_insert (process_name c pid) [] m))
       (ord_pid H action_pids) m0"

definition writes_from_nodes ::
  "ContainerState \<Rightarrow> nat \<Rightarrow> u32 list \<Rightarrow> (string \<times> FileNode) list \<Rightarrow> (string, string list) hashmap" where
  "writes_from_nodes c action_id action_pids files =
     fold (\<lambda>(path, node). fold (\<lambda>(pid, aid) m.
         if aid \<noteq> action_id \<or> pid \<notin> set action_pids then m else add_file (process_name c pid) path m)
       (fn_writers node)) files []"

definition file_lines :: "hash_order \<Rightarrow> string \<Rightarrow> bool \<Rightarrow> (string, string list) hashmap \<Rightarrow> string list panicking" where
  "file_lines H verb dedup m =
     map_option concat (those (map (\<lambda>name. do {
         compressed \<leftarrow> compress_file_list ((if dedup then remdups_adj else id) (sort (hm_list m name)));
         Some (if compressed = [] then [] else [''  '' @ name @ verb @ join '', '' compressed])
       }) (ord_str H (hm_keys m))))"

definition edge_lines :: "ContainerState \<Rightarrow> u32 list \<Rightarrow> string list" where
  "edge_lines c action_pids =
     List.map_filter (\<lambda>e.
       if te_source_pid e \<notin> set action_pids \<and> te_target_pid e \<notin> set action_pids \<or> te_channel_type e = FileFlow then None
       else Some (''  '' @ process_name c (te_source_pid e) @ '' -> '' @ process_name c (te_target_pid e) @ '' ('' @
                  show_ChannelType (te_channel_type e) @ '')'')) (tg_edges (taint_graph c))"

definition net_lines :: "hash_order \<Rightarrow> ContainerState \<Rightarrow> u32 list \<Rightarrow> (ipv4, string) hashmap \<Rightarrow> string list" where
  "net_lines H c action_pids ip_map =
     concat (map (\<lambda>pid. case hm_get (process_table c) pid of
         None \<Rightarrow> []
       | Some info \<Rightarrow>
           (let connects = fold (\<lambda>conn cs. case strip_prefix ''connect '' conn of
                               Some addr \<Rightarrow> push_unique (annotate_addr ip_map addr) cs | None \<Rightarrow> cs) (pi_net_connections info) [];
                listens = fold (\<lambda>conn ls. if strip_prefix ''connect '' conn \<noteq> None then ls
                             else case strip_prefix ''listen '' conn of Some addr \<Rightarrow> push_unique addr ls | None \<Rightarrow> ls)
                            (pi_net_connections info) [];
                name = process_name c pid
            in (if connects = [] then [] else [''  '' @ name @ '' connects '' @ join '', '' connects]) @
               (if listens = [] then [] else [''  '' @ name @ '' listens '' @ join '', '' listens])))
       (ord_pid H action_pids))"

definition influence_lines :: "ContainerState \<Rightarrow> u32 list \<Rightarrow> string list" where
  "influence_lines c action_pids =
     List.map_filter (\<lambda>e.
       case (hm_get (process_table c) (te_target_pid e), hm_get (process_table c) (te_source_pid e)) of
         (Some target, Some source) \<Rightarrow>
           if is_tainted source \<and> contains (pi_taint_source target) ''from pid'' \<and>
              te_target_pid e \<notin> set action_pids \<and> te_source_pid e \<in> set action_pids
           then Some (''  '' @ process_name c (te_target_pid e) @ '' [pre-existing] influenced by '' @ process_name c (te_source_pid e) @
                      '' via '' @ show_ChannelType (te_channel_type e))
           else None
       | _ \<Rightarrow> None) (tg_edges (taint_graph c))"

definition flow_lines :: "hash_order \<Rightarrow> ContainerState \<Rightarrow> nat \<Rightarrow> u32 list \<Rightarrow> (ipv4, string) hashmap \<Rightarrow> string list panicking" where
  "flow_lines H c action_id action_pids ip_map =
     (let files = noted_files H c;
          prior = concat (map (prior_flows c action_id action_pids) files);
          covered = map snd prior
      in do {
        reads \<leftarrow> file_lines H '' reads '' True (reads_from_processes H c action_pids covered (reads_from_nodes c action_pids covered files));
        writes \<leftarrow> file_lines H '' writes '' False (writes_from_nodes c action_id action_pids files);
        Some (map fst prior @ reads @ writes @ edge_lines c action_pids @ net_lines H c action_pids ip_map @ influence_lines c action_pids)
      })"

definition write_graph_diff :: "hash_order \<Rightarrow> ContainerState \<Rightarrow> nat \<Rightarrow> u32 list \<Rightarrow> (ipv4, string) hashmap \<Rightarrow> string list panicking" where
  "write_graph_diff H c action_id action_pids ip_map = do {
     flows \<leftarrow> flow_lines H c action_id action_pids ip_map;
     Some (if flows = [] then []
           else [''DATA FLOWS:''] @ compress_fork_edges (sort_key edge_sort_key (remdups_adj flows)) @ [[]])
   }"

section \<open>The receipt of an action\<close>

definition action_pids_of :: "ActionLog \<Rightarrow> u32 list" where
  "action_pids_of action = remdups (map pv_pid (al_process_events action))"

text \<open>\<open>u64 as f64\<close> divided by 10^9, and \<open>{:.1}\<close> of a non-negative value.\<close>

definition seconds :: "u64 \<Rightarrow> rat" where
  "seconds ns = f64_round (f64_round (of_nat (unat ns)) / 1000000000)"

definition format_1 :: "rat \<Rightarrow> string" where
  "format_1 x = (let n = nat (round_even (x * 10)) in dec (n div 10) @ ''.'' @ [digit_char (n mod 10)])"

definition action_duration :: "u64 \<Rightarrow> ActionLog \<Rightarrow> rat" where
  "action_duration now action =
     (let start = (if al_start_time action = 0
                   then (case al_process_events action of e # es \<Rightarrow> pv_timestamp e | [] \<Rightarrow> now) else al_start_time action);
          end = (case al_end_time action of Some e \<Rightarrow> e | None \<Rightarrow> now)
      in seconds (saturating_sub end start))"

definition generate_receipt_inner ::
  "hash_order \<Rightarrow> u64 \<Rightarrow> ContainerState \<Rightarrow> ActionLog \<Rightarrow> (ipv4, string) hashmap \<Rightarrow> string panicking" where
  "generate_receipt_inner H now c action ip_map =
     (let action_pids = action_pids_of action
      in do {
        communities \<leftarrow> write_communities H c action_pids;
        flows \<leftarrow> write_graph_diff H c (al_action_id action) action_pids ip_map;
        Some (text_of
          ([''=== Post-Action Receipt: Action #'' @ dec (al_action_id action) @ '' ==='', ''Command: '' @ al_command action,
            ''Duration: '' @ format_1 (action_duration now action) @ ''s | '' @ dec (total_events action) @ '' syscall events'', []] @
           write_process_summary c action @ communities @ flows @ write_semantic_summary H c (al_action_id action)))
      })"

definition generate_receipt_text :: "hash_order \<Rightarrow> u64 \<Rightarrow> ContainerState \<Rightarrow> nat \<Rightarrow> (ipv4, string) hashmap \<Rightarrow> string panicking" where
  "generate_receipt_text H now c action_id ip_map =
     (let none = Some (text_of [''=== Post-Action Receipt: Action #'' @ dec action_id @ '' ==='', ''No action data found.''])
      in case current_action c of
           Some a \<Rightarrow> if al_action_id a = action_id then generate_receipt_inner H now c a ip_map else none
         | None \<Rightarrow> none)"

definition generate_receipt_from_action ::
  "hash_order \<Rightarrow> u64 \<Rightarrow> ContainerState \<Rightarrow> ActionLog \<Rightarrow> (ipv4, string) hashmap \<Rightarrow> string panicking" where
  "generate_receipt_from_action H now c action ip_map = generate_receipt_inner H now c action ip_map"


section \<open>Receipts of an experiment\<close>

text \<open>The rule U+2500 twice, and the dash U+2014.\<close>

definition rule_mark :: string where
  "rule_mark = map char_of [226, 148, 128, 226, 148, 128 :: nat]"

definition dash_mark :: string where
  "dash_mark = map char_of [226, 128, 148 :: nat]"

definition short_id :: "string \<Rightarrow> string panicking" where
  "short_id cid = str_slice cid 0 (min (length cid) 12)"

definition container_heading :: "string \<Rightarrow> string" where
  "container_heading short = rule_mark @ '' Container '' @ short @ '' '' @ rule_mark"

definition container_summary :: "string \<Rightarrow> ContainerState \<Rightarrow> string list panicking" where
  "container_summary cid c = do {
     short \<leftarrow> short_id cid;
     Some ([container_heading short,
            ''  '' @ dec (length (completed_actions c)) @ '' actions, '' @ dec (length (process_table c)) @ '' processes, '' @
              dec (sum_list (map total_events (completed_actions c))) @ '' events''] @
           List.map_filter (\<lambda>a. if al_action_id a = 0 \<or> total_events a = 0 then None
             else Some (''  Action #'' @ dec (al_action_id a) @ '': '' @ al_command a @ '' ('' @ dec (total_events a) @ '' events)''))
             (completed_actions c) @ [[]])
   }"

text \<open>The containers of the experiment that are known.\<close>

definition experiment_containers :: "DaemonState \<Rightarrow> Experiment \<Rightarrow> (string \<times> ContainerState) list" where
  "experiment_containers d ex = List.map_filter (\<lambda>cid. map_option (\<lambda>c. (cid, c)) (hm_get (containers d) cid)) (ex_container_ids ex)"

definition process_values :: "hash_order \<Rightarrow> ContainerState \<Rightarrow> ProcessInfo list" where
  "process_values H c = List.map_filter (hm_get (process_table c)) (ord_pid H (hm_keys (process_table c)))"

definition cross_target :: "DaemonState \<Rightarrow> Experiment \<Rightarrow> string \<Rightarrow> string \<Rightarrow> (string \<times> string) option" where
  "cross_target d ex cid conn = do {
     addr \<leftarrow> strip_prefix ''connect '' conn;
     (ip_str, port) \<leftarrow> rsplit_once CHR '':'' addr;
     ip \<leftarrow> parse_ipv4 ip_str;
     target_cid \<leftarrow> hm_get (ip_to_container d) ip;
     if target_cid \<noteq> cid \<and> target_cid \<in> set (ex_container_ids ex) then Some (addr, target_cid) else None
   }"

definition flow_line :: "ProcessInfo \<Rightarrow> string \<Rightarrow> string \<Rightarrow> string \<Rightarrow> string" where
  "flow_line info short addr target_short =
     ''  '' @ decode_comm (pi_comm info) @ '':'' @ dec (unat (pi_pid info)) @ '' ['' @ short @ ''] -> '' @ addr @ '' ['' @ target_short @ '']''"

definition container_flows :: "hash_order \<Rightarrow> DaemonState \<Rightarrow> Experiment \<Rightarrow> string \<Rightarrow> ContainerState \<Rightarrow> string list panicking" where
  "container_flows H d ex cid c = do {
     short \<leftarrow> short_id cid;
     those (concat (map (\<lambda>info. List.map_filter (\<lambda>conn.
         map_option (\<lambda>(addr, target_cid). map_option (flow_line info short addr) (short_id target_cid)) (cross_target d ex cid conn))
       (pi_net_connections info)) (process_values H c)))
   }"

definition cross_flow_lines :: "hash_order \<Rightarrow> DaemonState \<Rightarrow> Experiment \<Rightarrow> string list panicking" where
  "cross_flow_lines H d ex =
     map_option (\<lambda>flows. fold push_unique (concat flows) [])
       (those (map (\<lambda>(cid, c). container_flows H d ex cid c) (experiment_containers d ex)))"

definition network_section :: "hash_order \<Rightarrow> DaemonState \<Rightarrow> string \<Rightarrow> ContainerState \<Rightarrow> string list panicking" where
  "network_section H d cid c = do {
     short \<leftarrow> short_id cid;
     (let actions = completed_actions c @ (case current_action c of Some a \<Rightarrow> [a] | None \<Rightarrow> []);
          pids = ord_pid H (remdups (concat (map (\<lambda>a. map pv_pid (al_process_events a)) actions)));
          net_edges = concat (map (\<lambda>pid. case hm_get (process_table c) pid of
              None \<Rightarrow> []
            | Some info \<Rightarrow> map (\<lambda>addr. ''  '' @ decode_comm (pi_comm info) @ '':'' @ dec (unat pid) @ '' ['' @ short @ ''] connects '' @
                  annotate_addr (ip_to_container d) addr)
                (List.map_filter (strip_prefix ''connect '') (pi_net_connections info))) pids)
      in Some (if net_edges = [] then [] else [''NETWORK ['' @ short @ '']:''] @ net_edges @ [[]]))
   }"

definition generate_experiment_receipt :: "hash_order \<Rightarrow> DaemonState \<Rightarrow> Experiment \<Rightarrow> string panicking" where
  "generate_experiment_receipt H d ex = do {
     summaries \<leftarrow> those (map (\<lambda>(cid, c). container_summary cid c) (experiment_containers d ex));
     cross_flows \<leftarrow> cross_flow_lines H d ex;
     networks \<leftarrow> those (map (\<lambda>(cid, c). network_section H d cid c) (experiment_containers d ex));
     Some (text_of ([''=== Experiment Receipt: '' @ ex_name ex @ '' ==='', ''Containers: '' @ dec (length (ex_container_ids ex)), []] @
       concat summaries @ (if cross_flows = [] then [] else [''CROSS-CONTAINER FLOWS:''] @ cross_flows @ [[]]) @ concat networks))
   }"

definition experiment_action :: "ContainerState \<Rightarrow> nat \<Rightarrow> ActionLog option" where
  "experiment_action c action_id =
     (case find (\<lambda>a. al_action_id a = action_id) (completed_actions c) of
        Some a \<Rightarrow> Some a
      | None \<Rightarrow> (case current_action c of Some a \<Rightarrow> if al_action_id a = action_id then Some a else None | None \<Rightarrow> None))"

definition action_section :: "hash_order \<Rightarrow> DaemonState \<Rightarrow> nat \<Rightarrow> string \<Rightarrow> ContainerState \<Rightarrow> string list panicking" where
  "action_section H d action_id cid c = do {
     short \<leftarrow> short_id cid;
     (case experiment_action c action_id of
        None \<Rightarrow> Some []
      | Some action \<Rightarrow>
          if total_events action = 0 \<and> al_process_events action = [] then Some []
          else (let action_pids = action_pids_of action;
                    pids = ord_pid H action_pids;
                    infos = List.map_filter (\<lambda>pid. map_option (\<lambda>i. (pid, i)) (hm_get (process_table c) pid)) pids;
                    named = (\<lambda>pid info. pi_comm info @ '':'' @ dec (unat pid));
                    nets = concat (map (\<lambda>(pid, info). map (\<lambda>addr. ''  '' @ named pid info @ '' connects '' @ annotate_addr (ip_to_container d) addr)
                             (List.map_filter (strip_prefix ''connect '') (pi_net_connections info))) infos)
                in do {
                  flows \<leftarrow> write_graph_diff H c action_id action_pids (ip_to_container d);
                  Some ([container_heading short, ''Command: '' @ al_command action, dec (total_events action) @ '' syscall events'', []] @
                    (if action_pids = [] then []
                     else [''PROCESSES:''] @ map (\<lambda>(pid, info). ''  ['' @ named pid info @ ''] $ '' @ pi_cmdline info) infos @ [[]]) @
                    (if nets = [] then [] else [''NETWORK:''] @ nets @ [[]]) @ flows)
                }))
   }"

definition generate_experiment_action_receipt :: "hash_order \<Rightarrow> DaemonState \<Rightarrow> Experiment \<Rightarrow> nat \<Rightarrow> string panicking" where
  "generate_experiment_action_receipt H d ex action_id = do {
     sections \<leftarrow> those (map (\<lambda>(cid, c). action_section H d action_id cid c) (experiment_containers d ex));
     Some (text_of ([''=== Experiment Action Receipt: '' @ ex_name ex @ '' '' @ dash_mark @ '' Action #'' @ dec action_id @ '' ==='', []] @
       concat sections @
       (if concat sections = [] then [''No activity for action #'' @ dec action_id @ '' across experiment containers.''] else [])))
   }"


end
