(* ===== verification/Communities_Correct.thy ===== *)
theory Communities_Correct
  imports Communities "HOL-Library.Multiset"
begin

text \<open>
  The communities of \<open>src/src/communities.rs\<close> are the classes of a relation: two processes of the action
  are together exactly if a chain of forks between processes of the same name and of heavy other
  channels connects them. The proof goes through the three stages of the code: the searches find
  the components of each name, the union-find structure connects exactly the merged indices, and
  the merged groups are the classes.
\<close>

section \<open>The relation\<close>

definition fork_related :: "ContainerState \<Rightarrow> u32 set \<Rightarrow> (u32 \<times> u32) set" where
  "fork_related c P =
     {(p, q). p \<in> P \<and> q \<in> P \<and> comm_of c p = comm_of c q \<and>
        (\<exists>e \<in> set (tg_edges (taint_graph c)). te_channel_type e = Fork \<and>
           (te_source_pid e = p \<and> te_target_pid e = q \<or> te_source_pid e = q \<and> te_target_pid e = p))}"

definition heavily_related :: "ContainerState \<Rightarrow> u32 set \<Rightarrow> (u32 \<times> u32) set" where
  "heavily_related c P =
     {(p, q). p \<in> P \<and> q \<in> P \<and>
        (\<exists>e \<in> set (tg_edges (taint_graph c)). te_channel_type e \<noteq> Fork \<and> COMMUNITY_MERGE_EVENT_THRESHOLD \<le> te_event_count e \<and>
           (te_source_pid e = p \<and> te_target_pid e = q \<or> te_source_pid e = q \<and> te_target_pid e = p))}"

lemma sym_related: "sym (fork_related c P)" "sym (heavily_related c P)"
  by (auto simp: sym_def fork_related_def heavily_related_def)

section \<open>Searches\<close>

definition edges_of :: "adjacency \<Rightarrow> (u32 \<times> u32) set" where
  "edges_of adj = {(a, b). b \<in> set (hm_list adj a)}"

lemma search_result:
  "search adj V found queue = (V', found') \<Longrightarrow>
     set V \<union> set queue \<subseteq> set V' \<and> set V' \<subseteq> set V \<union> (edges_of adj)\<^sup>* `` set queue \<and>
     (\<forall>a \<in> set V' - set V. edges_of adj `` {a} \<subseteq> set V') \<and>
     (\<exists>new. found' = found @ new \<and> distinct new \<and> set new = set V' - set V)"
proof (induction adj V found queue rule: search.induct)
  case (1 adj V found)
  then show ?case by simp
next
  case (2 adj V found current queue)
  let ?E = "edges_of adj"
  show ?case
  proof (cases "current \<in> set V")
    case True
    with 2 show ?thesis by (auto intro: rev_ImageI)
  next
    case False
    let ?V = "current # V" and ?n = "filter (\<lambda>n. n \<notin> set (current # V)) (hm_list adj current)"
    have s: "search adj ?V (found @ [current]) (rev ?n @ queue) = (V', found')"
      using 2(3) False by (simp add: Let_def)
    note IH = 2(2) [OF False refl refl s]
    have succ: "?E `` {current} \<subseteq> set ?V \<union> set ?n" by (auto simp: edges_of_def)
    have reach: "?E\<^sup>* `` set (rev ?n @ queue) \<subseteq> ?E\<^sup>* `` set (current # queue)"
    proof
      fix y assume "y \<in> ?E\<^sup>* `` set (rev ?n @ queue)"
      then obtain x where x: "x \<in> set ?n \<or> x \<in> set queue" "(x, y) \<in> ?E\<^sup>*" by auto
      show "y \<in> ?E\<^sup>* `` set (current # queue)"
      proof (cases "x \<in> set ?n")
        case True
        then have "(current, x) \<in> ?E" by (simp add: edges_of_def)
        with x(2) have "(current, y) \<in> ?E\<^sup>*" by (rule converse_rtrancl_into_rtrancl [rotated])
        then show ?thesis by auto
      next
        case False
        with x show ?thesis by auto
      qed
    qed
    obtain new where new: "found' = (found @ [current]) @ new" "distinct new" "set new = set V' - set ?V"
      using IH by blast
    have "found' = found @ (current # new)" "distinct (current # new)" "set (current # new) = set V' - set V"
      using new IH False by auto
    moreover have "set V' \<subseteq> set V \<union> ?E\<^sup>* `` set (current # queue)"
    proof -
      have "set V' \<subseteq> set ?V \<union> ?E\<^sup>* `` set (rev ?n @ queue)" using IH by blast
      moreover have "current \<in> ?E\<^sup>* `` set (current # queue)" by auto
      ultimately show ?thesis using reach by auto
    qed
    moreover have "\<forall>a \<in> set V' - set V. ?E `` {a} \<subseteq> set V'"
    proof
      fix a assume "a \<in> set V' - set V"
      then show "?E `` {a} \<subseteq> set V'"
        using IH succ by (cases "a = current") auto
    qed
    ultimately show ?thesis using IH by auto
  qed
qed

lemma closed_rtrancl: "R `` A \<subseteq> A \<Longrightarrow> R\<^sup>* `` A \<subseteq> A"
  by (simp add: Image_closed_trancl)

text \<open>From a closed set of visited processes, a search finds exactly one component.\<close>

lemma search_component:
  assumes "search adj V [] [x] = (V', new)" "sym (edges_of adj)" "edges_of adj `` set V \<subseteq> set V" "x \<notin> set V"
  shows "set new = (edges_of adj)\<^sup>* `` {x}" "distinct new" "set V' = set V \<union> set new" "edges_of adj `` set V' \<subseteq> set V'"
proof -
  let ?E = "edges_of adj"
  have r: "set V \<subseteq> set V'" "x \<in> set V'" "set V' \<subseteq> set V \<union> ?E\<^sup>* `` {x}"
      "\<forall>a \<in> set V' - set V. ?E `` {a} \<subseteq> set V'" and new: "distinct new" "set new = set V' - set V"
    using search_result [OF assms(1)] by auto
  show closed: "?E `` set V' \<subseteq> set V'" using r assms(3) by blast
  have "?E\<^sup>* `` {x} \<subseteq> set V'" using closed_rtrancl [OF closed] r(2) by blast
  moreover have "y \<notin> set V" if "(x, y) \<in> ?E\<^sup>*" for y
  proof
    assume "y \<in> set V"
    moreover have "(y, x) \<in> ?E\<^sup>*" using that sym_rtrancl [OF assms(2)] by (meson symD)
    ultimately show False using closed_rtrancl [OF assms(3)] assms(4) by blast
  qed
  ultimately show "set new = ?E\<^sup>* `` {x}" using new(2) r(3) by auto
  show "distinct new" "set V' = set V \<union> set new" using new r(1) by auto
qed

lemma fork_adjacency_edges:
  "edges_of (fork_adjacency es pids) =
     {(a, b). \<exists>e \<in> set es. te_channel_type e = Fork \<and> te_source_pid e \<in> set pids \<and> te_target_pid e \<in> set pids \<and>
        (te_source_pid e = a \<and> te_target_pid e = b \<or> te_source_pid e = b \<and> te_target_pid e = a)}"
proof -
  let ?s = "\<lambda>e adj. if te_channel_type e = Fork \<and> te_source_pid e \<in> set pids \<and> te_target_pid e \<in> set pids
       then hm_push (te_target_pid e) (te_source_pid e) (hm_push (te_source_pid e) (te_target_pid e) adj) else adj"
  have step: "edges_of (?s e adj) = edges_of adj \<union>
      {(a, b). te_channel_type e = Fork \<and> te_source_pid e \<in> set pids \<and> te_target_pid e \<in> set pids \<and>
        (te_source_pid e = a \<and> te_target_pid e = b \<or> te_source_pid e = b \<and> te_target_pid e = a)}" for e adj
    by (auto simp: edges_of_def hm_list_push split: if_splits)
  have "edges_of (fold ?s es adj) = edges_of adj \<union>
     {(a, b). \<exists>e \<in> set es. te_channel_type e = Fork \<and> te_source_pid e \<in> set pids \<and> te_target_pid e \<in> set pids \<and>
        (te_source_pid e = a \<and> te_target_pid e = b \<or> te_source_pid e = b \<and> te_target_pid e = a)}" for adj
  proof (induction es arbitrary: adj)
    case (Cons e es)
    show ?case unfolding fold_simps Cons.IH step by auto
  qed simp
  from this [of "[]"] show ?thesis by (simp add: fork_adjacency_def edges_of_def)
qed

section \<open>The components of all names\<close>

text \<open>The members of the communities are the classes of \<open>R\<close> on \<open>P\<close>, each once.\<close>

definition classes :: "(u32 \<times> u32) set \<Rightarrow> u32 set \<Rightarrow> Community list \<Rightarrow> bool" where
  "classes R P cs \<longleftrightarrow>
     distinct (concat (map cm_members cs)) \<and> set (concat (map cm_members cs)) = P \<and>
     (\<forall>C \<in> set cs. \<exists>x \<in> P. set (cm_members C) = R\<^sup>* `` {x})"

definition indexed :: "Community list \<Rightarrow> (u32, nat) hashmap \<Rightarrow> bool" where
  "indexed cs m \<longleftrightarrow> (\<forall>p i. hm_get m p = Some i \<longleftrightarrow> i < length cs \<and> p \<in> set (cm_members (cs ! i)))"

lemma get_index_all: "hm_get (fold (\<lambda>p m. hm_insert p i m) ps m) p = (if p \<in> set ps then Some i else hm_get m p)"
  by (induction ps arbitrary: m) (auto simp: hm_get_insert)

lemma indexed_add:
  assumes "indexed cs m" "set found \<inter> set (concat (map cm_members cs)) = {}" "cm_members C = found"
  shows "indexed (cs @ [C]) (fold (\<lambda>p m. hm_insert p (length cs) m) found m)"
  unfolding indexed_def
proof (intro allI)
  fix p i
  have new: "p \<notin> set (cm_members (cs ! i))" if "p \<in> set found" "i < length cs"
  proof -
    have "set (cm_members (cs ! i)) \<subseteq> set (concat (map cm_members cs))" using nth_mem [OF that(2)] by auto
    with assms(2) that(1) show ?thesis by blast
  qed
  show "hm_get (fold (\<lambda>p m. hm_insert p (length cs) m) found m) p = Some i \<longleftrightarrow>
      i < length (cs @ [C]) \<and> p \<in> set (cm_members ((cs @ [C]) ! i))"
    using assms(1,3) new by (cases "i < length cs") (auto simp: get_index_all indexed_def nth_append less_Suc_eq)
qed

lemma visit_pid_step:
  assumes "visit_pid c comm adj x (V, cs, m) = (V', cs', m')"
    and "sym (edges_of adj)" "edges_of adj `` set V \<subseteq> set V" "x \<in> G" "edges_of adj \<subseteq> G \<times> G" "set V \<subseteq> G"
    and "\<And>y. y \<in> G \<Longrightarrow> (edges_of adj)\<^sup>* `` {y} = R\<^sup>* `` {y}"
    and "classes R (P \<union> set V) cs" "indexed cs m" "P \<inter> G = {}"
  shows "edges_of adj `` set V' \<subseteq> set V' \<and> set V \<subseteq> set V' \<and> x \<in> set V' \<and> set V' \<subseteq> G \<and>
    classes R (P \<union> set V') cs' \<and> indexed cs' m'"
proof (cases "x \<in> set V")
  case True
  with assms show ?thesis by (simp add: visit_pid_def)
next
  case False
  obtain V1 new where s: "search adj V [] [x] = (V1, new)" by fastforce
  note found = search_component [OF s assms(2,3) False]
  have res: "V' = V1" "cs' = cs @ [community c (length cs) comm new]" "m' = fold (\<lambda>p m. hm_insert p (length cs) m) new m"
    using assms(1) False s by (auto simp: visit_pid_def add_component_def Let_def)
  have "set new \<subseteq> G"
    using found(1) assms(4,5) by (auto elim: rtranclE)
  moreover have "set new \<inter> set V = {}"
  proof -
    have "y \<notin> set V" if "y \<in> set new" for y
    proof
      assume "y \<in> set V"
      moreover have "(y, x) \<in> (edges_of adj)\<^sup>*" using that found(1) sym_rtrancl [OF assms(2)] by (auto dest: symD)
      ultimately show False using closed_rtrancl [OF assms(3)] False by blast
    qed
    then show ?thesis by blast
  qed
  ultimately have disjoint: "set new \<inter> (P \<union> set V) = {}" using assms(10) by blast
  have "x \<in> set new" using found(1) by auto
  have "classes R (P \<union> set V') cs'"
    unfolding classes_def res
  proof (intro conjI ballI)
    show "distinct (concat (map cm_members (cs @ [community c (length cs) comm new])))"
      using assms(8) found(2) disjoint by (auto simp: classes_def community_def)
    show "set (concat (map cm_members (cs @ [community c (length cs) comm new]))) = P \<union> set V1"
      using assms(8) found(3) by (auto simp: classes_def community_def)
    fix C assume "C \<in> set (cs @ [community c (length cs) comm new])"
    then consider "C \<in> set cs" | "cm_members C = new" by (auto simp: community_def)
    then show "\<exists>y \<in> P \<union> set V1. set (cm_members C) = R\<^sup>* `` {y}"
    proof cases
      case 1
      with assms(8) found(3) show ?thesis unfolding classes_def by blast
    next
      case 2
      with found(1,3) assms(7) [OF assms(4)] \<open>x \<in> set new\<close> show ?thesis by blast
    qed
  qed
  moreover have "indexed cs' m'"
    unfolding res using assms(8,9) disjoint by (intro indexed_add) (auto simp: classes_def community_def)
  ultimately show ?thesis
    using found(3,4) assms(4,6) \<open>set new \<subseteq> G\<close> \<open>x \<in> set new\<close> unfolding res by auto
qed

lemma visit_pids:
  assumes "fold (visit_pid c comm adj) xs (V, cs, m) = (V', cs', m')"
    and "sym (edges_of adj)" "edges_of adj `` set V \<subseteq> set V" "set xs \<subseteq> G" "edges_of adj \<subseteq> G \<times> G" "set V \<subseteq> G"
    and "\<And>y. y \<in> G \<Longrightarrow> (edges_of adj)\<^sup>* `` {y} = R\<^sup>* `` {y}"
    and "classes R (P \<union> set V) cs" "indexed cs m" "P \<inter> G = {}"
  shows "set V \<union> set xs \<subseteq> set V' \<and> set V' \<subseteq> G \<and> classes R (P \<union> set V') cs' \<and> indexed cs' m'"
  using assms(1,3,4,6,8,9)
proof (induction xs arbitrary: V cs m)
  case Nil
  then show ?case by auto
next
  case (Cons x xs)
  obtain V1 cs1 m1 where s: "visit_pid c comm adj x (V, cs, m) = (V1, cs1, m1)" by (cases "visit_pid c comm adj x (V, cs, m)")
  have step: "edges_of adj `` set V1 \<subseteq> set V1 \<and> set V \<subseteq> set V1 \<and> x \<in> set V1 \<and> set V1 \<subseteq> G \<and>
      classes R (P \<union> set V1) cs1 \<and> indexed cs1 m1"
    by (rule visit_pid_step [OF s assms(2) Cons.prems(2) _ assms(5) Cons.prems(4) assms(7) Cons.prems(5,6) assms(10)])
      (use Cons.prems(3) in auto)
  have "fold (visit_pid c comm adj) xs (V1, cs1, m1) = (V', cs', m')" using Cons.prems(1) s by simp
  from Cons.IH [OF this] step Cons.prems(3) show ?case by auto
qed

lemma group_by_comm_list:
  "set (hm_list (group_by_comm c pids) k) = {p \<in> set pids. comm_of c p = k}"
  "set (hm_keys (group_by_comm c pids)) = comm_of c ` set pids"
proof -
  have "set (hm_list (fold (\<lambda>pid m. hm_push (comm_of c pid) pid m) pids m) k) =
      set (hm_list m k) \<union> {p \<in> set pids. comm_of c p = k}" for m
    by (induction pids arbitrary: m) (auto simp: hm_list_push)
  then show "set (hm_list (group_by_comm c pids) k) = {p \<in> set pids. comm_of c p = k}"
    by (simp add: group_by_comm_def)
  have "set (hm_keys (fold (\<lambda>pid m. hm_push (comm_of c pid) pid m) pids m)) = set (hm_keys m) \<union> comm_of c ` set pids" for m
    by (induction pids arbitrary: m) (auto simp del: set_map simp: hm_keys_push)
  then show "set (hm_keys (group_by_comm c pids)) = comm_of c ` set pids"
    by (simp add: group_by_comm_def)
qed

text \<open>Within one name the adjacency is the fork relation, and the relation does not leave the name.\<close>

lemma restricted_rtrancl:
  assumes "E = R \<inter> G \<times> G" "\<And>a b. (a, b) \<in> R \<Longrightarrow> a \<in> G \<Longrightarrow> b \<in> G" "y \<in> G"
  shows "E\<^sup>* `` {y} = R\<^sup>* `` {y}"
proof -
  have "(y, z) \<in> E\<^sup>* \<and> z \<in> G" if "(y, z) \<in> R\<^sup>*" for z
    using that
  proof (induction rule: rtrancl_induct)
    case base
    then show ?case using assms(3) by simp
  next
    case (step a b)
    then have "(a, b) \<in> E" "b \<in> G" using assms(1,2) by auto
    with step show ?case by (meson rtrancl.rtrancl_into_rtrancl)
  qed
  moreover have "E\<^sup>* \<subseteq> R\<^sup>*" using assms(1) by (intro rtrancl_mono) blast
  ultimately show ?thesis by blast
qed

lemma name_group_classes:
  assumes "name_group c k pids (cs, m) = (cs', m')"
    and "set pids = {p \<in> Q. comm_of c p = k}" "P \<subseteq> Q" "P \<inter> set pids = {}"
    and "classes (fork_related c Q) P cs" "indexed cs m"
  shows "classes (fork_related c Q) (P \<union> set pids) cs' \<and> indexed cs' m'"
proof -
  let ?adj = "fork_adjacency (tg_edges (taint_graph c)) pids"
  have E: "edges_of ?adj = fork_related c Q \<inter> set pids \<times> set pids"
    using assms(2) by (auto simp: fork_adjacency_edges fork_related_def)
  then have "sym (edges_of ?adj)" using sym_related(1) [of c Q] by (auto simp: sym_def)
  moreover have "(edges_of ?adj)\<^sup>* `` {y} = (fork_related c Q)\<^sup>* `` {y}" if "y \<in> set pids" for y
    by (rule restricted_rtrancl [OF E _ that]) (use assms(2) in \<open>auto simp: fork_related_def\<close>)
  moreover obtain V' where "fold (visit_pid c k ?adj) pids ([], cs, m) = (V', cs', m')"
    using assms(1) by (cases "fold (visit_pid c k ?adj) pids ([], cs, m)") (auto simp: name_group_def)
  ultimately have "set pids \<subseteq> set V' \<and> set V' \<subseteq> set pids \<and> classes (fork_related c Q) (P \<union> set V') cs' \<and> indexed cs' m'"
    using visit_pids [of c k ?adj pids "[]" cs m V' cs' m' "set pids" "fork_related c Q" P] E assms(4-6) by auto
  then show ?thesis by (metis subset_antisym)
qed

lemma name_groups_classes:
  assumes "hash_order_ok H" "name_groups H c pids = (cs, m)"
  shows "classes (fork_related c (set pids)) (set pids) cs \<and> indexed cs m"
proof -
  let ?by = "group_by_comm c (ord_pid H pids)" and ?R = "fork_related c (set pids)"
  have G: "set (hm_list ?by k) = {p \<in> set pids. comm_of c p = k}" for k
    using assms(1) by (simp add: group_by_comm_list)
  have "classes ?R (P \<union> {p \<in> set pids. comm_of c p \<in> set ks}) cs \<and> indexed cs m"
    if "distinct ks" "P \<subseteq> set pids" "P \<inter> {p \<in> set pids. comm_of c p \<in> set ks} = {}"
      "classes ?R P cs0" "indexed cs0 m0" "fold (\<lambda>k. name_group c k (hm_list ?by k)) ks (cs0, m0) = (cs, m)" for ks P cs0 m0
    using that
  proof (induction ks arbitrary: P cs0 m0)
    case Nil
    then show ?case by simp
  next
    case (Cons k ks)
    obtain cs1 m1 where s: "name_group c k (hm_list ?by k) (cs0, m0) = (cs1, m1)" by fastforce
    have "classes ?R (P \<union> set (hm_list ?by k)) cs1 \<and> indexed cs1 m1"
      by (rule name_group_classes [OF s]) (use Cons.prems G in auto)
    then have "classes ?R ((P \<union> set (hm_list ?by k)) \<union> {p \<in> set pids. comm_of c p \<in> set ks}) cs \<and> indexed cs m"
      by (intro Cons.IH) (use Cons.prems G s in auto)
    moreover have "(P \<union> set (hm_list ?by k)) \<union> {p \<in> set pids. comm_of c p \<in> set ks} =
        P \<union> {p \<in> set pids. comm_of c p \<in> set (k # ks)}"
      using G by auto
    ultimately show ?case by simp
  qed
  note all = this [of "ord_str H (hm_keys ?by)" "{}" "[]" "[]"]
  have keys: "set (ord_str H (hm_keys ?by)) = comm_of c ` set pids"
    using assms(1) by (simp only: hash_order_set(1) group_by_comm_list(2) hash_order_set(2))
  then have whole: "{} \<union> {p \<in> set pids. comm_of c p \<in> set (ord_str H (hm_keys ?by))} = set pids" by auto
  show ?thesis
    using all [unfolded whole] assms by (simp add: name_groups_def Let_def classes_def indexed_def)
qed

section \<open>Union and find\<close>

lemma find_root_induct [consumes 1, case_names root up]:
  assumes "find_root parent i = Some r"
    and root: "\<And>i. i < length parent \<Longrightarrow> parent ! i = i \<Longrightarrow> Q i i"
    and up: "\<And>i r. i < length parent \<Longrightarrow> parent ! i \<noteq> i \<Longrightarrow> find_root parent (parent ! i) = Some r \<Longrightarrow> Q (parent ! i) r \<Longrightarrow> Q i r"
  shows "Q i r"
proof -
  have "parent = parent \<longrightarrow> find_root parent i = Some r \<and> Q i r"
  proof (rule find_root.raw_induct [where P = "\<lambda>p i r. p = parent \<longrightarrow> find_root parent i = Some r \<and> Q i r", OF _ assms(1)])
    fix f p k s
    assume IH: "\<And>p k s. f p k = Some s \<Longrightarrow> p = parent \<longrightarrow> find_root parent k = Some s \<and> Q k s"
      and body: "(if length p \<le> k then None else if p ! k = k then Some k else f p (p ! k)) = Some s"
    show "p = parent \<longrightarrow> find_root parent k = Some s \<and> Q k s"
      using body IH [of p "p ! k" s] root [of k] up [of k s]
      by (auto simp: find_root.simps [of parent k] split: if_splits)
  qed
  then show ?thesis by simp
qed

lemma find_root_root: "r < length parent \<Longrightarrow> parent ! r = r \<Longrightarrow> find_root parent r = Some r"
  by (subst find_root.simps) simp

lemma find_root_is_root:
  "find_root parent i = Some r \<Longrightarrow> i < length parent \<and> r < length parent \<and> parent ! r = r"
  by (induction rule: find_root_induct) auto

text \<open>Hanging one root below another moves exactly the indices of that root.\<close>

lemma find_root_hang:
  assumes "ra < length parent" "rb < length parent" "parent ! ra = ra" "parent ! rb = rb" "ra \<noteq> rb"
    and "find_root parent i = Some r"
  shows "find_root (parent[rb := ra]) i = Some (if r = rb then ra else r)"
  using assms(6)
proof (induction rule: find_root_induct)
  case (root i)
  have "find_root (parent[rb := ra]) ra = Some ra" using assms by (intro find_root_root) auto
  moreover have "find_root (parent[rb := ra]) rb = find_root (parent[rb := ra]) ra"
    using assms by (subst find_root.simps) simp
  moreover have "i \<noteq> rb \<Longrightarrow> find_root (parent[rb := ra]) i = Some i" using root by (intro find_root_root) auto
  ultimately show ?case by (cases "i = rb") auto
next
  case (up i r)
  with assms have "i \<noteq> rb" by auto
  with up show ?case by (simp add: find_root.simps [of "parent[rb := ra]" i])
qed

definition connected :: "(nat \<times> nat) set \<Rightarrow> (nat \<times> nat) set" where
  "connected M = (M \<union> M\<inverse>)\<^sup>*"

lemma connected_sym: "(i, j) \<in> connected M \<Longrightarrow> (j, i) \<in> connected M"
  unfolding connected_def by (metis converse_Un converse_converse rtrancl_converseD sup_commute converseI rtrancl_converse)

lemma connected_refl [simp]: "(i, i) \<in> connected M"
  by (simp add: connected_def)

lemma connected_trans: "(i, j) \<in> connected M \<Longrightarrow> (j, k) \<in> connected M \<Longrightarrow> (i, k) \<in> connected M"
  by (simp add: connected_def)

lemma connected_empty [simp]: "connected {} = Id"
  by (simp add: connected_def)

lemma connected_insert:
  "(i, j) \<in> connected (insert (a, b) M) \<longleftrightarrow>
     (i, j) \<in> connected M \<or> (i, a) \<in> connected M \<and> (b, j) \<in> connected M \<or> (i, b) \<in> connected M \<and> (a, j) \<in> connected M"
proof
  assume "(i, j) \<in> connected (insert (a, b) M)"
  then have "(i, j) \<in> (insert (a, b) M \<union> (insert (a, b) M)\<inverse>)\<^sup>*" by (simp add: connected_def)
  then show "(i, j) \<in> connected M \<or> (i, a) \<in> connected M \<and> (b, j) \<in> connected M \<or> (i, b) \<in> connected M \<and> (a, j) \<in> connected M"
  proof (induction rule: rtrancl_induct)
    case base
    then show ?case by simp
  next
    case (step j k)
    from step(2) consider "(j, k) \<in> connected M" | "j = a" "k = b" | "j = b" "k = a"
      by (auto simp: connected_def)
    then show ?case
      using step(3) by cases (blast intro: connected_trans connected_sym connected_refl)+
  qed
next
  have mono: "connected M \<subseteq> connected (insert (a, b) M)"
    unfolding connected_def by (rule rtrancl_mono) auto
  have ab: "(a, b) \<in> connected (insert (a, b) M)" by (auto simp: connected_def)
  assume "(i, j) \<in> connected M \<or> (i, a) \<in> connected M \<and> (b, j) \<in> connected M \<or> (i, b) \<in> connected M \<and> (a, j) \<in> connected M"
  then show "(i, j) \<in> connected (insert (a, b) M)"
    using mono ab connected_sym [OF ab] by (blast intro: connected_trans)
qed

definition represents :: "nat list \<Rightarrow> nat \<Rightarrow> (nat \<times> nat) set \<Rightarrow> bool" where
  "represents parent n M \<longleftrightarrow> length parent = n \<and> (\<forall>i < n. find_root parent i \<noteq> None) \<and>
     (\<forall>i < n. \<forall>j < n. find_root parent i = find_root parent j \<longleftrightarrow> (i, j) \<in> connected M)"

lemma represents_initial: "represents [0..<n] n {}"
  by (auto simp: represents_def find_root_root)

lemma union_step_represents:
  assumes "represents parent n M" "a < n" "b < n"
  shows "\<exists>parent'. union_step parent (a, b) = Some parent' \<and> represents parent' n (insert (a, b) M)"
proof -
  obtain ra rb where ra: "find_root parent a = Some ra" and rb: "find_root parent b = Some rb"
    using assms unfolding represents_def by (metis option.exhaust)
  have roots: "ra < length parent" "parent ! ra = ra" "rb < length parent" "parent ! rb = rb"
    using find_root_is_root [OF ra] find_root_is_root [OF rb] by auto
  have conn: "(i, a) \<in> connected M \<longleftrightarrow> find_root parent i = Some ra" "(i, b) \<in> connected M \<longleftrightarrow> find_root parent i = Some rb"
      "(a, i) \<in> connected M \<longleftrightarrow> find_root parent i = Some ra" "(b, i) \<in> connected M \<longleftrightarrow> find_root parent i = Some rb"
    if "i < n" for i
  proof -
    have eq: "(k, l) \<in> connected M \<longleftrightarrow> find_root parent k = find_root parent l" if "k < n" "l < n" for k l
      using assms(1) that unfolding represents_def by blast
    show "(i, a) \<in> connected M \<longleftrightarrow> find_root parent i = Some ra" "(i, b) \<in> connected M \<longleftrightarrow> find_root parent i = Some rb"
      "(a, i) \<in> connected M \<longleftrightarrow> find_root parent i = Some ra" "(b, i) \<in> connected M \<longleftrightarrow> find_root parent i = Some rb"
      using eq that assms(2,3) ra rb by auto
  qed
  let ?p = "if ra \<noteq> rb then parent[rb := ra] else parent"
  have new: "find_root ?p i = map_option (\<lambda>r. if r = rb then ra else r) (find_root parent i)" if "i < n" for i
    using find_root_hang [OF roots(1,3,2,4)] assms(1) that by (cases "ra = rb") (auto simp: represents_def)
  have "represents ?p n (insert (a, b) M)"
    unfolding represents_def
  proof (intro conjI allI impI)
    fix i j assume ij: "i < n" "j < n"
    then obtain r s where rs: "find_root parent i = Some r" "find_root parent j = Some s"
      using assms(1) unfolding represents_def by (metis option.exhaust)
    moreover have "(i, j) \<in> connected M \<longleftrightarrow> find_root parent i = find_root parent j"
      using ij assms(1) unfolding represents_def by blast
    ultimately have "(i, j) \<in> connected M \<longleftrightarrow> r = s" by simp
    with rs show "find_root ?p i = find_root ?p j \<longleftrightarrow> (i, j) \<in> connected (insert (a, b) M)"
      unfolding connected_insert new [OF ij(1)] new [OF ij(2)]
      by (simp only: conn [OF ij(1)] conn [OF ij(2)]) auto
  next
    show "length ?p = n" using assms(1) by (simp add: represents_def)
  next
    fix i assume "i < n"
    then show "find_root ?p i \<noteq> None" using assms(1) new [of i] by (auto simp: represents_def)
  qed
  then show ?thesis using ra rb by (simp add: union_step_def)
qed

lemma unite_represents:
  assumes "represents parent n M" "\<forall>(a, b) \<in> set ms. a < n \<and> b < n"
  shows "\<exists>parent'. unite ms parent = Some parent' \<and> represents parent' n (M \<union> set ms)"
  using assms
proof (induction ms arbitrary: parent M)
  case (Cons m ms)
  obtain a b where m: "m = (a, b)" by fastforce
  with Cons.prems obtain p1 where p1: "union_step parent (a, b) = Some p1" "represents p1 n (insert (a, b) M)"
    using union_step_represents [OF Cons.prems(1), of a b] by auto
  with Cons.IH [OF p1(2)] Cons.prems show ?case by (simp add: m)
qed simp

section \<open>Merged groups\<close>

lemma group_roots_lists:
  assumes "\<forall>i \<in> set is. find_root parent i \<noteq> None"
  shows "\<exists>g. group_roots parent is m = Some g \<and>
    (\<forall>r. hm_list g r = hm_list m r @ filter (\<lambda>i. find_root parent i = Some r) is) \<and>
    set (hm_keys g) = set (hm_keys m) \<union> {r. \<exists>i \<in> set is. find_root parent i = Some r}"
  using assms
proof (induction "is" arbitrary: m)
  case (Cons i "is")
  then obtain r where r: "find_root parent i = Some r" by auto
  obtain g where "group_roots parent is (hm_push r i m) = Some g"
    "\<forall>s. hm_list g s = hm_list (hm_push r i m) s @ filter (\<lambda>i. find_root parent i = Some s) is"
    "set (hm_keys g) = set (hm_keys (hm_push r i m)) \<union> {r. \<exists>i \<in> set is. find_root parent i = Some r}"
    using Cons.IH [of "hm_push r i m"] Cons.prems by auto
  then show ?case using r by (auto simp: hm_list_push hm_keys_push simp del: set_map)
qed simp

lemma merge_group_members:
  "map cm_members (fold (\<lambda>r. merge_group c cs (f r)) rs acc) =
     map cm_members acc @ map (\<lambda>r. concat (map (\<lambda>i. cm_members (cs ! i)) (f r))) rs"
proof (induction rs arbitrary: acc)
  case (Cons r rs)
  have "map cm_members (merge_group c cs (f r) acc) = map cm_members acc @ [concat (map (\<lambda>i. cm_members (cs ! i)) (f r))]"
    by (auto simp: merge_group_def community_def split: list.split)
  with Cons.IH show ?case by simp
qed simp

text \<open>Blocks that are disjoint and cover \<open>P\<close>, and in which two elements are together exactly if \<open>Q\<close> holds.\<close>

definition partitions :: "(u32 \<Rightarrow> u32 \<Rightarrow> bool) \<Rightarrow> u32 set \<Rightarrow> u32 list list \<Rightarrow> bool" where
  "partitions Q P bs \<longleftrightarrow> distinct (concat bs) \<and> set (concat bs) = P \<and>
     (\<forall>p \<in> P. \<forall>q \<in> P. (\<exists>b \<in> set bs. p \<in> set b \<and> q \<in> set b) \<longleftrightarrow> Q p q)"

lemma distinct_concat_index:
  "distinct (concat bs) \<Longrightarrow> i < length bs \<Longrightarrow> j < length bs \<Longrightarrow> p \<in> set (bs ! i) \<Longrightarrow> p \<in> set (bs ! j) \<Longrightarrow> i = j"
proof (induction bs arbitrary: i j)
  case (Cons b bs)
  have "p \<notin> set b" if "p \<in> set (bs ! k)" "k < length bs" for k
  proof
    assume "p \<in> set b"
    moreover have "p \<in> \<Union> (set ` set bs)" using that nth_mem [OF that(2)] by blast
    ultimately show False using Cons.prems(1) by auto
  qed
  with Cons show ?case by (cases i; cases j) auto
qed simp

lemma distinct_regroup:
  assumes "distinct (concat bs)" "distinct rs"
  shows "distinct (concat (map (\<lambda>r. concat (map ((!) bs) (filter (\<lambda>i. f i = Some r) [0..<length bs]))) rs))"
proof -
  have one: "distinct (concat (map ((!) bs) is))" if "distinct is" "set is \<subseteq> {..<length bs}" for "is"
    using that
  proof (induction "is")
    case (Cons i "is")
    have "distinct (bs ! i)" using assms(1) Cons.prems by (auto simp: distinct_concat_iff)
    moreover have "set (bs ! i) \<inter> set (concat (map ((!) bs) is)) = {}"
      using distinct_concat_index [OF assms(1), of i] Cons.prems by fastforce
    ultimately show ?case using Cons by simp
  qed simp
  show ?thesis using assms(2)
  proof (induction rs)
    case (Cons r rs)
    have "set (concat (map ((!) bs) (filter (\<lambda>i. f i = Some r) [0..<length bs]))) \<inter>
        set (concat (map (\<lambda>r. concat (map ((!) bs) (filter (\<lambda>i. f i = Some r) [0..<length bs]))) rs)) = {}"
      using distinct_concat_index [OF assms(1)] Cons.prems by fastforce
    with one [of "filter (\<lambda>i. f i = Some r) [0..<length bs]"] Cons show ?case by auto
  qed simp
qed

lemma filter_upt_eq: "i < n \<Longrightarrow> filter (\<lambda>k. k = i) [0..<n] = [i]"
  by (induction n) (auto simp: less_Suc_eq filter_empty_conv)

lemma partitions_index:
  assumes "partitions Q P bs" "p \<in> P"
  obtains i where "i < length bs" "p \<in> set (bs ! i)"
proof -
  obtain b where "b \<in> set bs" "p \<in> set b" using assms by (auto simp: partitions_def)
  with that show thesis by (metis in_set_conv_nth)
qed

text \<open>Regrouping the blocks along a function of their index.\<close>

lemma regrouped_partitions:
  assumes "partitions Q0 P bs" "distinct rs" "set rs = {r. \<exists>i < length bs. f i = Some r}" "\<And>i. i < length bs \<Longrightarrow> f i \<noteq> None"
    and conn: "\<And>i j p q. i < length bs \<Longrightarrow> j < length bs \<Longrightarrow> p \<in> set (bs ! i) \<Longrightarrow> q \<in> set (bs ! j) \<Longrightarrow> f i = f j \<longleftrightarrow> Q p q"
  shows "partitions Q P (map (\<lambda>r. concat (map ((!) bs) (filter (\<lambda>i. f i = Some r) [0..<length bs]))) rs)"
    (is "partitions Q P (map ?block rs)")
  unfolding partitions_def
proof (intro conjI ballI)
  have dist: "distinct (concat bs)" using assms(1) by (simp add: partitions_def)
  show "distinct (concat (map ?block rs))" by (rule distinct_regroup [OF dist assms(2)])
  have only: "p \<in> set (?block r) \<longleftrightarrow> f i = Some r" if "i < length bs" "p \<in> set (bs ! i)" for p i r
    using that distinct_concat_index [OF dist] by fastforce
  show "set (concat (map ?block rs)) = P"
  proof (intro equalityI subsetI)
    fix p assume "p \<in> set (concat (map ?block rs))"
    then show "p \<in> P" using assms(1) by (auto simp: partitions_def)
  next
    fix p assume "p \<in> P"
    then obtain i where i: "i < length bs" "p \<in> set (bs ! i)" by (rule partitions_index [OF assms(1)])
    then obtain r where "f i = Some r" using assms(4) by blast
    with i assms(3) have "r \<in> set rs" "p \<in> set (?block r)" using only [OF i] by blast+
    then show "p \<in> set (concat (map ?block rs))" by auto
  qed
  fix p q assume "p \<in> P" "q \<in> P"
  obtain i where i: "i < length bs" "p \<in> set (bs ! i)" by (rule partitions_index [OF assms(1) \<open>p \<in> P\<close>])
  obtain j where j: "j < length bs" "q \<in> set (bs ! j)" by (rule partitions_index [OF assms(1) \<open>q \<in> P\<close>])
  obtain r where r: "f i = Some r" using assms(4) [OF i(1)] by blast
  have "(\<exists>b \<in> set (map ?block rs). p \<in> set b \<and> q \<in> set b) \<longleftrightarrow> (\<exists>r \<in> set rs. f i = Some r \<and> f j = Some r)"
    using only [OF i] only [OF j] by simp
  also have "\<dots> \<longleftrightarrow> f i = f j" using r i(1) assms(3) by force
  finally show "(\<exists>b \<in> set (map ?block rs). p \<in> set b \<and> q \<in> set b) \<longleftrightarrow> Q p q"
    using conn [OF i(1) j(1) i(2) j(2)] by simp
qed

lemma merged_partitions:
  assumes "hash_order_ok H" "partitions Q0 P (map cm_members cs)" "\<forall>(a, b) \<in> set ms. a < length cs \<and> b < length cs"
    and conn: "\<And>i j p q. i < length cs \<Longrightarrow> j < length cs \<Longrightarrow> p \<in> set (cm_members (cs ! i)) \<Longrightarrow> q \<in> set (cm_members (cs ! j)) \<Longrightarrow>
      (i, j) \<in> connected (set ms) \<longleftrightarrow> Q p q"
  shows "\<exists>cs'. merge_communities H c ms cs = Some cs' \<and> partitions Q P (map cm_members cs')"
proof (cases "ms = []")
  case True
  let ?bs = "map cm_members cs"
  have "partitions Q P (map (\<lambda>r. concat (map ((!) ?bs) (filter (\<lambda>i. Some i = Some r) [0..<length ?bs]))) [0..<length ?bs])"
    by (rule regrouped_partitions [OF assms(2)]) (use conn True in auto)
  moreover have "map (\<lambda>r. concat (map ((!) ?bs) (filter (\<lambda>i. Some i = Some r) [0..<length ?bs]))) [0..<length ?bs] = ?bs"
    by (rule nth_equalityI) (simp_all add: filter_upt_eq)
  ultimately show ?thesis using True by (simp add: merge_communities_def)
next
  case False
  obtain parent where parent: "unite ms [0..<length cs] = Some parent" "represents parent (length cs) (set ms)"
    using unite_represents [OF represents_initial assms(3)] by auto
  then have total: "\<forall>i \<in> set [0..<length cs]. find_root parent i \<noteq> None" by (simp add: represents_def)
  obtain g where g0: "group_roots parent [0..<length cs] [] = Some g"
    "\<forall>r. hm_list g r = hm_list [] r @ filter (\<lambda>i. find_root parent i = Some r) [0..<length cs]"
    "set (hm_keys g) = set (hm_keys ([] :: (nat \<times> nat list) list)) \<union>
       {r. \<exists>i \<in> set [0..<length cs]. find_root parent i = Some r}"
    using group_roots_lists [OF total] by blast
  have g: "hm_list g r = filter (\<lambda>i. find_root parent i = Some r) [0..<length cs]"
    "set (hm_keys g) = {r. \<exists>i < length cs. find_root parent i = Some r}" for r
    using g0(2,3) by (auto simp del: set_map)
  let ?rs = "ord_idx H (hm_keys g)" and ?bs = "map cm_members cs"
  have rs: "distinct ?rs" "set ?rs = {r. \<exists>i < length cs. find_root parent i = Some r}"
    using assms(1) g(2) by (simp_all del: set_map)
  have "partitions Q P (map (\<lambda>r. concat (map ((!) ?bs) (filter (\<lambda>i. find_root parent i = Some r) [0..<length ?bs]))) ?rs)"
    by (rule regrouped_partitions [OF assms(2) rs(1)])
      (use rs(2) total conn parent(2) in \<open>auto simp: represents_def\<close>)
  moreover have regroup: "map ((!) ?bs) (filter (\<lambda>i. find_root parent i = Some r) [0..<length ?bs]) =
      map (\<lambda>i. cm_members (cs ! i)) (filter (\<lambda>i. find_root parent i = Some r) [0..<length cs])" for r
    by simp
  ultimately have "partitions Q P
      (map (\<lambda>r. concat (map (\<lambda>i. cm_members (cs ! i)) (filter (\<lambda>i. find_root parent i = Some r) [0..<length cs]))) ?rs)"
    by (simp only: regroup)
  then show ?thesis
    using False parent(1) g0(1) g by (simp add: merge_communities_def merge_group_members)
qed

section \<open>Merged indices\<close>

definition related :: "ContainerState \<Rightarrow> u32 set \<Rightarrow> (u32 \<times> u32) set" where
  "related c P = fork_related c P \<union> heavily_related c P"

lemma classes_member:
  assumes "classes R P cs" "sym R" "i < length cs" "p \<in> set (cm_members (cs ! i))"
  shows "set (cm_members (cs ! i)) = R\<^sup>* `` {p}" "p \<in> P"
proof -
  obtain x where x: "set (cm_members (cs ! i)) = R\<^sup>* `` {x}"
    using assms(1,3) nth_mem [of i cs] unfolding classes_def by blast
  then have "(x, p) \<in> R\<^sup>*" using assms(4) by simp
  moreover from this have "(p, x) \<in> R\<^sup>*" using sym_rtrancl [OF assms(2)] by (meson symD)
  ultimately show "set (cm_members (cs ! i)) = R\<^sup>* `` {p}" unfolding x by (blast intro: rtrancl_trans)
  show "p \<in> P" using assms(1,3,4) nth_mem [of i cs] unfolding classes_def by auto
qed

lemma classes_partitions:
  assumes "classes R P cs" "sym R"
  shows "partitions (\<lambda>p q. (p, q) \<in> R\<^sup>*) P (map cm_members cs)"
  unfolding partitions_def
proof (intro conjI ballI)
  show "distinct (concat (map cm_members cs))" "set (concat (map cm_members cs)) = P"
    using assms(1) by (simp_all add: classes_def)
  fix p q assume "p \<in> P" "q \<in> P"
  then obtain i where "i < length cs" "p \<in> set (cm_members (cs ! i))"
    using assms(1) unfolding classes_def by (metis (no_types, lifting) in_set_conv_nth length_map nth_map set_concat UN_E)
  note i = this classes_member [OF assms this]
  show "(\<exists>b \<in> set (map cm_members cs). p \<in> set b \<and> q \<in> set b) \<longleftrightarrow> (p, q) \<in> R\<^sup>*"
  proof
    assume "\<exists>b \<in> set (map cm_members cs). p \<in> set b \<and> q \<in> set b"
    then obtain C where "C \<in> set cs" "p \<in> set (cm_members C)" "q \<in> set (cm_members C)" by auto
    then obtain j where "j < length cs" "p \<in> set (cm_members (cs ! j))" "q \<in> set (cm_members (cs ! j))"
      by (metis in_set_conv_nth)
    then show "(p, q) \<in> R\<^sup>*" using classes_member [OF assms] by blast
  next
    assume "(p, q) \<in> R\<^sup>*"
    then have "q \<in> set (cm_members (cs ! i))" using i(3) by simp
    with i(1,2) show "\<exists>b \<in> set (map cm_members cs). p \<in> set b \<and> q \<in> set b" by force
  qed
qed

lemma min_max_pair:
  "c1 \<noteq> c2 \<and> a = min c1 c2 \<and> b = max c1 c2 \<longleftrightarrow> a < b \<and> (c1 = a \<and> c2 = b \<or> c1 = b \<and> c2 = a)" for a b :: nat
  by (auto simp: min_def max_def)

lemma find_merges_set:
  "(a, b) \<in> set (find_merges es m) \<longleftrightarrow> a < b \<and>
     (\<exists>e \<in> set es. te_channel_type e \<noteq> Fork \<and> COMMUNITY_MERGE_EVENT_THRESHOLD \<le> te_event_count e \<and>
        (hm_get m (te_source_pid e) = Some a \<and> hm_get m (te_target_pid e) = Some b \<or>
         hm_get m (te_source_pid e) = Some b \<and> hm_get m (te_target_pid e) = Some a))"
proof -
  have "(a, b) \<in> set (find_merges es m) \<longleftrightarrow>
     (\<exists>e \<in> set es. te_channel_type e \<noteq> Fork \<and> COMMUNITY_MERGE_EVENT_THRESHOLD \<le> te_event_count e \<and>
        (\<exists>c1 c2. hm_get m (te_source_pid e) = Some c1 \<and> hm_get m (te_target_pid e) = Some c2 \<and>
           (c1 \<noteq> c2 \<and> a = min c1 c2 \<and> b = max c1 c2)))"
    by (induction es) (auto simp: find_merges_def map_filter_def split: option.splits)
  then show ?thesis unfolding min_max_pair by blast
qed

lemma merge_pairs:
  assumes "indexed cs m" "P = set (concat (map cm_members cs))" "i < length cs" "j < length cs" "i \<noteq> j"
  shows "(i, j) \<in> set (find_merges (tg_edges (taint_graph c)) m) \<union> (set (find_merges (tg_edges (taint_graph c)) m))\<inverse> \<longleftrightarrow>
    (\<exists>p \<in> set (cm_members (cs ! i)). \<exists>q \<in> set (cm_members (cs ! j)). (p, q) \<in> heavily_related c P)"
proof -
  have "set (cm_members (cs ! k)) \<subseteq> P" if "k < length cs" for k
    using that assms(2) nth_mem [OF that] by auto
  then have "(\<exists>p \<in> set (cm_members (cs ! i)). \<exists>q \<in> set (cm_members (cs ! j)). (p, q) \<in> heavily_related c P) \<longleftrightarrow>
      (\<exists>e \<in> set (tg_edges (taint_graph c)). te_channel_type e \<noteq> Fork \<and> COMMUNITY_MERGE_EVENT_THRESHOLD \<le> te_event_count e \<and>
        (hm_get m (te_source_pid e) = Some i \<and> hm_get m (te_target_pid e) = Some j \<or>
         hm_get m (te_source_pid e) = Some j \<and> hm_get m (te_target_pid e) = Some i))"
    using assms(1,3,4) unfolding heavily_related_def indexed_def by blast
  also have "\<dots> \<longleftrightarrow> (min i j, max i j) \<in> set (find_merges (tg_edges (taint_graph c)) m)"
    unfolding find_merges_set using assms(5) by (cases "i \<le> j") (auto simp: min_def max_def)
  also have "\<dots> \<longleftrightarrow> (i, j) \<in> set (find_merges (tg_edges (taint_graph c)) m) \<union> (set (find_merges (tg_edges (taint_graph c)) m))\<inverse>"
    using assms(5) by (cases "i \<le> j") (auto simp: find_merges_set min_def max_def)
  finally show ?thesis by simp
qed

lemma connected_merges:
  assumes "classes (fork_related c P) P cs" "indexed cs m" "i < length cs" "j < length cs"
    and "p \<in> set (cm_members (cs ! i))" "q \<in> set (cm_members (cs ! j))"
  shows "(i, j) \<in> connected (set (find_merges (tg_edges (taint_graph c)) m)) \<longleftrightarrow> (p, q) \<in> (related c P)\<^sup>*"
proof -
  let ?M = "set (find_merges (tg_edges (taint_graph c)) m)" and ?R = "related c P"
  have P: "P = set (concat (map cm_members cs))" using assms(1) by (simp add: classes_def)
  note pairs = merge_pairs [OF assms(2) P]
  have bounds: "k < length cs \<and> l < length cs \<and> k \<noteq> l" if "(k, l) \<in> ?M \<union> ?M\<inverse>" for k l
    using that assms(2) by (auto simp: find_merges_set indexed_def)
  have fork: "(fork_related c P)\<^sup>* \<subseteq> ?R\<^sup>*" unfolding related_def by (rule rtrancl_mono) blast
  have same: "(x, y) \<in> ?R\<^sup>*" if "k < length cs" "x \<in> set (cm_members (cs ! k))" "y \<in> set (cm_members (cs ! k))" for k x y
    using classes_member(1) [OF assms(1) sym_related(1) that(1,2)] that(3) fork by blast
  show ?thesis
  proof
    assume "(i, j) \<in> connected ?M"
    then have "(i, j) \<in> (?M \<union> ?M\<inverse>)\<^sup>*" by (simp add: connected_def)
    then show "(p, q) \<in> ?R\<^sup>*" using assms(6)
    proof (induction arbitrary: q rule: rtrancl_induct)
      case base
      then show ?case using same assms(3,5) by blast
    next
      case (step k l)
      obtain x y where xy: "x \<in> set (cm_members (cs ! k))" "y \<in> set (cm_members (cs ! l))" "(x, y) \<in> heavily_related c P"
        using pairs bounds [OF step(2)] step(2) by blast
      have "(p, x) \<in> ?R\<^sup>*" using step(3) xy(1) by blast
      moreover have "(x, y) \<in> ?R" using xy(3) by (simp add: related_def)
      moreover have "(y, q) \<in> ?R\<^sup>*" using same bounds [OF step(2)] xy(2) step(4) by blast
      ultimately show ?case by (meson rtrancl.rtrancl_into_rtrancl rtrancl_trans)
    qed
  next
    assume "(p, q) \<in> ?R\<^sup>*"
    then show "(i, j) \<in> connected ?M" using assms(4,6)
    proof (induction arbitrary: j rule: rtrancl_induct)
      case base
      have "i = j"
        using distinct_concat_index [of "map cm_members cs" i j p] assms(1,3,5) base by (simp add: classes_def)
      then show ?case by simp
    next
      case (step x y)
      have "x \<in> P" "y \<in> P" using step(2) by (auto simp: related_def fork_related_def heavily_related_def)
      then obtain k where k: "k < length cs" "x \<in> set (cm_members (cs ! k))"
        using P by (metis (no_types, lifting) UN_E in_set_conv_nth length_map nth_map set_concat)
      have "(k, j) \<in> connected ?M"
      proof (cases "(x, y) \<in> fork_related c P")
        case True
        then have "y \<in> set (cm_members (cs ! k))" using classes_member(1) [OF assms(1) sym_related(1) k] by auto
        then have "k = j"
          using distinct_concat_index [of "map cm_members cs" k j y] assms(1) k(1) step(4,5) by (simp add: classes_def)
        then show ?thesis by simp
      next
        case False
        then have "(x, y) \<in> heavily_related c P" using step(2) by (simp add: related_def)
        then have "k = j \<or> (k, j) \<in> ?M \<union> ?M\<inverse>" using pairs [OF k(1) step(4)] k(2) step(5) by blast
        then show ?thesis by (auto simp: connected_def)
      qed
      with step(3) k show ?case by (blast intro: connected_trans)
    qed
  qed
qed

section \<open>The communities\<close>

lemma sorted_by_size:
  "mset (map cm_members (by_size cs)) = mset (map cm_members cs) \<and> map cm_id (by_size cs) = [0..<length cs] \<and>
   sorted (map (\<lambda>cm. - int (length (cm_members cm))) (by_size cs))"
proof -
  let ?s = "sort_key (\<lambda>cm. - int (length (cm_members cm))) cs"
  have m: "map cm_members (by_size cs) = map cm_members ?s"
    unfolding by_size_def by (rule nth_equalityI) simp_all
  have "mset (map cm_members ?s) = mset (map cm_members cs)" by simp
  moreover have "map cm_id (by_size cs) = [0..<length cs]"
    unfolding by_size_def by (rule nth_equalityI) simp_all
  moreover have "map (\<lambda>cm. - int (length (cm_members cm))) (by_size cs) = map (\<lambda>cm. - int (length (cm_members cm))) ?s"
    using arg_cong [OF m, of "map (\<lambda>l. - int (length l))"] by (simp add: comp_def)
  ultimately show ?thesis using m by simp
qed

lemma partitions_mset:
  assumes "mset bs = mset bs'" "partitions Q P bs"
  shows "partitions Q P bs'"
proof -
  have "mset (concat bs) = mset (concat bs')" using assms(1) by (metis mset_concat mset_map sum_mset_sum_list)
  with assms show ?thesis unfolding partitions_def by (metis mset_eq_imp_distinct_iff mset_eq_setD)
qed

lemma detect_communities_classes:
  assumes "hash_order_ok H"
  shows "\<exists>cs. detect_communities H c pids = Some cs \<and>
    distinct (concat (map cm_members cs)) \<and> set (concat (map cm_members cs)) = set pids \<and>
    (\<forall>p \<in> set pids. \<forall>q \<in> set pids.
       (\<exists>C \<in> set cs. p \<in> set (cm_members C) \<and> q \<in> set (cm_members C)) \<longleftrightarrow> (p, q) \<in> (related c (set pids))\<^sup>*) \<and>
    map cm_id cs = [0..<length cs] \<and> sorted (map (\<lambda>cm. - int (length (cm_members cm))) cs)"
proof (cases "pids = []")
  case True
  then show ?thesis by (simp add: detect_communities_def)
next
  case False
  obtain cs0 m where g: "name_groups H c pids = (cs0, m)" by fastforce
  note cls = name_groups_classes [OF assms g]
  let ?ms = "find_merges (tg_edges (taint_graph c)) m"
  have bounds: "\<forall>(a, b) \<in> set ?ms. a < length cs0 \<and> b < length cs0"
    using cls by (auto simp: find_merges_set indexed_def)
  have "\<exists>cs1. merge_communities H c ?ms cs0 = Some cs1 \<and>
      partitions (\<lambda>p q. (p, q) \<in> (related c (set pids))\<^sup>*) (set pids) (map cm_members cs1)"
  proof (rule merged_partitions [OF assms classes_partitions [OF conjunct1 [OF cls] sym_related(1)] bounds])
    fix i j p q assume "i < length cs0" "j < length cs0" "p \<in> set (cm_members (cs0 ! i))" "q \<in> set (cm_members (cs0 ! j))"
    then show "(i, j) \<in> connected (set ?ms) \<longleftrightarrow> (p, q) \<in> (related c (set pids))\<^sup>*"
      by (rule connected_merges [OF conjunct1 [OF cls] conjunct2 [OF cls]])
  qed
  then obtain cs1 where cs1: "merge_communities H c ?ms cs0 = Some cs1"
      "partitions (\<lambda>p q. (p, q) \<in> (related c (set pids))\<^sup>*) (set pids) (map cm_members cs1)" by blast
  have "partitions (\<lambda>p q. (p, q) \<in> (related c (set pids))\<^sup>*) (set pids) (map cm_members (by_size cs1))"
    by (rule partitions_mset [OF conjunct1 [OF sorted_by_size, symmetric] cs1(2)])
  then have parts: "distinct (concat (map cm_members (by_size cs1)))" "set (concat (map cm_members (by_size cs1))) = set pids"
      "\<forall>p \<in> set pids. \<forall>q \<in> set pids.
         (\<exists>b \<in> set (map cm_members (by_size cs1)). p \<in> set b \<and> q \<in> set b) \<longleftrightarrow> (p, q) \<in> (related c (set pids))\<^sup>*"
    unfolding partitions_def by blast+
  have members: "(\<exists>b \<in> set (map cm_members cs). p \<in> set b \<and> q \<in> set b) \<longleftrightarrow>
      (\<exists>C \<in> set cs. p \<in> set (cm_members C) \<and> q \<in> set (cm_members C))" for p q cs
    by simp
  have "detect_communities H c pids = Some (by_size cs1)" using False g cs1(1) by (simp add: detect_communities_def)
  moreover have "map cm_id (by_size cs1) = [0..<length (by_size cs1)]"
    using sorted_by_size [of cs1] by (metis length_map length_upt minus_nat.diff_0)
  moreover have "sorted (map (\<lambda>cm. - int (length (cm_members cm))) (by_size cs1))"
    using sorted_by_size by blast
  ultimately show ?thesis using parts [unfolded members] by blast
qed


text \<open>Two shells connected by a fork, and a reader that gets ten messages from one of them.\<close>

definition sample_community_process :: "u32 \<Rightarrow> string \<Rightarrow> ProcessInfo" where
  "sample_community_process pid comm =
     \<lparr>pi_pid = pid, pi_ppid = 0, pi_comm = comm, pi_exec_path = comm, pi_cmdline = comm, pi_open_files = [],
      pi_net_connections = [], pi_taint_score = 0, pi_taint_source = [], pi_exited = False, pi_children = [],
      pi_attributed_action = 0\<rparr>"

definition sample_communities :: ContainerState where
  "sample_communities = (ContainerState_new 0 baseline_new)
     \<lparr>process_table := [(10, sample_community_process 10 ''bash''), (11, sample_community_process 11 ''bash''),
        (12, sample_community_process 12 ''cat''), (13, sample_community_process 13 ''cat'')],
      taint_graph := (add_edge 10 11 ''fork'' Fork 1 ^^ 1) ((add_edge 11 12 ''queue'' MessageQueue 1 ^^ 10) graph_empty)\<rparr>"


end
