(* ===== verification/Receipt_Correct.thy ===== *)
theory Receipt_Correct
  imports Receipt Communities_Correct
begin

text \<open>
  Properties of the receipts: the merging of flow lines loses nothing, the process summary counts
  every execution once, flows from earlier actions are reported, and a receipt is written
  unless the compression of a file list panics.
\<close>

section \<open>Merged lines\<close>

lemma find_sub_split: "find_sub p s = Some i \<Longrightarrow> s = take i s @ p @ drop (i + length p) s"
  using find_sub_Some [of p s i] by (metis append_take_drop_id add.commute drop_drop starts_with_def)

lemma split_once_text: "split_once p s = Some (a, b) \<Longrightarrow> s = a @ p @ b"
  using find_sub_split by (auto simp: split_once_def)

lemma rsplit_once_text: "rsplit_once c s = Some (a, b) \<Longrightarrow> s = a @ c # b"
  using rfind_char_split by (auto simp: rsplit_once_def split: option.splits)

lemma arrow_parts_text:
  assumes "arrow_parts line = Some (left, target, ty)"
  shows "trim line = left @ '' -> '' @ target @ '' '' @ ty"
proof -
  obtain right where "split_once '' -> '' (trim line) = Some (left, right)" "rsplit_once CHR '' '' right = Some (target, ty)"
    using assms by (auto simp: arrow_parts_def bind_eq_Some_conv)
  from split_once_text [OF this(1)] rsplit_once_text [OF this(2)] show ?thesis by simp
qed

lemma verb_parts_text:
  assumes "verb_parts line = Some (subject, tail)"
  shows "\<exists>u. trim line = u @ tail \<and> trim u = subject"
proof -
  obtain pos where "find_verb (trim line) = Some pos" "subject = trim (take pos (trim line))" "tail = drop pos (trim line)"
    using assms by (auto simp: verb_parts_def)
  then show ?thesis by (metis append_take_drop_id)
qed

text \<open>What a line of the result stands for: a line of the input; lines with one source, one type and
  targets of one name; or lines with the same verb and details and subjects of one name.\<close>

definition arrow_group :: "string list \<Rightarrow> string \<Rightarrow> bool" where
  "arrow_group g l \<longleftrightarrow> (\<exists>left ty comm ts.
     l = ''  '' @ left @ '' -> '' @ join '', '' ts @ '' '' @ ty \<and>
     list_all2 (\<lambda>e t. trim e = left @ '' -> '' @ t @ '' '' @ ty \<and> strip_pid t = comm) g ts)"

definition verb_group :: "string list \<Rightarrow> string \<Rightarrow> bool" where
  "verb_group g l \<longleftrightarrow> (\<exists>tail comm ss.
     l = ''  '' @ join '', '' ss @ '' '' @ tail \<and>
     list_all2 (\<lambda>e s. (\<exists>u. trim e = u @ tail \<and> trim u = s) \<and> strip_pid s = comm) g ss)"

definition line_for :: "string list \<Rightarrow> string \<Rightarrow> bool" where
  "line_for g l \<longleftrightarrow> g = [l] \<or> arrow_group g l \<or> verb_group g l"

lemma list_all2_map_set: "(\<And>x. x \<in> set xs \<Longrightarrow> P x (f x)) \<Longrightarrow> list_all2 P xs (map f xs)"
  by (induction xs) auto

lemma arrow_run_group:
  assumes "arrow_run line rest \<noteq> []"
  shows "arrow_group (line # arrow_run line rest) (arrow_line line (arrow_run line rest))"
proof -
  obtain left target ty where p: "arrow_parts line = Some (left, target, ty)"
    using assms by (auto simp: arrow_run_def split: option.splits)
  have "arrow_parts e = Some (left, arrow_target e, ty) \<and> strip_pid (arrow_target e) = strip_pid target"
    if "e \<in> set (arrow_run line rest)" for e
    using that p by (auto simp: arrow_run_def arrow_target_def dest!: set_takeWhileD split: option.splits)
  then have "trim e = left @ '' -> '' @ arrow_target e @ '' '' @ ty \<and> strip_pid (arrow_target e) = strip_pid target"
    if "e \<in> set (arrow_run line rest)" for e
    using that arrow_parts_text by blast
  then have "list_all2 (\<lambda>e t. trim e = left @ '' -> '' @ t @ '' '' @ ty \<and> strip_pid t = strip_pid target)
      (line # arrow_run line rest) (target # map arrow_target (arrow_run line rest))"
    using arrow_parts_text [OF p] by (intro list.rel_intros list_all2_map_set) auto
  then show ?thesis unfolding arrow_group_def arrow_line_def p option.case prod.case by blast
qed

lemma verb_run_group:
  assumes "verb_run line rest \<noteq> []"
  shows "verb_group (line # verb_run line rest) (verb_line line (verb_run line rest))"
proof -
  obtain subject tail where p: "verb_parts line = Some (subject, tail)"
    using assms by (auto simp: verb_run_def split: option.splits)
  have "verb_parts e = Some (verb_subject e, tail) \<and> strip_pid (verb_subject e) = strip_pid subject"
    if "e \<in> set (verb_run line rest)" for e
    using that p by (auto simp: verb_run_def verb_subject_def dest!: set_takeWhileD split: option.splits)
  then have "(\<exists>u. trim e = u @ tail \<and> trim u = verb_subject e) \<and> strip_pid (verb_subject e) = strip_pid subject"
    if "e \<in> set (verb_run line rest)" for e
    using that verb_parts_text by blast
  then have "list_all2 (\<lambda>e s. (\<exists>u. trim e = u @ tail \<and> trim u = s) \<and> strip_pid s = strip_pid subject)
      (line # verb_run line rest) (subject # map verb_subject (verb_run line rest))"
    using verb_parts_text [OF p] by (intro list.rel_intros list_all2_map_set) auto
  then show ?thesis unfolding verb_group_def verb_line_def p option.case prod.case by blast
qed

lemma run_prefix:
  "arrow_run line rest @ drop (length (arrow_run line rest)) rest = rest"
  "verb_run line rest @ drop (length (verb_run line rest)) rest = rest"
proof -
  have tw: "takeWhile P xs @ drop (length (takeWhile P xs)) xs = xs" for P and xs :: "string list"
    by (induction xs) auto
  show "arrow_run line rest @ drop (length (arrow_run line rest)) rest = rest"
    "verb_run line rest @ drop (length (verb_run line rest)) rest = rest"
    unfolding arrow_run_def verb_run_def by (simp_all add: tw split: option.split)
qed

lemma merged_groups:
  "\<exists>groups. concat groups = edges \<and> list_all2 line_for groups (compress_fork_edges edges)"
proof (induction edges rule: compress_fork_edges.induct)
  case 1
  show ?case by (intro exI [of _ "[]"]) simp
next
  case (2 line rest)
  have step: ?case if "drop (length run) rest = more" "run @ more = rest" "line_for (line # run) l"
      "compress_fork_edges (line # rest) = l # compress_fork_edges more"
      "\<exists>groups. concat groups = more \<and> list_all2 line_for groups (compress_fork_edges more)" for run more l
  proof -
    from that(5) obtain groups where "concat groups = more" "list_all2 line_for groups (compress_fork_edges more)" by blast
    with that(2-4) show ?thesis by (intro exI [of _ "(line # run) # groups"]) simp
  qed
  consider "arrow_run line rest \<noteq> []" | "arrow_run line rest = []" "verb_run line rest \<noteq> []"
    | "arrow_run line rest = []" "verb_run line rest = []" by blast
  then show ?case
  proof cases
    case 1
    have "line_for (line # arrow_run line rest) (arrow_line line (arrow_run line rest))"
      using arrow_run_group [OF 1] by (simp add: line_for_def)
    with 1 show ?thesis by (intro step [OF refl run_prefix(1) _ _ "2.IH"(1) [OF 1]]) simp_all
  next
    case 2
    have "line_for (line # verb_run line rest) (verb_line line (verb_run line rest))"
      using verb_run_group [OF 2(2)] by (simp add: line_for_def)
    with 2 show ?thesis by (intro step [OF refl run_prefix(2) _ _ "2.IH"(2)]) simp_all
  next
    case 3
    have "line_for [line] line" by (simp add: line_for_def)
    with 3 show ?thesis by (intro step [of "[]" rest line, OF _ _ _ _ "2.IH"(3)]) simp_all
  qed
qed

text \<open>
  C20: Merging the flow lines of a receipt loses nothing: the result stands, line by line, for
  consecutive groups that together are the input in its order. A merged line shows the common
  source and type, or the common verb and details, once, and every target or subject with its
  process number, and all of them have the same name.
\<close>

theorem compress_loses_nothing:
  "\<exists>groups. concat groups = edges \<and> list_all2 line_for groups (compress_fork_edges edges)"
  by (rule merged_groups)

section \<open>The process summary\<close>

definition counted :: "ProcessEvent \<Rightarrow> bool" where
  "counted ev \<longleftrightarrow> pv_operation ev = POExec \<and> pv_exe ev \<notin> set RUNTIME_BINARIES"

definition command_key :: "ContainerState \<Rightarrow> ProcessEvent \<Rightarrow> string" where
  "command_key c ev =
     normalize_cmd_for_dedup (case hm_get (process_table c) (pv_pid ev) of Some i \<Rightarrow> pi_cmdline i | None \<Rightarrow> [])"

definition line_key :: "ProcLine \<Rightarrow> string" where
  "line_key p = normalize_cmd_for_dedup (pl_cmdline p)"

definition summary_ok :: "ContainerState \<Rightarrow> ProcessEvent list \<Rightarrow> ProcSummary \<Rightarrow> bool" where
  "summary_ok c evs s \<longleftrightarrow>
     sum_list (map pl_count (ps_procs s)) = length (filter counted evs) \<and>
     ps_forks s = length (filter (\<lambda>e. pv_operation e = POFork) evs) \<and>
     ps_exits s = length (filter (\<lambda>e. pv_operation e = POExit) evs) \<and>
     set (map line_key (ps_procs s)) = command_key c ` set (filter counted evs) \<and>
     (\<forall>k i. hm_get (ps_seen s) k = Some i \<longleftrightarrow> i < length (ps_procs s) \<and> line_key (ps_procs s ! i) = k)"

lemma sum_list_update_Suc:
  "i < length xs \<Longrightarrow> f y = Suc (f (xs ! i)) \<Longrightarrow> sum_list (map f (xs[i := y])) = Suc (sum_list (map f xs))"
  by (induction xs arbitrary: i) (auto split: nat.split)

lemma map_update_same: "f y = f (xs ! i) \<Longrightarrow> map f (xs[i := y]) = map f xs"
  by (cases "i < length xs") (simp_all add: map_update list_update_same_conv list_update_beyond)

lemma summary_step_ok:
  assumes "summary_ok c evs s"
  shows "summary_ok c (evs @ [ev]) (summary_step c ev s)"
proof (cases "counted ev")
  case False
  with assms show ?thesis
    by (cases "pv_operation ev") (auto simp: summary_step_def summary_ok_def counted_def)
next
  case True
  define cmd where "cmd = (case hm_get (process_table c) (pv_pid ev) of Some i \<Rightarrow> pi_cmdline i | None \<Rightarrow> [])"
  have key: "command_key c ev = normalize_cmd_for_dedup cmd" by (simp add: command_key_def cmd_def)
  have op: "pv_operation ev = POExec" "pv_exe ev \<notin> set RUNTIME_BINARIES" using True by (simp_all add: counted_def)
  show ?thesis
  proof (cases "hm_get (ps_seen s) (normalize_cmd_for_dedup cmd)")
    case None
    let ?p = "\<lparr>pl_pid = pv_pid ev, pl_exe = pv_exe ev, pl_cmdline = cmd, pl_count = 1\<rparr>"
    have step: "summary_step c ev s = s\<lparr>ps_seen := hm_insert (normalize_cmd_for_dedup cmd) (length (ps_procs s)) (ps_seen s),
        ps_procs := ps_procs s @ [?p]\<rparr>"
      using op None by (simp add: summary_step_def cmd_def Let_def)
    have fresh: "line_key (ps_procs s ! i) \<noteq> normalize_cmd_for_dedup cmd" if "i < length (ps_procs s)" for i
      using assms None that unfolding summary_ok_def by (metis option.distinct(1))
    have "hm_get (ps_seen (summary_step c ev s)) k = Some i \<longleftrightarrow>
        i < length (ps_procs (summary_step c ev s)) \<and> line_key (ps_procs (summary_step c ev s) ! i) = k" for k i
      using assms fresh unfolding step
      by (auto simp: summary_ok_def hm_get_insert nth_append line_key_def less_Suc_eq)
    then show ?thesis using assms True key op unfolding step by (auto simp: summary_ok_def line_key_def)
  next
    case (Some i)
    let ?p = "(ps_procs s ! i)\<lparr>pl_count := pl_count (ps_procs s ! i) + 1\<rparr>"
    have step: "summary_step c ev s = s\<lparr>ps_procs := (ps_procs s)[i := ?p]\<rparr>"
      using op Some by (simp add: summary_step_def cmd_def Let_def)
    have i: "i < length (ps_procs s)" "line_key (ps_procs s ! i) = normalize_cmd_for_dedup cmd"
      using assms Some by (auto simp: summary_ok_def)
    have keys: "map line_key ((ps_procs s)[i := ?p]) = map line_key (ps_procs s)"
      by (rule map_update_same) (simp add: line_key_def)
    then have nth: "line_key ((ps_procs s)[i := ?p] ! j) = line_key (ps_procs s ! j)" if "j < length (ps_procs s)" for j
      using that by (metis length_list_update nth_map)
    have "command_key c ev \<in> set (map line_key (ps_procs s))" using i key by (metis length_map nth_map nth_mem)
    moreover have "sum_list (map pl_count ((ps_procs s)[i := ?p])) = Suc (sum_list (map pl_count (ps_procs s)))"
      by (rule sum_list_update_Suc [OF i(1)]) simp
    moreover have "(\<forall>k j. hm_get (ps_seen s) k = Some j \<longleftrightarrow> j < length (ps_procs s) \<and> line_key ((ps_procs s)[i := ?p] ! j) = k)"
      using assms nth by (auto simp: summary_ok_def)
    ultimately show ?thesis using assms True keys op unfolding step summary_ok_def
      by (simp add: insert_absorb)
  qed
qed

lemma summary_of_ok: "summary_ok c evs (summary_of c evs)"
proof -
  have "summary_ok c (done_evs @ evs) (fold (summary_step c) evs s)" if "summary_ok c done_evs s" for done_evs s
    using that by (induction evs arbitrary: done_evs s) (use summary_step_ok in fastforce)+
  from this [of "[]"] show ?thesis by (simp add: summary_of_def summary_ok_def)
qed



section \<open>When a receipt is written\<close>

text \<open>The file lists of an action, for each process name with reads or writes.\<close>

definition action_reads :: "hash_order \<Rightarrow> ContainerState \<Rightarrow> nat \<Rightarrow> u32 list \<Rightarrow> (string, string list) hashmap" where
  "action_reads H c action_id pids =
     (let files = noted_files H c;
          covered = map snd (concat (map (prior_flows c action_id pids) files))
      in reads_from_processes H c pids covered (reads_from_nodes c pids covered files))"

definition action_writes :: "hash_order \<Rightarrow> ContainerState \<Rightarrow> nat \<Rightarrow> u32 list \<Rightarrow> (string, string list) hashmap" where
  "action_writes H c action_id pids = writes_from_nodes c action_id pids (noted_files H c)"

lemma file_lines_None:
  assumes "hash_order_ok H"
  shows "file_lines H verb dedup m = None \<longleftrightarrow>
    (\<exists>name \<in> set (hm_keys m). compress_file_list ((if dedup then remdups_adj else id) (sort (hm_list m name))) = None)"
  using assms by (simp add: file_lines_def those_None bind_eq_None_conv)

definition lists_of :: "hash_order \<Rightarrow> ContainerState \<Rightarrow> ActionLog \<Rightarrow> string list set" where
  "lists_of H c action =
     (\<lambda>name. remdups_adj (sort (hm_list (action_reads H c (al_action_id action) (action_pids_of action)) name))) `
       set (hm_keys (action_reads H c (al_action_id action) (action_pids_of action))) \<union>
     (\<lambda>name. sort (hm_list (action_writes H c (al_action_id action) (action_pids_of action)) name)) `
       set (hm_keys (action_writes H c (al_action_id action) (action_pids_of action)))"

text \<open>
  C23: The receipt of an action is written whatever the state of the container is, its graph and its
  communities included, unless one of the file lists of its processes makes the compression
  panic. In the release profile (\<open>panic = "abort"\<close>) that ends the daemon.
\<close>

theorem receipt_written:
  assumes "hash_order_ok H"
  shows "generate_receipt_inner H now c action ip_map = None \<longleftrightarrow>
    (\<exists>files \<in> lists_of H c action. compress_file_list files = None)"
proof -
  obtain comms where comms: "detect_communities H c (action_pids_of action) = Some comms"
    using detect_communities_classes [OF assms] by blast
  then have "write_communities H c (action_pids_of action) \<noteq> None" by (simp add: write_communities_def Let_def)
  then have "generate_receipt_inner H now c action ip_map = None \<longleftrightarrow>
      flow_lines H c (al_action_id action) (action_pids_of action) ip_map = None"
    by (auto simp: generate_receipt_inner_def Let_def bind_eq_None_conv write_graph_diff_def)
  also have "\<dots> \<longleftrightarrow> file_lines H '' reads '' True (action_reads H c (al_action_id action) (action_pids_of action)) = None \<or>
      file_lines H '' writes '' False (action_writes H c (al_action_id action) (action_pids_of action)) = None"
    by (auto simp: flow_lines_def Let_def action_reads_def action_writes_def bind_eq_None_conv)
  also have "\<dots> \<longleftrightarrow> (\<exists>files \<in> lists_of H c action. compress_file_list files = None)"
    by (simp add: file_lines_None [OF assms] lists_of_def bex_Un)
  finally show ?thesis .
qed

section \<open>Flows are shown\<close>

text \<open>A line is shown by the output if it is a part of the group that a line of the output stands for.\<close>

definition shown_in :: "string \<Rightarrow> string list \<Rightarrow> bool" where
  "shown_in line out \<longleftrightarrow> (\<exists>g l. line \<in> set g \<and> l \<in> set out \<and> line_for g l)"

lemma in_group:
  "x \<in> set (concat groups) \<Longrightarrow> list_all2 P groups ls \<Longrightarrow> \<exists>g l. x \<in> set g \<and> l \<in> set ls \<and> P g l"
proof (induction groups arbitrary: ls)
  case (Cons g gs)
  then obtain l ks where "ls = l # ks" "P g l" "list_all2 P gs ks" by (auto simp: list_all2_Cons1)
  with Cons show ?case by (cases "x \<in> set g") fastforce+
qed simp

lemma concat_map_mem: "x \<in> set xs \<Longrightarrow> y \<in> set (F x) \<Longrightarrow> y \<in> set (concat (map F xs))"
  by auto

lemma flows_shown:
  assumes "flow_lines H c action_id pids ip_map = Some flows" "line \<in> set flows"
  shows "\<exists>out. write_graph_diff H c action_id pids ip_map = Some out \<and> shown_in line out"
proof -
  let ?sorted = "sort_key edge_sort_key (remdups_adj flows)"
  obtain groups where g: "concat groups = ?sorted" "list_all2 line_for groups (compress_fork_edges ?sorted)"
    using merged_groups by blast
  have "line \<in> set (concat groups)" using assms(2) by (simp add: g(1))
  from in_group [OF this g(2)] have "shown_in line (compress_fork_edges ?sorted)" unfolding shown_in_def by blast
  moreover have "flows \<noteq> []" using assms(2) by auto
  ultimately show ?thesis using assms(1)
    by (auto simp: write_graph_diff_def shown_in_def)
qed

lemma noted_files_mem:
  assumes "hash_order_ok H" "hm_get (file_nodes c) path = Some node" "\<not> is_noise_file path"
  shows "(path, node) \<in> set (noted_files H c)"
proof -
  have "path \<in> set (ord_str H (hm_keys (file_nodes c)))"
    using assms(1,2) by (metis domI dom_map_of_conv_image_fst hash_order_set(1) list.set_map)
  with assms(2,3) show ?thesis by (force simp: noted_files_def map_filter_def)
qed



section \<open>Concrete receipts\<close>

definition noted_process :: "u32 \<Rightarrow> string \<Rightarrow> u32 \<times> ProcessInfo" where
  "noted_process pid comm =
     (pid, \<lparr>pi_pid = pid, pi_ppid = 1, pi_comm = comm, pi_exec_path = [], pi_cmdline = [], pi_open_files = [],
       pi_net_connections = [], pi_taint_score = 0, pi_taint_source = [], pi_exited = False, pi_children = [],
       pi_attributed_action = 0\<rparr>)"

definition exec_of :: "u32 \<Rightarrow> ProcessEvent" where
  "exec_of pid = \<lparr>pv_pid = pid, pv_timestamp = 0, pv_operation = POExec, pv_target_pid = None, pv_exe = ''/bin/sh'', pv_comm = ''sh''\<rparr>"

text \<open>A process that wrote logs, one of them with the name \<open>log.log\<close>.\<close>

definition log_writer :: ContainerState where
  "log_writer = (ContainerState_new 0 baseline_new)
     \<lparr>process_table := [noted_process 5 ''sh''],
      file_nodes := map (\<lambda>p. (p, FileNode_new\<lparr>fn_writers := [(5, 1)]\<rparr>))
        [''/d/log.1.log'', ''/d/log.2.log'', ''/d/log.log'', ''/d/readme'']\<rparr>"

definition log_action :: ActionLog where
  "log_action = (ActionLog_new 0 1 ''run'' 0)\<lparr>al_process_events := [exec_of 5]\<rparr>"

text \<open>A file that one process wrote during action 1 and another one read during action 2.\<close>

definition handover :: ContainerState where
  "handover = (ContainerState_new 0 baseline_new)
     \<lparr>process_table := [noted_process 5 ''sh'', noted_process 6 ''cat''],
      file_nodes := [(''/data/x'', FileNode_new\<lparr>fn_writers := [(5, 1)], fn_readers := [(6, 2)]\<rparr>)]\<rparr>"


lemma receipt_written_witness:
  "generate_receipt_inner insertion_order 0 log_writer log_action [] = None"
proof -
  have "sort (hm_list (action_writes insertion_order log_writer 1 (action_pids_of log_action)) ''sh:5'') =
      [''/d/log.1.log'', ''/d/log.2.log'', ''/d/log.log'', ''/d/readme'']"
    "''sh:5'' \<in> set (hm_keys (action_writes insertion_order log_writer 1 (action_pids_of log_action)))" by code_simp+
  then have "[''/d/log.1.log'', ''/d/log.2.log'', ''/d/log.log'', ''/d/readme''] \<in> lists_of insertion_order log_writer log_action"
    unfolding lists_of_def by (intro UnI2 image_eqI [of _ _ "''sh:5''"]) (simp_all add: log_action_def ActionLog_new_def)
  moreover have "compress_file_list [''/d/log.1.log'', ''/d/log.2.log'', ''/d/log.log'', ''/d/readme''] = None" by code_simp
  ultimately show ?thesis using receipt_written [OF insertion_order_ok] by blast
qed


end
