(* ===== verification/Experiment_Correct.thy ===== *)
theory Experiment_Correct
  imports Receipt
begin

text \<open>
  Properties of the receipts of experiments (\<open>src/src/receipt.rs\<close>): which flows between containers
  they list, and for which identifiers of containers they panic.
\<close>

section \<open>Flows between containers\<close>

lemma set_fold_push_unique [simp]: "set (fold push_unique xs ys) = set xs \<union> set ys"
  by (induction xs arbitrary: ys) auto

lemma distinct_fold_push_unique [simp]: "distinct (fold push_unique xs ys) = distinct ys"
  by (induction xs arbitrary: ys) auto

lemma rsplit_once_iff: "rsplit_once x s = Some (a, b) \<longleftrightarrow> s = a @ x # b \<and> x \<notin> set b"
proof
  assume "rsplit_once x s = Some (a, b)"
  then obtain i where i: "rfind_char x s = Some i" "a = take i s" "b = drop (Suc i) s"
    by (auto simp: rsplit_once_def split: option.splits)
  have "i < length s" "s ! i = x" "x \<notin> set b" using rfind_char_Some [OF i(1)] i(3) by simp_all
  with i(2,3) show "s = a @ x # b \<and> x \<notin> set b" using id_take_nth_drop [of i s] by simp
qed (simp add: rsplit_once_last)

lemma cross_target_iff:
  "cross_target d ex cid conn = Some (addr, t) \<longleftrightarrow>
     (\<exists>ip_str port ip. conn = ''connect '' @ addr \<and> addr = ip_str @ CHR '':'' # port \<and> CHR '':'' \<notin> set port \<and>
        parse_ipv4 ip_str = Some ip \<and> hm_get (ip_to_container d) ip = Some t \<and> t \<noteq> cid \<and> t \<in> set (ex_container_ids ex))"
proof
  assume "cross_target d ex cid conn = Some (addr, t)"
  then obtain addr' p ip u where *: "conn = ''connect '' @ addr'" "rsplit_once CHR '':'' addr' = Some (fst p, snd p)"
      "parse_ipv4 (fst p) = Some ip" "hm_get (ip_to_container d) ip = Some u"
      "(if u \<noteq> cid \<and> u \<in> set (ex_container_ids ex) then Some (addr', u) else None) = Some (addr, t)"
    unfolding cross_target_def bind_eq_Some_conv strip_prefix_Some case_prod_beta prod.collapse
    by (elim exE conjE) (rule that, assumption, simp only: prod.collapse, assumption+)
  then have "addr' = addr" "u = t" "t \<noteq> cid" "t \<in> set (ex_container_ids ex)" by (simp_all split: if_splits)
  with * show "\<exists>ip_str port ip. conn = ''connect '' @ addr \<and> addr = ip_str @ CHR '':'' # port \<and> CHR '':'' \<notin> set port \<and>
        parse_ipv4 ip_str = Some ip \<and> hm_get (ip_to_container d) ip = Some t \<and> t \<noteq> cid \<and> t \<in> set (ex_container_ids ex)"
    unfolding rsplit_once_iff by blast
next
  assume "\<exists>ip_str port ip. conn = ''connect '' @ addr \<and> addr = ip_str @ CHR '':'' # port \<and> CHR '':'' \<notin> set port \<and>
        parse_ipv4 ip_str = Some ip \<and> hm_get (ip_to_container d) ip = Some t \<and> t \<noteq> cid \<and> t \<in> set (ex_container_ids ex)"
  then obtain ip_str port ip where *: "strip_prefix ''connect '' conn = Some addr" "rsplit_once CHR '':'' addr = Some (ip_str, port)"
      "parse_ipv4 ip_str = Some ip" "hm_get (ip_to_container d) ip = Some t" "t \<noteq> cid" "t \<in> set (ex_container_ids ex)"
    unfolding rsplit_once_iff strip_prefix_Some by blast
  then show "cross_target d ex cid conn = Some (addr, t)"
    by (simp only: cross_target_def bind.bind_lunit prod.case simp_thms if_True)
qed

lemma experiment_containers_mem:
  "(cid, c) \<in> set (experiment_containers d ex) \<longleftrightarrow> cid \<in> set (ex_container_ids ex) \<and> hm_get (containers d) cid = Some c"
  by (auto simp: experiment_containers_def map_filter_mem)

lemma process_values_mem:
  assumes "hash_order_ok H"
  shows "info \<in> set (process_values H c) \<longleftrightarrow> (\<exists>pid. hm_get (process_table c) pid = Some info)"
proof -
  have "pid \<in> set (hm_keys (process_table c))" if "hm_get (process_table c) pid = Some info" for pid
    using map_of_SomeD [OF that] by force
  then show ?thesis using assms by (auto simp: process_values_def map_filter_mem hash_order_set)
qed

lemma container_flows_mem:
  assumes "hash_order_ok H" "container_flows H d ex cid c = Some flows"
  shows "line \<in> set flows \<longleftrightarrow> (\<exists>pid info conn addr t short tshort.
    hm_get (process_table c) pid = Some info \<and> conn \<in> set (pi_net_connections info) \<and> cross_target d ex cid conn = Some (addr, t) \<and>
    short_id cid = Some short \<and> short_id t = Some tshort \<and> line = flow_line info short addr tshort)"
proof -
  obtain short where s: "short_id cid = Some short"
    and f: "those (concat (map (\<lambda>info. List.map_filter (\<lambda>conn.
         map_option (\<lambda>(addr, target_cid). map_option (flow_line info short addr) (short_id target_cid)) (cross_target d ex cid conn))
       (pi_net_connections info)) (process_values H c))) = Some flows"
    using assms(2) by (auto simp: container_flows_def bind_eq_Some_conv)
  show ?thesis
  proof
    assume "line \<in> set flows"
    then show "\<exists>pid info conn addr t short tshort.
        hm_get (process_table c) pid = Some info \<and> conn \<in> set (pi_net_connections info) \<and> cross_target d ex cid conn = Some (addr, t) \<and>
        short_id cid = Some short \<and> short_id t = Some tshort \<and> line = flow_line info short addr tshort"
      unfolding those_mem [OF f] using s by (auto simp: map_filter_mem process_values_mem [OF assms(1)]) metis
  next
    assume "\<exists>pid info conn addr t short tshort.
        hm_get (process_table c) pid = Some info \<and> conn \<in> set (pi_net_connections info) \<and> cross_target d ex cid conn = Some (addr, t) \<and>
        short_id cid = Some short \<and> short_id t = Some tshort \<and> line = flow_line info short addr tshort"
    then obtain pid info conn addr t tshort where g: "hm_get (process_table c) pid = Some info" "conn \<in> set (pi_net_connections info)"
      "cross_target d ex cid conn = Some (addr, t)" "short_id t = Some tshort" "line = flow_line info short addr tshort"
      using s by auto
    have "info \<in> set (process_values H c)" using g(1) process_values_mem [OF assms(1)] by blast
    with g show "line \<in> set flows" unfolding those_mem [OF f] by (force simp: map_filter_mem)
  qed
qed
lemma those_pairs_None: "those (map (\<lambda>(a, b). F a b) xs) = None \<longleftrightarrow> (\<exists>a b. (a, b) \<in> set xs \<and> F a b = None)"
  unfolding those_None by force

lemma those_pairs_mem:
  assumes "those (map (\<lambda>(a, b). F a b) xs) = Some ys"
  shows "y \<in> set ys \<longleftrightarrow> (\<exists>a b. (a, b) \<in> set xs \<and> F a b = Some y)"
  unfolding those_mem [OF assms] by force

text \<open>A flow between containers of an experiment: a process of a known container has a connection to an
  address that belongs to another container of the experiment.\<close>

definition crosses :: "DaemonState \<Rightarrow> Experiment \<Rightarrow> string \<Rightarrow> ProcessInfo \<Rightarrow> string \<Rightarrow> string \<Rightarrow> bool" where
  "crosses d ex cid info addr t \<longleftrightarrow> cid \<in> set (ex_container_ids ex) \<and> t \<in> set (ex_container_ids ex) \<and> t \<noteq> cid \<and>
     (\<exists>c pid. hm_get (containers d) cid = Some c \<and> hm_get (process_table c) pid = Some info) \<and>
     ''connect '' @ addr \<in> set (pi_net_connections info) \<and>
     (\<exists>ip_str port ip. addr = ip_str @ CHR '':'' # port \<and> CHR '':'' \<notin> set port \<and>
        parse_ipv4 ip_str = Some ip \<and> hm_get (ip_to_container d) ip = Some t)"

lemma crosses_iff:
  "crosses d ex cid info addr t \<longleftrightarrow> (\<exists>c pid conn. (cid, c) \<in> set (experiment_containers d ex) \<and>
     hm_get (process_table c) pid = Some info \<and> conn \<in> set (pi_net_connections info) \<and> cross_target d ex cid conn = Some (addr, t))"
  unfolding crosses_def cross_target_iff experiment_containers_mem by blast

text \<open>
  C26: The receipt of an experiment lists exactly the flows between its containers, each once: there is a
  line for a process, an address and two containers if and only if the process, of the
  first container, connected to the address and its IP is registered for the other one.
\<close>

theorem cross_flows_exact:
  assumes "hash_order_ok H" "cross_flow_lines H d ex = Some flows"
  shows "distinct flows \<and> set flows =
    {flow_line info short addr tshort | info short addr tshort cid t.
       crosses d ex cid info addr t \<and> short_id cid = Some short \<and> short_id t = Some tshort}"
proof -
  obtain lls where l: "those (map (\<lambda>(cid, c). container_flows H d ex cid c) (experiment_containers d ex)) = Some lls"
    and f: "flows = fold push_unique (concat lls) []"
    using assms(2) by (auto simp: cross_flow_lines_def)
  have "line \<in> set flows \<longleftrightarrow> (\<exists>cid c ls. (cid, c) \<in> set (experiment_containers d ex) \<and> container_flows H d ex cid c = Some ls \<and> line \<in> set ls)" for line
    using those_pairs_mem [OF l] by (simp add: f) blast
  moreover have "\<exists>ls. container_flows H d ex cid c = Some ls" if "(cid, c) \<in> set (experiment_containers d ex)" for cid c
    using l that those_pairs_None [of "container_flows H d ex" "experiment_containers d ex"] by fastforce
  ultimately have "line \<in> set flows \<longleftrightarrow> (\<exists>info short addr tshort cid t. line = flow_line info short addr tshort \<and>
       crosses d ex cid info addr t \<and> short_id cid = Some short \<and> short_id t = Some tshort)" for line
    unfolding crosses_iff using container_flows_mem [OF assms(1)] by metis
  then have "set flows = {flow_line info short addr tshort | info short addr tshort cid t.
       crosses d ex cid info addr t \<and> short_id cid = Some short \<and> short_id t = Some tshort}" by blast
  then show ?thesis by (simp add: f)
qed

section \<open>Identifiers that cannot be shortened\<close>

lemma short_id_None: "short_id cid = None \<longleftrightarrow> \<not> is_char_boundary cid (min (length cid) 12)"
proof -
  have "is_char_boundary cid 0" by (simp add: is_char_boundary_def)
  then show ?thesis by (simp add: short_id_def str_slice_def)
qed

lemma container_flows_None:
  assumes "hash_order_ok H"
  shows "container_flows H d ex cid c = None \<longleftrightarrow> short_id cid = None \<or>
    (\<exists>pid info conn addr t. hm_get (process_table c) pid = Some info \<and> conn \<in> set (pi_net_connections info) \<and>
       cross_target d ex cid conn = Some (addr, t) \<and> short_id t = None)"
proof -
  have none: "those xs = None \<longleftrightarrow> None \<in> set xs" for xs :: "string option list" using those_None [of id xs] by auto
  let ?F = "\<lambda>short info conn. map_option (\<lambda>(addr, t). map_option (flow_line info short addr) (short_id t)) (cross_target d ex cid conn)"
  have "Some None = ?F short info conn \<longleftrightarrow> (\<exists>addr t. cross_target d ex cid conn = Some (addr, t) \<and> short_id t = None)" for short info conn
    by (cases "cross_target d ex cid conn") auto
  then have "None \<in> set (concat (map (\<lambda>info. List.map_filter (?F short info) (pi_net_connections info)) (process_values H c))) \<longleftrightarrow>
      (\<exists>info \<in> set (process_values H c). \<exists>conn \<in> set (pi_net_connections info). \<exists>addr t. cross_target d ex cid conn = Some (addr, t) \<and> short_id t = None)" for short
    by (simp add: map_filter_mem eq_commute [of _ "Some None"])
  then show ?thesis
    unfolding container_flows_def bind_eq_None_conv none Bex_def process_values_mem [OF assms] by blast
qed

text \<open>
  C27: The receipt of an experiment fails exactly if the identifier of one of its known containers, or
  of one that such a container sent to, is cut inside a character by its shortening to twelve
  bytes. Containers are created under whatever name a request gives, so that is possible; with
  ASCII identifiers, as Docker gives them, the receipt is always written.
\<close>

theorem experiment_receipt_panics:
  assumes "hash_order_ok H"
  shows "generate_experiment_receipt H d ex = None \<longleftrightarrow>
    (\<exists>cid \<in> set (ex_container_ids ex). \<not> is_char_boundary cid (min (length cid) 12) \<and>
       (hm_contains (containers d) cid \<or> (\<exists>i info addr. crosses d ex i info addr cid)))"
proof -
  have known: "hm_contains (containers d) cid \<and> cid \<in> set (ex_container_ids ex) \<longleftrightarrow> (\<exists>c. (cid, c) \<in> set (experiment_containers d ex))" for cid
    by (auto simp: experiment_containers_mem hm_contains_def)
  have "generate_experiment_receipt H d ex = None \<longleftrightarrow>
      (\<exists>cid c. (cid, c) \<in> set (experiment_containers d ex) \<and>
         (container_summary cid c = None \<or> container_flows H d ex cid c = None \<or> network_section H d cid c = None))"
    unfolding generate_experiment_receipt_def bind_eq_None_conv cross_flow_lines_def option.map_disc_iff those_pairs_None by auto
  also have "\<dots> \<longleftrightarrow> (\<exists>cid c. (cid, c) \<in> set (experiment_containers d ex) \<and> (short_id cid = None \<or> container_flows H d ex cid c = None))"
    by (simp add: container_summary_def network_section_def bind_eq_None_conv Let_def) blast
  also have "\<dots> \<longleftrightarrow> (\<exists>cid c. (cid, c) \<in> set (experiment_containers d ex) \<and> short_id cid = None) \<or>
      (\<exists>i info addr t. crosses d ex i info addr t \<and> short_id t = None)"
    unfolding container_flows_None [OF assms] crosses_iff by blast
  also have "\<dots> \<longleftrightarrow> (\<exists>cid \<in> set (ex_container_ids ex). short_id cid = None \<and>
       (hm_contains (containers d) cid \<or> (\<exists>i info addr. crosses d ex i info addr cid)))"
    using known unfolding crosses_def by blast
  finally show ?thesis unfolding short_id_None .
qed
section \<open>An experiment\<close>

definition sender :: "u32 \<Rightarrow> string \<Rightarrow> ContainerState" where
  "sender pid addr = (ContainerState_new 0 baseline_new)\<lparr>process_table :=
     [(pid, \<lparr>pi_pid = pid, pi_ppid = 1, pi_comm = ''curl'', pi_exec_path = [], pi_cmdline = [], pi_open_files = [],
       pi_net_connections = [''connect '' @ addr, ''connect 8.8.8.8:53'', ''connect '' @ addr], pi_taint_score = 0,
       pi_taint_source = [], pi_exited = False, pi_children = [], pi_attributed_action = 0\<rparr>)]\<rparr>"

text \<open>Two containers; the first connects to the second.\<close>

definition two_containers :: "string \<Rightarrow> string \<Rightarrow> DaemonState" where
  "two_containers a b =
     DaemonState_new\<lparr>containers := [(a, sender 7 ''10.0.0.2:80''), (b, ContainerState_new 0 baseline_new)],
      ip_to_container := [((10, 0, 0, 1), a), ((10, 0, 0, 2), b)]\<rparr>"

definition experiment_of :: "string list \<Rightarrow> Experiment" where
  "experiment_of cids = \<lparr>ex_id = ''exp-1'', ex_name = ''test'', ex_container_ids = cids\<rparr>"

lemma cross_flows_exact_witness:
  "set [''  curl:7 [aaaaaaaaaaaa] -> 10.0.0.2:80 [bbbbbbbbbbbb]''] =
    {flow_line info short addr tshort | info short addr tshort cid t.
       crosses (two_containers (replicate 64 CHR ''a'') (replicate 64 CHR ''b''))
         (experiment_of [replicate 64 CHR ''a'', replicate 64 CHR ''b'']) cid info addr t \<and>
       short_id cid = Some short \<and> short_id t = Some tshort}"
proof -
  have "cross_flow_lines insertion_order (two_containers (replicate 64 CHR ''a'') (replicate 64 CHR ''b''))
      (experiment_of [replicate 64 CHR ''a'', replicate 64 CHR ''b'']) = Some [''  curl:7 [aaaaaaaaaaaa] -> 10.0.0.2:80 [bbbbbbbbbbbb]'']"
    by code_simp
  from cross_flows_exact [OF insertion_order_ok this] show ?thesis by blast
qed

lemma experiment_receipt_panics_witness:
  "generate_experiment_receipt insertion_order
     (two_containers (replicate 11 CHR ''a'' @ [CHR 0xC3, CHR 0xA9]) ''b'') (experiment_of [replicate 11 CHR ''a'' @ [CHR 0xC3, CHR 0xA9]]) = None"
proof -
  let ?a = "replicate 11 CHR ''a'' @ [CHR 0xC3, CHR 0xA9]"
  have "\<not> is_char_boundary ?a (min (length ?a) 12)" by code_simp
  moreover have "hm_contains (containers (two_containers ?a ''b'')) ?a" by (simp add: two_containers_def hm_contains_def)
  moreover have "?a \<in> set (ex_container_ids (experiment_of [?a]))" by (simp add: experiment_of_def)
  ultimately show ?thesis using experiment_receipt_panics [OF insertion_order_ok] by blast
qed

end
