(* ===== verification/Receipt_Requests.thy ===== *)
theory Receipt_Requests
  imports Receipt Control
begin

text \<open>
  The requests of \<open>src/src/control.rs\<close> that only read the state: the listings and the receipts of
  experiments. \<open>receipt_text\<close> is the text that an answer of \<open>Control\<close> carries; a theorem states that
  it is what the code's \<open>generate_receipt\<close> returns.
\<close>

section \<open>Listings\<close>

record ContainerInfo =
  ci_container_id :: string
  ci_processes :: nat
  ci_influence_edges :: nat
  ci_active_action :: "nat option"
  ci_completed_actions :: nat

definition container_info :: "string \<Rightarrow> ContainerState \<Rightarrow> ContainerInfo" where
  "container_info i cs =
     \<lparr>ci_container_id = i, ci_processes = length (process_table cs), ci_influence_edges = length (tg_edges (taint_graph cs)),
      ci_active_action = map_option al_action_id (current_action cs), ci_completed_actions = length (completed_actions cs)\<rparr>"

text \<open>\<open>iter()\<close> of a map with text keys, in the order of the map.\<close>

definition map_items :: "hash_order \<Rightarrow> (string, 'v) hashmap \<Rightarrow> (string \<times> 'v) list" where
  "map_items H m = List.map_filter (\<lambda>k. map_option (\<lambda>v. (k, v)) (hm_get m k)) (ord_str H (hm_keys m))"

record StatusResponse =
  sr_ok :: bool
  sr_containers :: "ContainerInfo list"

definition status :: "hash_order \<Rightarrow> DaemonState \<Rightarrow> StatusResponse" where
  "status H d = \<lparr>sr_ok = True, sr_containers = map (\<lambda>(i, cs). container_info i cs) (map_items H (containers d))\<rparr>"

definition list_containers :: "hash_order \<Rightarrow> DaemonState \<Rightarrow> ContainerInfo list" where
  "list_containers H d = map (\<lambda>(i, cs). container_info i cs) (map_items H (containers d))"

definition list_experiments :: "hash_order \<Rightarrow> DaemonState \<Rightarrow> (string \<times> string \<times> string list) list" where
  "list_experiments H d = map (\<lambda>(i, e). (ex_id e, ex_name e, ex_container_ids e)) (map_items H (experiments d))"

section \<open>Receipts\<close>

fun receipt_text :: "hash_order \<Rightarrow> u64 \<Rightarrow> receipt \<Rightarrow> string panicking" where
  "receipt_text H now (NoActionData action_id) =
     Some (text_of [''=== Post-Action Receipt: Action #'' @ dec action_id @ '' ==='', ''No action data found.''])"
| "receipt_text H now (ReceiptOf a c ip_map) = generate_receipt_from_action H now c a ip_map"

datatype receipt_answer =
    ReceiptError string
  | ExperimentReceipt string string
  | ExperimentActionReceipt string nat string

definition experiment_receipt :: "hash_order \<Rightarrow> string \<Rightarrow> DaemonState \<Rightarrow> receipt_answer panicking" where
  "experiment_receipt H i d =
     (case hm_get (experiments d) i of
        None \<Rightarrow> Some (ReceiptError ''experiment not found'')
      | Some ex \<Rightarrow> map_option (ExperimentReceipt i) (generate_experiment_receipt H d ex))"

definition experiment_action_receipt :: "hash_order \<Rightarrow> string \<Rightarrow> nat \<Rightarrow> DaemonState \<Rightarrow> receipt_answer panicking" where
  "experiment_action_receipt H i action_id d =
     (case hm_get (experiments d) i of
        None \<Rightarrow> Some (ReceiptError ''experiment not found'')
      | Some ex \<Rightarrow> map_option (ExperimentActionReceipt i action_id) (generate_experiment_action_receipt H d ex action_id))"

section \<open>Properties\<close>

lemma map_items_mem:
  assumes "hash_order_ok H"
  shows "(k, v) \<in> set (map_items H m) \<longleftrightarrow> hm_get m k = Some v"
proof -
  have "k \<in> set (hm_keys m)" if "hm_get m k = Some v" using map_of_SomeD [OF that] by force
  then show ?thesis using assms by (auto simp: map_items_def map_filter_mem hash_order_set)
qed

text \<open>The choice that \<open>Control\<close> keeps of a receipt is refined by the text.\<close>

theorem receipt_text_generate_receipt:
  "receipt_text H now (generate_receipt c action_id ip_map) = generate_receipt_text H now c action_id ip_map"
  by (simp add: generate_receipt_def generate_receipt_text_def generate_receipt_from_action_def split: option.splits)

text \<open>The listing of containers is complete and names each once.\<close>

theorem containers_listed:
  assumes "hash_order_ok H"
  shows "set (list_containers H d) = {container_info i cs | i cs. hm_get (containers d) i = Some cs} \<and>
    distinct (map ci_container_id (list_containers H d))"
proof -
  have "map fst (List.map_filter (\<lambda>k. map_option (\<lambda>v. (k, v)) (g k)) ks) = filter (\<lambda>k. g k \<noteq> None) ks"
    for g :: "string \<Rightarrow> ContainerState option" and ks
    by (induction ks) (auto simp: List.map_filter_def)
  then have "distinct (map fst (map_items H (containers d)))" using assms by (simp add: map_items_def hash_order_set)
  then have "distinct (map ci_container_id (list_containers H d))"
    by (simp add: list_containers_def container_info_def o_def case_prod_beta)
  moreover have "set (list_containers H d) = {container_info i cs | i cs. hm_get (containers d) i = Some cs}"
    using map_items_mem [OF assms, where m = "containers d"] by (force simp: list_containers_def)
  ultimately show ?thesis by blast
qed

end
