(* ===== verification/Viz_Notice.thy ===== *)
theory Viz_Notice
  imports Rust_Str
begin

text \<open>
  The head of \<open>src/src/viz.js\<close>: the notice of its first eight lines (the release, its holder and the
  programs it contains in object code form), which a script engine skips as one block comment, and
  the static tables that the ninth line exports beside \<open>instance\<close>. Block comments are those of
  the language: from \<open>/*\<close> to the first \<open>*/\<close> after it, not nested.
\<close>

record release =
  rel_name :: string
  rel_version :: "nat \<times> nat \<times> nat"
  rel_holder :: string

definition viz_release :: release where
  "viz_release = \<lparr>rel_name = ''Viz.js'', rel_version = (3, 25, 0), rel_holder = ''Michael Daines''\<rparr>"

definition viz_contains :: "(string \<times> string) list" where
  "viz_contains =
     [(''Graphviz'', ''https://www.graphviz.org''),
      (''Expat'', ''https://libexpat.github.io'')]"

definition show_version :: "nat \<times> nat \<times> nat \<Rightarrow> string" where
  "show_version = (\<lambda>(a, b, c). join ''.'' (map (\<lambda>n. if n < 10 then [char_of (48 + n)]
     else [char_of (48 + n div 10), char_of (48 + n mod 10)]) [a, b, c]))"

definition viz_notice :: "string list" where
  "viz_notice =
     [''/*!'',
      rel_name viz_release @ '' '' @ show_version (rel_version viz_release),
      ''Copyright (c) '' @ rel_holder viz_release,
      [],
      ''This distribution contains other software in object code form:''] @
     map (\<lambda>(name, url). name @ '' '' @ url) viz_contains @
     [''*/'']"

definition viz_engines :: "string list" where
  "viz_engines =
     [''circo'', ''dot'', ''fdp'', ''neato'', ''nop'', ''nop1'', ''nop2'', ''osage'', ''patchwork'', ''sfdp'', ''twopi'']"

definition viz_formats :: "string list" where
  "viz_formats =
     [''canon'', ''cmap'', ''cmapx'', ''cmapx_np'', ''dot'', ''dot_json'', ''eps'', ''fig'', ''gv'', ''imap'',
      ''imap_np'', ''ismap'', ''json'', ''json0'', ''pic'', ''plain'', ''plain-ext'', ''pov'', ''ps'', ''ps2'', ''svg'',
      ''svg_inline'', ''tk'', ''xdot'', ''xdot1.2'', ''xdot1.4'', ''xdot_json'']"

definition viz_graphviz_version :: string where
  "viz_graphviz_version = ''14.1.3''"

section \<open>Skipping the notice\<close>

definition skip_comment :: "string \<Rightarrow> string option" where
  "skip_comment s =
     (case strip_prefix ''/*'' s of
        None \<Rightarrow> None
      | Some body \<Rightarrow> map_option (\<lambda>i. drop (i + 2) body) (find_sub ''*/'' body))"

definition newline :: char where "newline = CHR 0x0A"

definition viz_script :: "string \<Rightarrow> string" where
  "viz_script code = concat (map (\<lambda>l. l @ [newline]) viz_notice) @ code"

definition notice_body :: string where
  "notice_body = (let n = concat (map (\<lambda>l. l @ [newline]) viz_notice) in take (length n - 5) (drop 2 n))"

lemma viz_script_parts: "viz_script code = ''/*'' @ notice_body @ ''*/'' @ newline # code"
proof -
  have "concat (map (\<lambda>l. l @ [newline]) viz_notice) = ''/*'' @ notice_body @ ''*/'' @ [newline]"
    by code_simp
  then show ?thesis by (simp add: viz_script_def)
qed

lemma notice_body_open: "\<not> contains (notice_body @ butlast ''*/'') ''*/''"
  by code_simp

text \<open>
  The notice is inert: whatever code follows it, the engine skips exactly the eight lines of the
  notice as one block comment and goes on with that code.
\<close>

theorem notice_is_one_comment:
  "skip_comment (viz_script code) = Some (newline # code)"
proof -
  have "find_sub ''*/'' (notice_body @ ''*/'' @ newline # code) = Some (length notice_body)"
    by (rule find_sub_first [OF notice_body_open])
  then show ?thesis by (simp only: skip_comment_def viz_script_parts strip_prefix_append) simp
qed

end
