(* ===== verification/Viz_Utf8.thy ===== *)
theory Viz_Utf8
  imports Prelude
begin

text \<open>
  The string runtime of \<open>src/src/viz.js\<close>, the script that renders the influence graph in the
  dashboard: JavaScript strings (lists of 16-bit code units) written into the byte heap of the
  WebAssembly module as UTF-8 and read back. The functions are those exported as
  \<open>lengthBytesUTF8\<close>, \<open>stringToUTF8\<close> and \<open>UTF8ToString\<close> (minified \<open>f\<close>, \<open>v\<close> and \<open>iA\<close>, \<open>n\<close> and \<open>V\<close>). A
  number of the code is a natural number here: all values stay non-negative and below 2^31, where
  the bit operations of JavaScript agree with those on the naturals. An index outside an array
  reads as \<open>undefined\<close>, which the bit operations take as 0; a write outside is ignored.
\<close>

type_synonym js_string = "u16 list"
type_synonym heap = "u8 list"

definition js :: "string \<Rightarrow> js_string" where
  "js s = map (\<lambda>c. of_nat (of_char c)) s"

definition is_surrogate :: "nat \<Rightarrow> bool" where
  "is_surrogate c \<longleftrightarrow> 55296 \<le> c \<and> c \<le> 57343"

section \<open>Length\<close>

fun lengthBytesUTF8 :: "js_string \<Rightarrow> nat" where
  "lengthBytesUTF8 [] = 0"
| "lengthBytesUTF8 (u # s) =
     (let c = unat u in
      if c \<le> 127 then 1 + lengthBytesUTF8 s
      else if c \<le> 2047 then 2 + lengthBytesUTF8 s
      else if is_surrogate c then 4 + lengthBytesUTF8 (drop 1 s)
      else 3 + lengthBytesUTF8 s)"

section \<open>Writing\<close>

text \<open>The code point at the head of a string and what follows it: a surrogate takes the next unit
  along, whatever it is.\<close>

definition next_point :: "u16 \<Rightarrow> js_string \<Rightarrow> nat \<times> js_string" where
  "next_point u s =
     (let d = unat u in
      if is_surrogate d
      then (or (65536 + push_bit 10 (and 1023 d)) (case s of [] \<Rightarrow> 0 | u2 # _ \<Rightarrow> and 1023 (unat u2)), drop 1 s)
      else (d, s))"

definition byte :: "nat \<Rightarrow> u8" where
  "byte n = of_nat n"

definition put_bytes :: "heap \<Rightarrow> nat \<Rightarrow> u8 list \<Rightarrow> heap" where
  "put_bytes h g bs = fold (\<lambda>(i, b) h. h[i := b]) (List.enumerate g bs) h"

text \<open>The loop of \<open>stringToUTF8Array\<close>: it stops at the first code point that does not fit before
  \<open>end\<close>.\<close>

lemma next_point_shorter: "length (snd (next_point u s)) < Suc (length s)"
  by (auto simp: next_point_def Let_def)

function utf8_write :: "js_string \<Rightarrow> heap \<Rightarrow> nat \<Rightarrow> nat \<Rightarrow> heap \<times> nat" where
  "utf8_write [] h g end = (h, g)"
| "utf8_write (u # s) h g end =
     (let (d, r) = next_point u s in
      if d \<le> 127 then
        (if end \<le> g then (h, g) else utf8_write r (put_bytes h g [byte d]) (g + 1) end)
      else if d \<le> 2047 then
        (if end \<le> g + 1 then (h, g)
         else utf8_write r (put_bytes h g [byte (or 192 (drop_bit 6 d)), byte (or 128 (and 63 d))]) (g + 2) end)
      else if d \<le> 65535 then
        (if end \<le> g + 2 then (h, g)
         else utf8_write r (put_bytes h g [byte (or 224 (drop_bit 12 d)),
                byte (or 128 (and 63 (drop_bit 6 d))), byte (or 128 (and 63 d))]) (g + 3) end)
      else
        (if end \<le> g + 3 then (h, g)
         else utf8_write r (put_bytes h g [byte (or 240 (drop_bit 18 d)), byte (or 128 (and 63 (drop_bit 12 d))),
                byte (or 128 (and 63 (drop_bit 6 d))), byte (or 128 (and 63 d))]) (g + 4) end))"
  by pat_completeness auto
termination
  by (relation "measure (\<lambda>(s, h, g, end). length s)") (auto simp: next_point_def Let_def split: if_splits)

definition stringToUTF8Array :: "js_string \<Rightarrow> heap \<Rightarrow> nat \<Rightarrow> int \<Rightarrow> nat \<times> heap" where
  "stringToUTF8Array s h g maxBytes =
     (if maxBytes \<le> 0 then (0, h)
      else (let (h', g') = utf8_write s h g (nat (int g + maxBytes - 1))
            in (g' - g, h'[g' := 0])))"

section \<open>Reading\<close>

definition byte_at :: "heap \<Rightarrow> nat \<Rightarrow> nat" where
  "byte_at h i = (if i < length h then unat (h ! i) else 0)"

text \<open>The end of the text: the first zero byte, the end of the array, or the limit if one is given.\<close>

definition utf8_end :: "heap \<Rightarrow> nat \<Rightarrow> nat option \<Rightarrow> nat" where
  "utf8_end h i limit =
     (let bs = takeWhile (\<lambda>b. b \<noteq> 0) (drop i h)
      in case limit of None \<Rightarrow> i + length bs | Some n \<Rightarrow> i + min n (length bs))"

function utf8_read :: "heap \<Rightarrow> nat \<Rightarrow> nat \<Rightarrow> js_string" where
  "utf8_read h i q =
     (if q \<le> i then []
      else (let e = byte_at h i in
        if and 128 e \<noteq> 0
        then (let d = and 63 (byte_at h (i + 1)) in
          if and 224 e \<noteq> 192
          then (let w = and 63 (byte_at h (i + 2));
                    three = (and 240 e = 224);
                    p = (if three then or (or (push_bit 12 (and 15 e)) (push_bit 6 d)) w
                         else or (or (or (push_bit 18 (and 7 e)) (push_bit 12 d)) (push_bit 6 w))
                                (and 63 (byte_at h (i + 3))));
                    r = utf8_read h (if three then i + 3 else i + 4) q
                in if p < 65536 then of_nat p # r
                   else of_nat (or 55296 (drop_bit 10 (p - 65536))) # of_nat (or 56320 (and 1023 (p - 65536))) # r)
          else of_nat (or (push_bit 6 (and 31 e)) d) # utf8_read h (i + 2) q)
        else of_nat e # utf8_read h (i + 1) q))"
  by pat_completeness auto
termination
  by (relation "measure (\<lambda>(h, i, q). q - i)") auto

declare utf8_read.simps [simp del]

text \<open>\<open>UTF8ArrayToString\<close>: texts of more than 16 bytes go to the platform's \<open>TextDecoder\<close> if there is
  one; it is the parameter \<open>td\<close>.\<close>

definition UTF8ArrayToString :: "(u8 list \<Rightarrow> js_string) option \<Rightarrow> heap \<Rightarrow> nat \<Rightarrow> nat option \<Rightarrow> js_string" where
  "UTF8ArrayToString td h i limit =
     (let q = utf8_end h i limit in
      case td of
        Some decode \<Rightarrow> if 16 < q - i then decode (take (q - i) (drop i h)) else utf8_read h i q
      | None \<Rightarrow> utf8_read h i q)"

definition UTF8ToString :: "(u8 list \<Rightarrow> js_string) option \<Rightarrow> heap \<Rightarrow> nat \<Rightarrow> nat option \<Rightarrow> js_string" where
  "UTF8ToString td h ptr limit = (if ptr \<noteq> 0 then UTF8ArrayToString td h ptr limit else [])"

section \<open>Bit operations as arithmetic\<close>

lemma or_high:
  fixes x :: nat
  assumes "x < 2 ^ n"
  shows "or (a * 2 ^ n) x = a * 2 ^ n + x"
proof -
  have "\<not> bit (push_bit n a) m \<or> \<not> bit x m" for m
  proof (cases "m < n")
    case True
    then show ?thesis by (simp add: bit_push_bit_iff)
  next
    case False
    then have "x < 2 ^ m" using assms by (meson leI less_le_trans one_le_numeral power_increasing)
    then show ?thesis by (simp add: bit_iff_odd)
  qed
  then have "push_bit n a + x = or (push_bit n a) x" by (intro disjunctive_add) blast
  then show ?thesis by (simp add: push_bit_eq_mult)
qed

lemma and_mask_nat:
  "and 63 x = x mod 64" "and 1023 x = x mod 1024" "and 31 x = x mod 32" "and 15 x = x mod 16"
  "and 7 x = (x :: nat) mod 8"
  using take_bit_eq_mask [of 6 x] take_bit_eq_mask [of 10 x] take_bit_eq_mask [of 5 x]
    take_bit_eq_mask [of 4 x] take_bit_eq_mask [of 3 x]
  by (simp_all add: take_bit_eq_mod mask_eq_exp_minus_1 and.commute)

lemma and_shifted: "and (push_bit n a) x = push_bit n (and a (drop_bit n (x :: nat)))"
  by (rule bit_eqI) (auto simp: bit_simps)

lemma lead_byte:
  assumes "e < (256 :: nat)"
  shows "and 128 e \<noteq> 0 \<longleftrightarrow> 128 \<le> e" "and 224 e = 192 \<longleftrightarrow> 192 \<le> e \<and> e < 224"
    "and 240 e = 224 \<longleftrightarrow> 224 \<le> e \<and> e < 240"
proof -
  have m1: "and 1 x = x mod 2" for x :: nat using take_bit_eq_mask [of 1 x] by (simp add: and.commute)
  have "and 128 e = 128 * (e div 128 mod 2)" "and 224 e = 32 * (e div 32 mod 8)" "and 240 e = 16 * (e div 16 mod 16)"
    using and_shifted [of 7 1 e] and_shifted [of 5 7 e] and_shifted [of 4 15 e]
    by (simp_all add: push_bit_eq_mult drop_bit_eq_div m1 and_mask_nat)
  then show "and 128 e \<noteq> 0 \<longleftrightarrow> 128 \<le> e" "and 224 e = 192 \<longleftrightarrow> 192 \<le> e \<and> e < 224"
    "and 240 e = 224 \<longleftrightarrow> 224 \<le> e \<and> e < 240"
    using assms div_mult_mod_eq [of e 128] div_mult_mod_eq [of e 32] div_mult_mod_eq [of e 16]
      mod_less_divisor [of 128 e] mod_less_divisor [of 32 e] mod_less_divisor [of 16 e]
      less_mult_imp_div_less [of e 2 128] less_mult_imp_div_less [of e 8 32] less_mult_imp_div_less [of e 16 16]
    by auto
qed

lemmas or_lit =
  or_high [of _ 6 3, simplified] or_high [of _ 5 6, simplified] or_high [of _ 6 2, simplified]
  or_high [of _ 4 14, simplified] or_high [of _ 3 30, simplified] or_high [of _ 10 54, simplified]
  or_high [of _ 10 55, simplified]

section \<open>The encoding as a function\<close>

definition scalar :: "nat \<Rightarrow> bool" where
  "scalar p \<longleftrightarrow> 0 < p \<and> p < 0x110000 \<and> \<not> is_surrogate p"

definition utf16_of :: "nat \<Rightarrow> js_string" where
  "utf16_of p =
     (if p < 65536 then [of_nat p]
      else [of_nat (55296 + (p - 65536) div 1024), of_nat (56320 + (p - 65536) mod 1024)])"

definition utf8_of :: "nat \<Rightarrow> u8 list" where
  "utf8_of d =
     (if d \<le> 127 then [byte d]
      else if d \<le> 2047 then [byte (192 + d div 64), byte (128 + d mod 64)]
      else if d \<le> 65535 then [byte (224 + d div 4096), byte (128 + d div 64 mod 64), byte (128 + d mod 64)]
      else [byte (240 + d div 262144), byte (128 + d div 4096 mod 64), byte (128 + d div 64 mod 64),
            byte (128 + d mod 64)])"

abbreviation utf16 :: "nat list \<Rightarrow> js_string" where
  "utf16 ps \<equiv> concat (map utf16_of ps)"

abbreviation utf8 :: "nat list \<Rightarrow> u8 list" where
  "utf8 ps \<equiv> concat (map utf8_of ps)"

text \<open>The code points that the writer takes from a string, ill-formed ones included.\<close>

function points :: "js_string \<Rightarrow> nat list" where
  "points [] = []"
| "points (u # s) = (case next_point u s of (d, r) \<Rightarrow> d # points r)"
  by pat_completeness auto
termination
  by (relation "measure length") (auto simp: next_point_def Let_def split: if_splits)

lemma next_point_bound: "fst (next_point u s) < 0x110000"
proof -
  have "unat u < 65536" using unsigned_less [of u] by simp
  moreover have "or (65536 + push_bit 10 (unat u mod 1024)) b < 0x110000" if "b < 1024" for b
    using or_high [of b 10 "64 + unat u mod 1024"] that by (simp add: push_bit_eq_mult algebra_simps)
  ultimately show ?thesis by (auto simp: next_point_def Let_def and_mask_nat split: list.split)
qed

lemma unat16: "n < 65536 \<Longrightarrow> unat (of_nat n :: u16) = n"
  by (simp add: unat_of_nat)

lemma unat_byte: "n < 256 \<Longrightarrow> unat (byte n) = n"
  by (simp add: byte_def unat_of_nat)

lemma next_point_utf16:
  assumes "scalar p"
  shows "\<exists>u r. utf16_of p @ s = u # r \<and> next_point u r = (p, s)"
proof (cases "p < 65536")
  case True
  then show ?thesis using assms by (simp add: utf16_of_def scalar_def next_point_def unat_of_nat)
next
  case False
  let ?q = "p - 65536"
  have q: "?q < 1048576" using assms False by (simp add: scalar_def less_diff_conv2 not_less)
  have x: "?q div 1024 < 1024" using q by (simp add: less_mult_imp_div_less)
  from q have hi: "unat (of_nat (55296 + ?q div 1024) :: u16) = 55296 + ?q div 1024"
    and lo: "unat (of_nat (56320 + ?q mod 1024) :: u16) = 56320 + ?q mod 1024"
    using x mod_less_divisor [of 1024 ?q] by (intro unat16; linarith)+
  have m: "(55296 + y) mod 1024 = y" "(56320 + y) mod 1024 = y" if "y < 1024" for y :: nat
    using that mod_mult_self3 [of 54 1024 y] mod_mult_self3 [of 55 1024 y] by simp_all
  have "(55296 + ?q div 1024) mod 1024 = ?q div 1024" "(56320 + ?q mod 1024) mod 1024 = ?q mod 1024"
    using x by (simp_all only: m mod_less_divisor zero_less_numeral)
  moreover have "is_surrogate (55296 + ?q div 1024)" using x by (simp add: is_surrogate_def)
  moreover have "or (65536 + push_bit 10 (?q div 1024)) (?q mod 1024) = p"
    using or_high [of "?q mod 1024" 10 "64 + ?q div 1024"] False
    by (simp add: push_bit_eq_mult algebra_simps)
  ultimately show ?thesis using False hi lo
    by (simp add: utf16_of_def next_point_def Let_def and_mask_nat)
qed

lemma points_utf16: "list_all scalar ps \<Longrightarrow> points (utf16 ps) = ps"
proof (induction ps)
  case (Cons p ps)
  then obtain u r where "utf16_of p @ utf16 ps = u # r" "next_point u r = (p, utf16 ps)"
    using next_point_utf16 [of p "utf16 ps"] by auto
  with Cons show ?case by simp
qed simp

section \<open>The writer writes the encoding\<close>

lemma length_put_bytes [simp]: "length (put_bytes h g bs) = length h"
  unfolding put_bytes_def by (induction bs arbitrary: h g) simp_all

lemma put_bytes_Nil [simp]: "put_bytes h g [] = h"
  by (simp add: put_bytes_def)

lemma put_bytes_Cons: "put_bytes h g (b # bs) = put_bytes (h[g := b]) (Suc g) bs"
  by (simp add: put_bytes_def)

lemma put_bytes_append: "put_bytes h g (as @ bs) = put_bytes (put_bytes h g as) (g + length as) bs"
  by (induction as arbitrary: h g) (simp_all add: put_bytes_Cons)

lemma put_bytes_nth:
  "put_bytes h g bs ! i = (if g \<le> i \<and> i < g + length bs \<and> i < length h then bs ! (i - g) else h ! i)"
proof (induction bs arbitrary: h g)
  case (Cons b bs)
  then show ?case by (auto simp: put_bytes_Cons nth_list_update nth_Cons' not_less less_Suc_eq_le list_update_beyond)
qed auto

lemma utf8_lead:
  "d \<le> 2047 \<Longrightarrow> or 192 (d div 64) = 192 + d div 64"
  "d \<le> 65535 \<Longrightarrow> or 224 (d div 4096) = 224 + d div 4096"
  "d < 0x110000 \<Longrightarrow> or 240 (d div 262144) = 240 + d div (262144 :: nat)"
  "or 128 (d mod 64) = 128 + d mod (64 :: nat)"
  using less_mult_imp_div_less [of d 64 64] less_mult_imp_div_less [of d 16 4096] less_mult_imp_div_less [of d 8 262144]
  by (simp_all add: or_lit)

lemma utf8_of_code:
  "d \<le> 127 \<Longrightarrow> utf8_of d = [byte d]"
  "\<not> d \<le> 127 \<Longrightarrow> d \<le> 2047 \<Longrightarrow> utf8_of d = [byte (or 192 (drop_bit 6 d)), byte (or 128 (and 63 d))]"
  "\<not> d \<le> 2047 \<Longrightarrow> d \<le> 65535 \<Longrightarrow> utf8_of d =
     [byte (or 224 (drop_bit 12 d)), byte (or 128 (and 63 (drop_bit 6 d))), byte (or 128 (and 63 d))]"
  "\<not> d \<le> 65535 \<Longrightarrow> d < 0x110000 \<Longrightarrow> utf8_of d =
     [byte (or 240 (drop_bit 18 d)), byte (or 128 (and 63 (drop_bit 12 d))),
      byte (or 128 (and 63 (drop_bit 6 d))), byte (or 128 (and 63 d))]"
  by (simp_all add: utf8_of_def utf8_lead drop_bit_eq_div and_mask_nat)

lemma length_utf8_of:
  "length (utf8_of d) = (if d \<le> 127 then 1 else if d \<le> 2047 then 2 else if d \<le> 65535 then 3 else 4)"
  by (simp add: utf8_of_def)

text \<open>One round of the loop: the code point is written if its bytes end before \<open>end\<close>.\<close>

lemma utf8_write_step:
  assumes "next_point u s = (d, r)"
  shows "utf8_write (u # s) h g end =
    (if g + length (utf8_of d) \<le> end then utf8_write r (put_bytes h g (utf8_of d)) (g + length (utf8_of d)) end
     else (h, g))"
proof -
  have d: "d < 0x110000" using next_point_bound [of u s] assms by simp
  consider "d \<le> 127" | "\<not> d \<le> 127" "d \<le> 2047" | "\<not> d \<le> 2047" "d \<le> 65535" | "\<not> d \<le> 65535" by linarith
  then show ?thesis
  proof cases
    case 1
    then show ?thesis by (auto simp: assms utf8_of_code)
  next
    case 2
    then show ?thesis by (auto simp: assms utf8_of_code(2) not_le)
  next
    case 3
    then show ?thesis using length_utf8_of [of d] by (auto simp: assms utf8_of_code(3) [symmetric] not_le)
  next
    case 4
    then show ?thesis using d length_utf8_of [of d] by (auto simp: assms utf8_of_code(4) [symmetric] not_le)
  qed
qed

declare utf8_write.simps(2) [simp del]

text \<open>The bytes of the longest prefix of code points that fits.\<close>

fun fitting :: "nat \<Rightarrow> nat list \<Rightarrow> nat list" where
  "fitting room [] = []"
| "fitting room (p # ps) =
     (if length (utf8_of p) \<le> room then p # fitting (room - length (utf8_of p)) ps else [])"

lemma utf8_write_fitting:
  "g \<le> end \<Longrightarrow> utf8_write s h g end =
     (put_bytes h g (utf8 (fitting (end - g) (points s))), g + length (utf8 (fitting (end - g) (points s))))"
proof (induction s arbitrary: h g rule: points.induct)
  case (2 u s)
  obtain d r where n: "next_point u s = (d, r)" by (cases "next_point u s")
  have fits: "length (utf8_of d) \<le> end - g \<longleftrightarrow> g + length (utf8_of d) \<le> end" using "2.prems" by linarith
  show ?case
    using "2.IH" [OF n [symmetric], of "g + length (utf8_of d)" "put_bytes h g (utf8_of d)"]
    by (simp add: utf8_write_step [OF n] n fits put_bytes_append add.assoc diff_diff_left)
qed simp

lemma fitting_all: "length (utf8 ps) \<le> room \<Longrightarrow> fitting room ps = ps"
  by (induction ps arbitrary: room) simp_all

lemma fitting_length: "length (utf8 (fitting room ps)) \<le> room"
  by (induction room ps rule: fitting.induct) auto

lemma fitting_prefix: "\<exists>k. fitting room ps = take k ps"
proof (induction room ps rule: fitting.induct)
  case (2 room p ps)
  show ?case
  proof (cases "length (utf8_of p) \<le> room")
    case True
    with 2 obtain k where "fitting (room - length (utf8_of p)) ps = take k ps" by blast
    with True show ?thesis by (intro exI [of _ "Suc k"]) simp
  qed (auto intro: exI [of _ 0])
qed simp

lemma next_point_surrogate:
  assumes "is_surrogate (unat u)"
  obtains d where "next_point u s = (d, drop 1 s)" "65536 \<le> d"
proof
  let ?b = "case s of [] \<Rightarrow> 0 | u2 # _ \<Rightarrow> and 1023 (unat u2)"
  have "?b < 1024" by (simp add: and_mask_nat split: list.split)
  then have "65536 \<le> or (65536 + push_bit 10 (unat u mod 1024)) ?b"
    using or_high [of ?b 10 "64 + unat u mod 1024"] by (simp add: push_bit_eq_mult algebra_simps)
  then show "65536 \<le> or (65536 + push_bit 10 (and 1023 (unat u))) ?b" by (simp only: and_mask_nat)
  show "next_point u s = (or (65536 + push_bit 10 (and 1023 (unat u))) ?b, drop 1 s)"
    using assms by (simp add: next_point_def Let_def split: list.split)
qed

lemma lengthBytes_points: "lengthBytesUTF8 s = length (utf8 (points s))"
proof (induction s rule: lengthBytesUTF8.induct)
  case (2 u s)
  show ?case
  proof (cases "is_surrogate (unat u)")
    case True
    then obtain d where d: "next_point u s = (d, drop 1 s)" "65536 \<le> d" by (rule next_point_surrogate)
    from True have "\<not> unat u \<le> 127" "\<not> unat u \<le> 2047" by (simp_all add: is_surrogate_def)
    with 2 True d show ?thesis by (simp add: Let_def length_utf8_of)
  next
    case False
    have "unat u < 65536" using unsigned_less [of u] by simp
    with 2 False show ?thesis by (auto simp: Let_def next_point_def length_utf8_of)
  qed
qed simp

section \<open>The reader reads the encoding back\<close>

lemma byte_at_drop:
  assumes "drop i h = bs @ rest" "k < length bs"
  shows "byte_at h (i + k) = unat (bs ! k)"
proof -
  have "length (drop i h) = length bs + length rest" using assms(1) by simp
  then have "i + k < length h" using assms(2) by simp
  then have "h ! (i + k) = drop i h ! k" by simp
  then show ?thesis using assms \<open>i + k < length h\<close> by (simp add: byte_at_def nth_append)
qed

lemma base64_digits:
  fixes p :: nat
  shows "p div 64 * 64 + p mod 64 = p"
    "p div 4096 * 64 + p div 64 mod 64 = p div 64"
    "p div 262144 * 64 + p div 4096 mod 64 = p div 4096"
  using div_mult2_eq [of p 64 64] div_mult2_eq [of p 4096 64] by simp_all

lemma utf8_read_step:
  assumes "i < q" "byte_at h i = e" "e < 256"
  shows "e < 128 \<Longrightarrow> utf8_read h i q = of_nat e # utf8_read h (i + 1) q"
    and "192 \<le> e \<Longrightarrow> e < 224 \<Longrightarrow> utf8_read h i q =
      of_nat (or (push_bit 6 (and 31 e)) (and 63 (byte_at h (i + 1)))) # utf8_read h (i + 2) q"
    and "224 \<le> e \<Longrightarrow> e < 240 \<Longrightarrow> utf8_read h i q =
      of_nat (or (or (push_bit 12 (and 15 e)) (push_bit 6 (and 63 (byte_at h (i + 1))))) (and 63 (byte_at h (i + 2))))
        # utf8_read h (i + 3) q"
    and "240 \<le> e \<Longrightarrow>
      p = or (or (or (push_bit 18 (and 7 e)) (push_bit 12 (and 63 (byte_at h (i + 1)))))
            (push_bit 6 (and 63 (byte_at h (i + 2))))) (and 63 (byte_at h (i + 3))) \<Longrightarrow> 65536 \<le> p \<Longrightarrow>
      utf8_read h i q = of_nat (or 55296 (drop_bit 10 (p - 65536))) #
        of_nat (or 56320 (and 1023 (p - 65536))) # utf8_read h (i + 4) q"
proof -
  note l = lead_byte [OF assms(3)]
  have iq: "\<not> q \<le> i" using assms(1) by simp
  have three: "or (or (push_bit 12 (and 15 e)) (push_bit 6 (and 63 b))) (and 63 c) < 65536" if "224 \<le> e" for b c
  proof -
    have "or (or ((e mod 16) * 2 ^ 12) ((b mod 64) * 2 ^ 6)) (c mod 64) < 65536"
    proof -
      have "or ((e mod 16) * 2 ^ 12) ((b mod 64) * 2 ^ 6) = ((e mod 16) * 64 + b mod 64) * 2 ^ 6"
        by (subst or_high) simp_all
      then have "or (or ((e mod 16) * 2 ^ 12) ((b mod 64) * 2 ^ 6)) (c mod 64)
          = ((e mod 16) * 64 + b mod 64) * 64 + c mod 64"
        using or_high [of "c mod 64" 6 "(e mod 16) * 64 + b mod 64"] by simp
      moreover have "(x * 64 + y) * 64 + z < 65536" if "x < 16" "y < 64" "z < 64" for x y z :: nat
        using that by simp
      ultimately show ?thesis by simp
    qed
    then show ?thesis by (simp add: and_mask_nat push_bit_eq_mult)
  qed
  show "e < 128 \<Longrightarrow> utf8_read h i q = of_nat e # utf8_read h (i + 1) q"
    using l(1) by (subst utf8_read.simps) (simp only: assms(2) iq Let_def if_False not_le, simp)
  show "192 \<le> e \<Longrightarrow> e < 224 \<Longrightarrow> utf8_read h i q =
      of_nat (or (push_bit 6 (and 31 e)) (and 63 (byte_at h (i + 1)))) # utf8_read h (i + 2) q"
    using l(1,2) by (subst utf8_read.simps) (simp only: assms(2) iq Let_def if_False, simp)
  show "224 \<le> e \<Longrightarrow> e < 240 \<Longrightarrow> utf8_read h i q =
      of_nat (or (or (push_bit 12 (and 15 e)) (push_bit 6 (and 63 (byte_at h (i + 1))))) (and 63 (byte_at h (i + 2))))
        # utf8_read h (i + 3) q"
    using l three by (subst utf8_read.simps) (simp only: assms(2) iq Let_def if_False, simp)
  show "240 \<le> e \<Longrightarrow>
      p = or (or (or (push_bit 18 (and 7 e)) (push_bit 12 (and 63 (byte_at h (i + 1)))))
            (push_bit 6 (and 63 (byte_at h (i + 2))))) (and 63 (byte_at h (i + 3))) \<Longrightarrow> 65536 \<le> p \<Longrightarrow>
      utf8_read h i q = of_nat (or 55296 (drop_bit 10 (p - 65536))) #
        of_nat (or 56320 (and 1023 (p - 65536))) # utf8_read h (i + 4) q"
    using l by (subst utf8_read.simps) (simp only: assms(2) iq Let_def if_False, simp)
qed

lemma utf8_read_point:
  assumes p: "0 < p" "p < 0x110000" and h: "drop i h = utf8_of p @ rest" and q: "i + length (utf8_of p) \<le> q"
  shows "utf8_read h i q = utf16_of p @ utf8_read h (i + length (utf8_of p)) q"
proof -
  note at = byte_at_drop [OF h]
  have iq: "\<not> q \<le> i" using q by (simp add: length_utf8_of split: if_splits)
  note d = base64_digits [of p]
  consider "p \<le> 127" | "\<not> p \<le> 127" "p \<le> 2047" | "\<not> p \<le> 2047" "p \<le> 65535" | "\<not> p \<le> 65535" by linarith
  then show ?thesis
  proof cases
    case 1
    then have b: "utf8_of p = [byte p]" "unat (byte p) = p" by (simp_all add: utf8_of_def unat_byte)
    have e: "byte_at h i = p" using at [of 0] b by simp
    with 1 b utf8_read_step(1) [OF _ e] iq show ?thesis by (simp add: utf16_of_def)
  next
    case 2
    have x: "p div 64 < 32" using 2 less_mult_imp_div_less [of p 32 64] by simp
    have b: "utf8_of p = [byte (192 + p div 64), byte (128 + p mod 64)]" using 2 by (simp add: utf8_of_def)
    have e: "byte_at h i = 192 + p div 64" "byte_at h (i + 1) = 128 + p mod 64"
      using at [of 0] at [of 1] x by (simp_all add: b unat_byte)
    have m: "(192 + p div 64) mod 32 = p div 64" "(128 + p mod 64) mod 64 = p mod 64"
      using x mod_mult_self3 [of 6 32 "p div 64"] mod_mult_self3 [of 2 64 "p mod 64"] by simp_all
    have "or (p div 64 * 2 ^ 6) (p mod 64) = p" using or_high [of "p mod 64" 6 "p div 64"] d by simp
    then show ?thesis using 2 x iq e m utf8_read_step(2) [OF _ e(1)]
      by (simp add: b and_mask_nat push_bit_eq_mult utf16_of_def)
  next
    case 3
    have x: "p div 4096 < 16" using 3 less_mult_imp_div_less [of p 16 4096] by simp
    have b: "utf8_of p = [byte (224 + p div 4096), byte (128 + p div 64 mod 64), byte (128 + p mod 64)]"
      using 3 by (simp add: utf8_of_def)
    have e: "byte_at h i = 224 + p div 4096" "byte_at h (i + 1) = 128 + p div 64 mod 64" "byte_at h (i + 2) = 128 + p mod 64"
      using at [of 0] at [of 1] at [of 2] x by (simp_all add: b unat_byte)
    have m: "(224 + p div 4096) mod 16 = p div 4096" "(128 + y mod 64) mod 64 = y mod 64" for y :: nat
      using x mod_mult_self3 [of 14 16 "p div 4096"] mod_mult_self3 [of 2 64 "y mod 64"] by simp_all
    have "or (or (p div 4096 * 4096) (p div 64 mod 64 * 64)) (p mod 64) = p"
    proof -
      have "or (p div 4096 * 2 ^ 12) (p div 64 mod 64 * 2 ^ 6) = p div 4096 * 4096 + p div 64 mod 64 * 64"
        by (subst or_high) simp_all
      also have "\<dots> = p div 64 * 2 ^ 6" using d(2) by simp
      finally show ?thesis using or_high [of "p mod 64" 6 "p div 64"] d(1) by simp
    qed
    then show ?thesis using 3 x iq e m utf8_read_step(3) [OF _ e(1)]
      by (simp add: b and_mask_nat push_bit_eq_mult utf16_of_def flip: numeral_3_eq_3)
  next
    case 4
    let ?q = "p - 65536"
    have x: "p div 262144 < 8" using p less_mult_imp_div_less [of p 8 262144] by simp
    have b: "utf8_of p = [byte (240 + p div 262144), byte (128 + p div 4096 mod 64), byte (128 + p div 64 mod 64),
        byte (128 + p mod 64)]"
      using 4 by (simp add: utf8_of_def)
    have e: "byte_at h i = 240 + p div 262144" "byte_at h (i + 1) = 128 + p div 4096 mod 64"
      "byte_at h (i + 2) = 128 + p div 64 mod 64" "byte_at h (i + 3) = 128 + p mod 64"
      using at [of 0] at [of 1] at [of 2] at [of 3] x by (simp_all add: b unat_byte)
    have m: "(240 + p div 262144) mod 8 = p div 262144" "(128 + y mod 64) mod 64 = y mod 64" for y :: nat
      using x mod_mult_self3 [of 30 8 "p div 262144"] mod_mult_self3 [of 2 64 "y mod 64"] by simp_all
    have v: "or (or (or (p div 262144 * 262144) (p div 4096 mod 64 * 4096)) (p div 64 mod 64 * 64)) (p mod 64) = p"
    proof -
      have "or (p div 262144 * 2 ^ 18) (p div 4096 mod 64 * 2 ^ 12) = p div 262144 * 262144 + p div 4096 mod 64 * 4096"
        by (subst or_high) simp_all
      also have "\<dots> = p div 4096 * 2 ^ 12" using d(3) by simp
      finally have 1: "or (p div 262144 * 262144) (p div 4096 mod 64 * 4096) = p div 4096 * 2 ^ 12" by simp
      have "or (p div 4096 * 2 ^ 12) (p div 64 mod 64 * 2 ^ 6) = p div 4096 * 4096 + p div 64 mod 64 * 64"
        by (subst or_high) simp_all
      also have "\<dots> = p div 64 * 2 ^ 6" using d(2) by simp
      finally show ?thesis unfolding 1 using or_high [of "p mod 64" 6 "p div 64"] d(1) by simp
    qed
    have q: "?q div 1024 < 1024" using p less_mult_imp_div_less [of ?q 1024 1024] by simp
    then have u: "or 55296 (?q div 1024) = 55296 + ?q div 1024" "or 56320 (?q mod 1024) = 56320 + ?q mod 1024"
      by (simp_all add: or_lit)
    have ln: "length (utf8_of p) = 4" using 4 by (simp add: length_utf8_of)
    have "utf8_read h i q = of_nat (or 55296 (drop_bit 10 ?q)) # of_nat (or 56320 (and 1023 ?q)) # utf8_read h (i + 4) q"
    proof (rule utf8_read_step(4) [OF _ e(1)])
      show "i < q" using iq by simp
      show "240 + p div 262144 < 256" using x by simp
      show "240 \<le> 240 + p div 262144" by simp
      show "p = or (or (or (push_bit 18 (and 7 (240 + p div 262144))) (push_bit 12 (and 63 (byte_at h (i + 1)))))
          (push_bit 6 (and 63 (byte_at h (i + 2))))) (and 63 (byte_at h (i + 3)))"
        unfolding e using m v by (simp add: and_mask_nat push_bit_eq_mult)
      show "65536 \<le> p" using 4 by simp
    qed
    moreover have "utf16_of p = [of_nat (or 55296 (drop_bit 10 ?q)), of_nat (or 56320 (and 1023 ?q))]"
      using 4 u by (simp add: utf16_of_def drop_bit_eq_div and_mask_nat)
    ultimately show ?thesis by (simp only: ln append_Cons append_Nil)
  qed
qed

lemma utf8_read_text:
  assumes "list_all (\<lambda>p. 0 < p \<and> p < 0x110000) ps" "drop i h = utf8 ps @ rest"
  shows "utf8_read h i (i + length (utf8 ps)) = utf16 ps"
  using assms
proof (induction ps arbitrary: i)
  case Nil
  then show ?case by (simp add: utf8_read.simps)
next
  case (Cons p ps)
  have "drop (i + length (utf8_of p)) h = utf8 ps @ rest"
  proof -
    have "drop (i + length (utf8_of p)) h = drop (length (utf8_of p)) (drop i h)" by (simp add: add.commute)
    then show ?thesis using Cons.prems(2) by simp
  qed
  moreover have "utf8_read h i (i + length (utf8 (p # ps))) =
      utf16_of p @ utf8_read h (i + length (utf8_of p)) (i + length (utf8 (p # ps)))"
    using Cons.prems by (intro utf8_read_point [where rest = "utf8 ps @ rest"]) simp_all
  ultimately show ?case using Cons.IH [of "i + length (utf8_of p)"] Cons.prems(1) by (simp add: add.assoc)
qed

lemma utf8_of_nonzero: "0 < p \<Longrightarrow> p < 0x110000 \<Longrightarrow> b \<in> set (utf8_of p) \<Longrightarrow> b \<noteq> 0"
proof -
  assume p: "0 < p" "p < 0x110000" and b: "b \<in> set (utf8_of p)"
  have nz: "byte n = 0 \<longleftrightarrow> n = 0" if "n < 256" for n
    using unat_byte [OF that] unat_eq_zero [of "byte n"] by simp
  show "b \<noteq> 0"
    using b p less_mult_imp_div_less [of p 64 64] less_mult_imp_div_less [of p 16 4096] less_mult_imp_div_less [of p 8 262144]
    by (auto simp: utf8_of_def nz split: if_splits)
qed

lemma put_bytes_drop:
  assumes "g + length bs \<le> length h"
  shows "drop g (put_bytes h g bs) = bs @ drop (g + length bs) h"
  by (rule nth_equalityI) (use assms in \<open>auto simp: put_bytes_nth nth_append add.commute\<close>)

lemma stringToUTF8_fits:
  assumes "lengthBytesUTF8 s < n"
  shows "stringToUTF8Array s h g (int n) =
    (lengthBytesUTF8 s, (put_bytes h g (utf8 (points s)))[g + lengthBytesUTF8 s := 0])"
proof -
  have e: "nat (int g + int n - 1) = g + (n - 1)" using assms by linarith
  have f: "fitting (n - Suc 0) (points s) = points s"
    using assms by (intro fitting_all) (simp add: lengthBytes_points)
  show ?thesis
    using assms by (simp add: stringToUTF8Array_def e utf8_write_fitting f lengthBytes_points Let_def)
qed

section \<open>Properties\<close>


text \<open>
  C39: whatever the string, lone surrogates included, the writer stays in the room it was given: at
  most \<open>maxBytes - 1\<close> bytes, those of a prefix of the code points, then a zero byte, and nothing
  else of the heap changes; the count it returns is the number of bytes before the zero.
\<close>

theorem utf8_write_bounded:
  assumes "0 < maxBytes" "g + maxBytes \<le> length h"
  shows "\<exists>k n h'. stringToUTF8Array s h g (int maxBytes) = (n, h') \<and> n < maxBytes \<and>
    n = length (utf8 (take k (points s))) \<and> n \<le> lengthBytesUTF8 s \<and>
    h' = take g h @ utf8 (take k (points s)) @ 0 # drop (g + n + 1) h"
proof -
  let ?ps = "fitting (maxBytes - 1) (points s)"
  let ?n = "length (utf8 ?ps)"
  obtain k where k: "?ps = take k (points s)" using fitting_prefix by blast
  have room: "?n \<le> maxBytes - 1" by (rule fitting_length)
  have e: "nat (int g + int maxBytes - 1) = g + (maxBytes - 1)" using assms(1) by linarith
  have w: "stringToUTF8Array s h g (int maxBytes) = (?n, (put_bytes h g (utf8 ?ps))[g + ?n := 0])"
    using assms(1) by (simp add: stringToUTF8Array_def e utf8_write_fitting Let_def)
  have le: "g + ?n < length h" using room assms by linarith
  have "(put_bytes h g (utf8 ?ps))[g + ?n := 0] = take g h @ utf8 ?ps @ 0 # drop (g + ?n + 1) h"
    by (rule nth_equalityI)
      (use le in \<open>auto simp: put_bytes_nth nth_append nth_list_update nth_Cons' min_def\<close>)
  moreover have "?n \<le> lengthBytesUTF8 s"
    unfolding k lengthBytes_points by (metis append_take_drop_id concat_append length_append le_add1 map_append)
  ultimately show ?thesis using w room assms(1) k by (intro exI [of _ k] exI [of _ ?n]) auto
qed


theorem utf8_write_bounded_witness:
  "\<exists>k n h'. stringToUTF8Array [0xE9, 0xD800, 0x41] (replicate 8 7) 1 (int 4) = (n, h') \<and> n < 4 \<and>
     n = length (utf8 (take k (points [0xE9, 0xD800, 0x41])))"
  using utf8_write_bounded [of 4 1 "replicate 8 7" "[0xE9, 0xD800, 0x41]"] by fastforce

end
