(* ===== verification/Viz_Path.thy ===== *)
theory Viz_Path
  imports Viz_Utf8
begin

text \<open>
  The path functions of \<open>src/src/viz.js\<close> (exported as \<open>PATH\<close>, minified \<open>e\<close>, and \<open>PATH_FS\<close>, minified
  \<open>P\<close>) with which the renderer names its image files. A path is a JavaScript string; \<open>split\<close>, \<open>join\<close>
  and \<open>lastIndexOf\<close> are those of the language. The specification walks the components from the
  left with a stack, the code goes from the right with a counter of pending parent references.
\<close>

definition slash :: u16 where "slash = 47"

definition dot :: js_string where "dot = [46]"

definition dotdots :: js_string where "dotdots = [46, 46]"

section \<open>Strings\<close>

fun js_split :: "'a \<Rightarrow> 'a list \<Rightarrow> 'a list list" where
  "js_split c [] = [[]]"
| "js_split c (x # s) =
     (if x = c then [] # js_split c s
      else (case js_split c s of [] \<Rightarrow> [[x]] | w # ws \<Rightarrow> (x # w) # ws))"

fun js_join :: "'a \<Rightarrow> 'a list list \<Rightarrow> 'a list" where
  "js_join c [] = []"
| "js_join c [w] = w"
| "js_join c (w # v # ws) = w @ c # js_join c (v # ws)"

lemma js_join_Cons: "ws \<noteq> [] \<Longrightarrow> js_join c (w # ws) = w @ c # js_join c ws"
  by (cases ws) simp_all

lemma js_split_not_Nil [simp]: "js_split c s \<noteq> []"
  by (induction s) (auto split: list.split)

lemma js_split_free: "w \<in> set (js_split c s) \<Longrightarrow> c \<notin> set w"
  by (induction s arbitrary: w) (auto split: if_splits list.splits)

lemma js_split_word [simp]: "c \<notin> set w \<Longrightarrow> js_split c w = [w]"
  by (induction w) auto

lemma js_split_append [simp]: "js_split c (a @ c # b) = js_split c a @ js_split c b"
  by (induction a) (auto split: list.split)

lemma js_split_join: "ws \<noteq> [] \<Longrightarrow> \<forall>w \<in> set ws. c \<notin> set w \<Longrightarrow> js_split c (js_join c ws) = ws"
proof (induction ws)
  case (Cons w ws)
  then show ?case by (cases "ws = []") (auto simp: js_join_Cons)
qed simp

lemma js_join_append: "a \<noteq> [] \<Longrightarrow> b \<noteq> [] \<Longrightarrow> js_join c (a @ b) = js_join c a @ c # js_join c b"
proof (induction a)
  case (Cons w a)
  then show ?case by (cases "a = []") (auto simp: js_join_Cons)
qed simp

section \<open>PATH\<close>

definition isAbs :: "js_string \<Rightarrow> bool" where
  "isAbs p \<longleftrightarrow> p \<noteq> [] \<and> hd p = slash"

text \<open>The components of a path: \<open>p.split("/").filter(p => !!p)\<close>.\<close>

definition parts :: "js_string \<Rightarrow> js_string list" where
  "parts p = filter (\<lambda>w. w \<noteq> []) (js_split slash p)"

text \<open>One turn of the loop of \<open>normalizeArray\<close>, which goes from the last component to the first:
  the number of parent references not yet used up, and the components kept behind.\<close>

definition norm_step :: "js_string \<Rightarrow> nat \<times> js_string list \<Rightarrow> nat \<times> js_string list" where
  "norm_step part s =
     (let (up, kept) = s in
      if part = dot then (up, kept)
      else if part = dotdots then (up + 1, kept)
      else if 0 < up then (up - 1, kept)
      else (up, part # kept))"

definition normalizeArray :: "js_string list \<Rightarrow> bool \<Rightarrow> js_string list" where
  "normalizeArray ps allowAboveRoot =
     (let (up, kept) = foldr norm_step ps (0, [])
      in if allowAboveRoot then replicate up dotdots @ kept else kept)"

definition normalize :: "js_string \<Rightarrow> js_string" where
  "normalize path =
     (let isAbsolute = isAbs path;
          trailingSlash = (path \<noteq> [] \<and> last path = slash);
          p = js_join slash (normalizeArray (parts path) (\<not> isAbsolute));
          p = (if p = [] \<and> \<not> isAbsolute then dot else p);
          p = (if p \<noteq> [] \<and> trailingSlash then p @ [slash] else p)
      in (if isAbsolute then [slash] else []) @ p)"

text \<open>The first two groups of the expression of \<open>splitPath\<close>: the root slash, if there is one, and the
  shortest text after which only a name without slashes and a run of slashes are left.\<close>

definition name_and_slashes :: "js_string \<Rightarrow> bool" where
  "name_and_slashes r \<longleftrightarrow> list_all (\<lambda>c. c = slash) (dropWhile (\<lambda>c. c \<noteq> slash) r)"

fun lazy_dir :: "js_string \<Rightarrow> js_string" where
  "lazy_dir [] = []"
| "lazy_dir (c # r) = (if name_and_slashes (c # r) then [] else c # lazy_dir r)"

definition split_root_dir :: "js_string \<Rightarrow> js_string \<times> js_string" where
  "split_root_dir p = (if isAbs p then ([slash], lazy_dir (tl p)) else ([], lazy_dir p))"

definition dirname :: "js_string \<Rightarrow> js_string" where
  "dirname path =
     (let (root, dir) = split_root_dir path in
      if root = [] \<and> dir = [] then dot
      else root @ (if dir \<noteq> [] then butlast dir else dir))"

text \<open>\<open>lastIndexOf("/")\<close> and the rest of the string behind it.\<close>

definition after_last_slash :: "js_string \<Rightarrow> js_string" where
  "after_last_slash p = rev (takeWhile (\<lambda>c. c \<noteq> slash) (rev p))"

definition basename :: "js_string \<Rightarrow> js_string" where
  "basename path =
     (if path = [slash] then [slash]
      else (let p = normalize path;
                p = (if p \<noteq> [] \<and> last p = slash then butlast p else p)
            in after_last_slash p))"

definition join_paths :: "js_string list \<Rightarrow> js_string" where
  "join_paths paths = normalize (js_join slash paths)"

definition join2 :: "js_string \<Rightarrow> js_string \<Rightarrow> js_string" where
  "join2 l r = normalize (l @ slash # r)"

section \<open>PATH_FS\<close>

text \<open>The loop of \<open>resolve\<close>, from the last argument to the working directory: None if an argument is
  empty, otherwise the path and whether it is absolute.\<close>

fun resolve_loop :: "js_string list \<Rightarrow> js_string \<Rightarrow> (js_string \<times> bool) option" where
  "resolve_loop [] resolved = Some (resolved, False)"
| "resolve_loop (path # rest) resolved =
     (if path = [] then None
      else if isAbs path then Some (path @ slash # resolved, True)
      else resolve_loop rest (path @ slash # resolved))"

definition resolve_paths :: "js_string \<Rightarrow> js_string list \<Rightarrow> js_string" where
  "resolve_paths cwd args =
     (case resolve_loop (rev args @ [cwd]) [] of
        None \<Rightarrow> []
      | Some (resolvedPath, absolute) \<Rightarrow>
          (let p = js_join slash (normalizeArray (parts resolvedPath) (\<not> absolute));
               r = (if absolute then [slash] else []) @ p
           in if r = [] then dot else r))"

text \<open>The local \<open>trim\<close> of \<open>relative\<close>: the second argument of \<open>slice\<close> is an end index, as the code has
  it.\<close>

definition trim_empty :: "js_string list \<Rightarrow> js_string list" where
  "trim_empty arr =
     (let start = length (takeWhile (\<lambda>w. w = []) arr);
          stop = length (dropWhile (\<lambda>w. w = []) (rev arr))
      in if stop \<le> start then [] else drop start (take (stop - start) arr))"

fun common_length :: "'a list \<Rightarrow> 'a list \<Rightarrow> nat" where
  "common_length (a # as) (b # bs) = (if a = b then 1 + common_length as bs else 0)"
| "common_length _ _ = 0"

definition relative :: "js_string \<Rightarrow> js_string \<Rightarrow> js_string \<Rightarrow> js_string" where
  "relative cwd from to =
     (let fromParts = trim_empty (js_split slash (drop 1 (resolve_paths cwd [from])));
          toParts = trim_empty (js_split slash (drop 1 (resolve_paths cwd [to])));
          n = common_length fromParts toParts
      in js_join slash (replicate (length fromParts - n) dotdots @ drop n toParts))"

section \<open>Walking the components from the left\<close>

text \<open>The specification: a stack of components (the last one on top), from which a parent reference
  takes one, unless there is none to take.\<close>

definition walk :: "bool \<Rightarrow> js_string \<Rightarrow> js_string list \<Rightarrow> js_string list" where
  "walk climb p st =
     (if p = dot then st
      else if p = dotdots
      then (case st of
              [] \<Rightarrow> if climb then [dotdots] else []
            | t # st' \<Rightarrow> if t = dotdots then dotdots # st else st')
      else p # st)"

definition resolved :: "bool \<Rightarrow> js_string list \<Rightarrow> js_string list" where
  "resolved climb ps = rev (fold (walk climb) ps [])"

lemma dot_dotdots [simp]: "dot \<noteq> dotdots" "dotdots \<noteq> dot" "dot \<noteq> []" "dotdots \<noteq> []"
  "[] \<noteq> dot" "[] \<noteq> dotdots"
  by (simp_all add: dot_def dotdots_def)

lemma slash_free [simp]: "slash \<notin> set dot" "slash \<notin> set dotdots"
  by (simp_all add: slash_def dot_def dotdots_def)

definition names :: "js_string list \<Rightarrow> bool" where
  "names ps \<longleftrightarrow> dot \<notin> set ps \<and> dotdots \<notin> set ps"

lemma names_simps [simp]:
  "names []" "names (p # ps) \<longleftrightarrow> p \<noteq> dot \<and> p \<noteq> dotdots \<and> names ps"
  "names (ps @ qs) \<longleftrightarrow> names ps \<and> names qs"
  by (auto simp: names_def)

lemma norm_step_simps [simp]:
  "norm_step dot s = s" "norm_step dotdots (up, kept) = (Suc up, kept)"
  "p \<noteq> dot \<Longrightarrow> p \<noteq> dotdots \<Longrightarrow> norm_step p (0, kept) = (0, p # kept)"
  "p \<noteq> dot \<Longrightarrow> p \<noteq> dotdots \<Longrightarrow> norm_step p (Suc n, kept) = (n, kept)"
  by (simp_all add: norm_step_def split: prod.split)

lemma walk_simps [simp]:
  "walk climb dot st = st" "walk climb dotdots [] = (if climb then [dotdots] else [])"
  "walk climb dotdots (dotdots # st) = dotdots # dotdots # st"
  "t \<noteq> dotdots \<Longrightarrow> walk climb dotdots (t # st) = st"
  "p \<noteq> dot \<Longrightarrow> p \<noteq> dotdots \<Longrightarrow> walk climb p st = p # st"
  by (simp_all add: walk_def)

text \<open>The backward pass over a suffix tells what the forward walk makes of any stack before it.\<close>

lemma backward_forward:
  assumes "names ns"
  shows "case foldr norm_step ps (0, []) of (up, kept) \<Rightarrow>
    fold (walk climb) ps (ns @ replicate k dotdots) =
      rev kept @ (if up \<le> length ns then drop up ns @ replicate k dotdots
        else if climb \<or> 0 < k then replicate (k + (up - length ns)) dotdots else [])"
  using assms
proof (induction ps arbitrary: ns k)
  case (Cons p ps)
  obtain up kept where b: "foldr norm_step ps (0, []) = (up, kept)" by fastforce
  note IH = Cons.IH [unfolded b prod.case]
  consider "p = dot" | "p = dotdots" | "p \<noteq> dot" "p \<noteq> dotdots" by blast
  then show ?case
  proof cases
    case 1
    with IH [OF Cons.prems, of k] b show ?thesis by simp
  next
    case 2
    show ?thesis
    proof (cases ns)
      case Nil
      have w: "walk climb dotdots (replicate k dotdots) = replicate (if climb \<or> 0 < k then Suc k else 0) dotdots"
        by (cases k) auto
      show ?thesis
        using IH [of "[]" "if climb \<or> 0 < k then Suc k else 0"] 2 b Nil
        by (auto simp: w split: if_splits)
    next
      case (Cons n ns')
      with IH [of ns' k] \<open>names ns\<close> 2 b show ?thesis by simp
    qed
  next
    case 3
    with IH [of "p # ns" k] Cons.prems b show ?thesis by (cases up) auto
  qed
qed simp

lemma normalizeArray_walk: "normalizeArray ps climb = resolved climb ps"
proof -
  obtain up kept where b: "foldr norm_step ps (0, []) = (up, kept)" by fastforce
  then have "fold (walk climb) ps [] = rev kept @ replicate (if climb then up else 0) dotdots"
    using backward_forward [where ns = "[]" and k = 0 and ps = ps and climb = climb] by auto
  with b show ?thesis by (simp add: normalizeArray_def resolved_def)
qed

lemma foldr_norm_kept:
  "foldr norm_step ps (0, []) = (up, kept) \<Longrightarrow> names kept \<and> set kept \<subseteq> set ps"
proof (induction ps arbitrary: up kept)
  case (Cons p ps)
  obtain u k where b: "foldr norm_step ps (0, []) = (u, k)" by fastforce
  with Cons.IH have IH: "names k" "set k \<subseteq> set ps" by blast+
  consider "p = dot" | "p = dotdots" | "p \<noteq> dot" "p \<noteq> dotdots" by blast
  then show ?case
    using Cons.prems b IH by cases (cases u; auto)+
qed simp

lemma foldr_norm_names: "names ns \<Longrightarrow> foldr norm_step ns (0, []) = (0, ns)"
  by (induction ns) auto

lemma foldr_norm_dotdots: "foldr norm_step (replicate k dotdots) (up, kept) = (up + k, kept)"
  by (induction k) auto

lemma resolved_shape:
  obtains k ns where "resolved climb ps = replicate k dotdots @ ns" "names ns" "climb \<or> k = 0"
    "set ns \<subseteq> set ps"
proof -
  obtain up kept where b: "foldr norm_step ps (0, []) = (up, kept)" by fastforce
  with foldr_norm_kept show ?thesis
    by (intro that [of "if climb then up else 0" kept])
      (auto simp: normalizeArray_walk [symmetric] normalizeArray_def)
qed

lemma resolved_fixed:
  assumes "names ns" "climb \<or> k = 0"
  shows "resolved climb (replicate k dotdots @ ns) = replicate k dotdots @ ns"
  using assms
  by (auto simp: normalizeArray_walk [symmetric] normalizeArray_def foldr_norm_names foldr_norm_dotdots
      simp del: foldr_replicate)

lemma resolved_idem [simp]: "resolved climb (resolved climb ps) = resolved climb ps"
  by (rule resolved_shape [of climb ps]) (simp add: resolved_fixed)

lemma resolved_set: "p \<in> set (resolved climb ps) \<Longrightarrow> p \<in> set ps \<or> p = dotdots"
  by (rule resolved_shape [of climb ps]) auto

lemma parts_word: "w \<in> set (parts p) \<Longrightarrow> w \<noteq> [] \<and> slash \<notin> set w"
  by (auto simp: parts_def dest: js_split_free)

lemma resolved_word: "w \<in> set (resolved climb (parts p)) \<Longrightarrow> w \<noteq> [] \<and> slash \<notin> set w"
  by (drule resolved_set) (auto dest: parts_word)

section \<open>Normal forms\<close>

text \<open>The text of a resolved path: root, components, trailing slash.\<close>

definition path_text :: "bool \<Rightarrow> js_string list \<Rightarrow> bool \<Rightarrow> js_string" where
  "path_text absolute ps trailing =
     (if absolute then [slash] else []) @
     (if ps = [] then (if absolute then [] else dot) else js_join slash ps) @
     (if trailing \<and> (ps \<noteq> [] \<or> \<not> absolute) then [slash] else [])"

definition ends_in_slash :: "js_string \<Rightarrow> bool" where
  "ends_in_slash p \<longleftrightarrow> p \<noteq> [] \<and> last p = slash"

lemma js_join_Nil: "[] \<notin> set ws \<Longrightarrow> js_join c ws = [] \<longleftrightarrow> ws = []"
proof (cases ws)
  case (Cons w ws')
  then show "[] \<notin> set ws \<Longrightarrow> ?thesis" by (cases ws') auto
qed simp

lemma normalize_text:
  "normalize p = path_text (isAbs p) (resolved (\<not> isAbs p) (parts p)) (ends_in_slash p)"
proof -
  have "[] \<notin> set (resolved (\<not> isAbs p) (parts p))" using resolved_word by blast
  then show ?thesis
    by (auto simp: normalize_def path_text_def ends_in_slash_def normalizeArray_walk Let_def js_join_Nil)
qed

definition words_ok :: "js_string list \<Rightarrow> bool" where
  "words_ok ps \<longleftrightarrow> (\<forall>w \<in> set ps. w \<noteq> [] \<and> slash \<notin> set w)"

lemma words_ok_resolved [simp]: "words_ok (resolved climb (parts p))"
  using resolved_word by (auto simp: words_ok_def)

lemma parts_Nil [simp]: "parts [] = []"
  by (simp add: parts_def)

lemma parts_slash [simp]: "parts (slash # p) = parts p"
  by (simp add: parts_def)

lemma parts_append [simp]: "parts (a @ slash # b) = parts a @ parts b"
  by (simp add: parts_def)

lemma parts_dot [simp]: "parts dot = [dot]"
  by (simp add: parts_def)

lemma parts_join [simp]: "words_ok ps \<Longrightarrow> parts (js_join slash ps) = ps"
  by (cases "ps = []") (auto simp: parts_def js_split_join words_ok_def)

lemma parts_path_text:
  "words_ok ps \<Longrightarrow> parts (path_text absolute ps trailing) = (if ps = [] \<and> \<not> absolute then [dot] else ps)"
  using parts_append [of _ "[]"] by (auto simp: path_text_def)

lemma hd_join: "words_ok ps \<Longrightarrow> ps \<noteq> [] \<Longrightarrow> js_join slash ps \<noteq> [] \<and> hd (js_join slash ps) \<noteq> slash"
  by (cases ps; cases "tl ps = []") (auto simp: words_ok_def js_join_Cons, (metis hd_in_set)+)

lemma last_join: "words_ok ps \<Longrightarrow> ps \<noteq> [] \<Longrightarrow> last (js_join slash ps) \<noteq> slash"
proof (induction ps)
  case (Cons w ps)
  then show ?case
    by (cases "ps = []") (auto simp: words_ok_def js_join_Cons js_join_Nil, metis last_in_set)
qed simp

lemma isAbs_path_text [simp]: "words_ok ps \<Longrightarrow> isAbs (path_text absolute ps trailing) = absolute"
  using hd_join [of ps] by (auto simp: isAbs_def path_text_def slash_def dot_def)

lemma ends_path_text:
  assumes "words_ok ps"
  shows "ends_in_slash (path_text absolute ps trailing) = (trailing \<or> absolute \<and> ps = [])"
  using hd_join [OF assms] last_join [OF assms]
  by (auto simp: ends_in_slash_def path_text_def slash_def dot_def)

text \<open>
  C37: \<open>normalize\<close> computes normal forms: normalising twice changes nothing, and two paths have the same
  normal form exactly if both are absolute or both relative, their components resolve to the same
  ones when walked from the left, and both or none end in a slash (which the root does not show).
\<close>

theorem normalize_canonical:
  "normalize (normalize p) = normalize p \<and>
   (normalize p = normalize q \<longleftrightarrow>
      isAbs p = isAbs q \<and> resolved (\<not> isAbs p) (parts p) = resolved (\<not> isAbs p) (parts q) \<and>
      (ends_in_slash p = ends_in_slash q \<or> isAbs p \<and> resolved False (parts p) = []))"
proof
  let ?r = "\<lambda>p. resolved (\<not> isAbs p) (parts p)"
  have nodot: "dot \<notin> set (?r p)" for p
    by (rule resolved_shape [of "\<not> isAbs p" "parts p"]) (auto simp: names_def)
  have res: "?r (normalize p) = ?r p"
  proof -
    have "resolved True [dot] = []" by (simp add: resolved_def)
    then show ?thesis by (auto simp: normalize_text parts_path_text)
  qed
  have abs: "isAbs (normalize p) = isAbs p" for p by (simp add: normalize_text)
  have ends: "ends_in_slash (normalize p) \<longleftrightarrow> ends_in_slash p \<or> isAbs p \<and> ?r p = []" for p
    by (simp add: normalize_text ends_path_text)
  show "normalize (normalize p) = normalize p"
    unfolding normalize_text [of "normalize p"] abs ends
    using res by (simp only: abs) (auto simp: normalize_text path_text_def)
  have pts: "parts (normalize p) = (if ?r p = [] \<and> \<not> isAbs p then [dot] else ?r p)" for p
    by (simp add: normalize_text parts_path_text)
  have nd: "?r p \<noteq> [dot]" "[dot] \<noteq> ?r p" for p using nodot [of p] by (auto dest: sym)
  show "normalize p = normalize q \<longleftrightarrow>
      isAbs p = isAbs q \<and> ?r p = resolved (\<not> isAbs p) (parts q) \<and>
      (ends_in_slash p = ends_in_slash q \<or> isAbs p \<and> resolved False (parts p) = [])"
  proof
    assume eq: "normalize p = normalize q"
    have a: "isAbs p = isAbs q" using abs [of p] abs [of q] eq by simp
    have r: "?r p = ?r q" using pts [of p] pts [of q] nd [of p] nd [of q] a eq by (auto split: if_splits)
    have "ends_in_slash p = ends_in_slash q \<or> isAbs p \<and> ?r p = []"
      using ends [of p] ends [of q] a r eq by auto
    with a r show "isAbs p = isAbs q \<and> ?r p = resolved (\<not> isAbs p) (parts q) \<and>
        (ends_in_slash p = ends_in_slash q \<or> isAbs p \<and> resolved False (parts p) = [])"
      by auto
  next
    assume "isAbs p = isAbs q \<and> ?r p = resolved (\<not> isAbs p) (parts q) \<and>
        (ends_in_slash p = ends_in_slash q \<or> isAbs p \<and> resolved False (parts p) = [])"
    then show "normalize p = normalize q" by (auto simp: normalize_text path_text_def)
  qed
qed

section \<open>Resolving and relative paths\<close>

text \<open>The components a path stands for, seen from a working directory.\<close>

definition components :: "js_string \<Rightarrow> js_string \<Rightarrow> js_string list" where
  "components cwd p = (if isAbs p then parts p else parts cwd @ parts p)"

lemma resolve_paths_one:
  assumes "isAbs cwd" "p \<noteq> []"
  shows "resolve_paths cwd [p] = slash # js_join slash (resolved False (components cwd p))"
  using assms parts_append [of _ "[]"] parts_append [of cwd "p @ [slash]"]
  by (auto simp: resolve_paths_def components_def normalizeArray_walk isAbs_def Let_def)

lemma resolve_paths_two:
  assumes "isAbs cwd" "p \<noteq> []" "q \<noteq> []" "\<not> isAbs q"
  shows "resolve_paths cwd [p, q] = slash # js_join slash (resolved False (components cwd p @ parts q))"
  using assms parts_append [of _ "[]"] parts_append [of p "q @ [slash]"] parts_append [of cwd "p @ slash # q @ [slash]"]
  by (auto simp: resolve_paths_def components_def normalizeArray_walk isAbs_def Let_def)

lemma resolved_append: "resolved climb (ps @ qs) = rev (fold (walk climb) qs (rev (resolved climb ps)))"
  by (simp add: resolved_def)

lemma walk_names: "names ns \<Longrightarrow> fold (walk climb) ns st = rev ns @ st"
  by (induction ns arbitrary: st) auto

lemma walk_pop: "names ns \<Longrightarrow> k \<le> length ns \<Longrightarrow> fold (walk climb) (replicate k dotdots) ns = drop k ns"
proof (induction k arbitrary: ns)
  case (Suc k)
  then show ?case by (cases ns) auto
qed simp

lemma resolved_names: "names (resolved False ps)"
  by (rule resolved_shape [of False ps]) auto

lemma names_rev [simp]: "names (rev ns) = names ns"
  by (simp add: names_def)

lemma names_drop: "names ns \<Longrightarrow> names (drop n ns)"
  by (auto simp: names_def dest: in_set_dropD)

lemma trim_words: "words_ok ps \<Longrightarrow> trim_empty (if ps = [] then [[]] else ps) = ps"
proof -
  assume w: "words_ok ps"
  show ?thesis
  proof (cases "ps = []")
    case False
    with w have "takeWhile (\<lambda>w. w = []) ps = []" by (cases ps) (auto simp: words_ok_def)
    moreover from w False have "last ps \<noteq> []" by (auto simp: words_ok_def)
    then have "dropWhile (\<lambda>w. w = []) (rev ps) = rev ps" by (simp add: dropWhile_eq_self_iff hd_rev)
    ultimately show ?thesis using False by (simp add: trim_empty_def)
  qed (simp add: trim_empty_def)
qed

lemma split_join_words: "words_ok ps \<Longrightarrow> js_split slash (js_join slash ps) = (if ps = [] then [[]] else ps)"
  by (auto simp: js_split_join words_ok_def)

lemma common_length_take: "take (common_length xs ys) xs = take (common_length xs ys) ys"
  by (induction xs ys rule: common_length.induct) auto

lemma common_length_le: "common_length xs ys \<le> length xs \<and> common_length xs ys \<le> length ys"
  by (induction xs ys rule: common_length.induct) auto

lemma words_ok_components [simp]: "words_ok (resolved climb (components cwd p))"
proof -
  have "w \<noteq> [] \<and> slash \<notin> set w" if "w \<in> set (components cwd p) \<or> w = dotdots" for w
    using that parts_word by (auto simp: components_def split: if_splits)
  then show ?thesis by (auto simp: words_ok_def dest!: resolved_set)
qed

lemma relative_steps:
  assumes "isAbs cwd" "from \<noteq> []" "to \<noteq> []"
  defines "f \<equiv> resolved False (components cwd from)" and "t \<equiv> resolved False (components cwd to)"
  shows "relative cwd from to =
    js_join slash (replicate (length f - common_length f t) dotdots @ drop (common_length f t) t)"
proof -
  have "trim_empty (js_split slash (drop 1 (resolve_paths cwd [p]))) = resolved False (components cwd p)"
    if "p \<noteq> []" for p
    using assms(1) that by (simp add: resolve_paths_one split_join_words trim_words)
  then show ?thesis using assms(2,3) by (simp add: relative_def f_def t_def Let_def)
qed

text \<open>
  Going from one path along the relative path to another arrives there: resolving \<open>from\<close> and then
  \<open>relative from to\<close> gives what resolving \<open>to\<close> gives. The relative path is empty exactly if both
  resolve to the same path.
\<close>

theorem relative_resolves:
  assumes "isAbs cwd" "from \<noteq> []" "to \<noteq> []"
  shows "(relative cwd from to = [] \<longleftrightarrow> resolve_paths cwd [from] = resolve_paths cwd [to]) \<and>
    (relative cwd from to \<noteq> [] \<longrightarrow>
       resolve_paths cwd [from, relative cwd from to] = resolve_paths cwd [to])"
proof
  let ?f = "resolved False (components cwd from)" and ?t = "resolved False (components cwd to)"
  let ?n = "common_length ?f ?t"
  let ?r = "replicate (length ?f - ?n) dotdots @ drop ?n ?t"
  note rel = relative_steps [OF assms]
  have w: "words_ok ?r"
    using words_ok_components [of False cwd to] by (auto simp: words_ok_def dest: in_set_dropD)
  have n: "?n \<le> length ?f" "?n \<le> length ?t" using common_length_le [of ?f ?t] by auto
  have ret: "resolved False (components cwd from @ ?r) = ?t"
  proof -
    have "fold (walk False) (replicate (length ?f - ?n) dotdots) (rev ?f) = rev (take ?n ?f)"
      using n by (subst walk_pop) (simp_all add: resolved_names rev_take)
    then have "resolved False (components cwd from @ ?r) = take ?n ?f @ drop ?n ?t"
      by (simp add: resolved_append walk_names names_drop resolved_names)
    then show ?thesis using common_length_take [of ?f ?t] by simp
  qed
  have "relative cwd from to = [] \<longleftrightarrow> ?r = []"
    unfolding rel using w by (intro js_join_Nil) (auto simp: words_ok_def)
  also have "\<dots> \<longleftrightarrow> ?f = ?t"
  proof
    assume "?r = []"
    then show "?f = ?t" using ret by simp
  next
    have "common_length xs xs = length xs" for xs :: "js_string list" by (induction xs) auto
    then show "?f = ?t \<Longrightarrow> ?r = []" by simp
  qed
  also have "\<dots> \<longleftrightarrow> resolve_paths cwd [from] = resolve_paths cwd [to]"
    using assms by (simp add: resolve_paths_one) (metis parts_join words_ok_components)
  finally show "relative cwd from to = [] \<longleftrightarrow> resolve_paths cwd [from] = resolve_paths cwd [to]" .
  show "relative cwd from to \<noteq> [] \<longrightarrow>
      resolve_paths cwd [from, relative cwd from to] = resolve_paths cwd [to]"
  proof
    assume ne: "relative cwd from to \<noteq> []"
    then have "?r \<noteq> []" by (auto simp: rel)
    then have "\<not> isAbs (relative cwd from to)" using hd_join [OF w] by (simp add: rel isAbs_def)
    with ne ret assms w show "resolve_paths cwd [from, relative cwd from to] = resolve_paths cwd [to]"
      by (simp add: resolve_paths_one resolve_paths_two) (simp add: rel)
  qed
qed

theorem relative_resolves_witness:
  "resolve_paths (js ''/home'') [js ''/a/b/../c'', relative (js ''/home'') (js ''/a/b/../c'') (js ''x/./y'')] =
     resolve_paths (js ''/home'') [js ''x/./y''] \<and>
   relative (js ''/home'') (js ''/a/b/../c'') (js ''x/./y'') = js ''../../home/x/y''"
proof
  show r: "relative (js ''/home'') (js ''/a/b/../c'') (js ''x/./y'') = js ''../../home/x/y''" by code_simp
  have "isAbs (js ''/home'')" "js ''/a/b/../c'' \<noteq> []" "js ''x/./y'' \<noteq> []" "js ''../../home/x/y'' \<noteq> []"
    by code_simp+
  then show "resolve_paths (js ''/home'') [js ''/a/b/../c'', relative (js ''/home'') (js ''/a/b/../c'') (js ''x/./y'')] =
      resolve_paths (js ''/home'') [js ''x/./y'']"
    using relative_resolves [of "js ''/home''" "js ''/a/b/../c''" "js ''x/./y''"] r by simp
qed

end
