(* ===== verification/Viz_Render.thy ===== *)
theory Viz_Render
  imports Viz_Path "HOL-Library.Multiset"
begin

declare map_of_eq_Some_iff [simp del]

text \<open>
  The rendering interface of \<open>src/src/viz.js\<close>: the class behind \<open>Viz.instance()\<close> and the functions it
  calls. The compiled Graphviz is not readable code: it is a parameter, a function from the calls
  made so far and the next call to the reply, which may be an exception. The script's own effects
  are explicit: the log of the calls with their results, the two lists of messages and the local
  variables that the clean-up of \<open>render\<close> looks at. An operation returns a value or throws. A \<open>falsy\<close>
  handle is 0, an absent property None. The stack space in which \<open>ccall\<close> passes strings and the
  contents of the file system are not part of this state.
\<close>

section \<open>Calls and effects\<close>

datatype call =
    Malloc nat | WriteString js_string nat nat | Free nat | ReadOneGraph nat
  | CreateGraph "js_string option" bool bool | FreeGraph nat
  | AddNode nat js_string | AddEdge nat js_string js_string | AddSubgraph nat "js_string option"
  | StringDup bool nat js_string | StringFree bool nat nat
  | SetDefaultGraph nat js_string nat | SetDefaultNode nat js_string nat | SetDefaultEdge nat js_string nat
  | SetAttribute nat js_string nat | SetYInvert bool | SetReduce bool
  | CreateContext | FreeContext nat | ResetErrors | LayoutGraph nat nat "js_string option"
  | FreeLayout nat nat | RenderTo nat nat js_string
  | GetPluginList js_string | GetPointer nat | ReadText nat
  | CreatePath js_string | WriteFile js_string js_string | AnalyzePath js_string | Unlink js_string

text \<open>Thrown values, and their texts as \<open>String(error)\<close> gives them; an \<open>ExitStatus\<close> is an object without
  a text of its own, and the message of a \<open>TypeError\<close> is up to the engine.\<close>

datatype exn = ErrorExn js_string | TypeErrorExn js_string | ExitStatus nat | ThrownString js_string | ThrownNumber nat

fun js_dec :: "nat \<Rightarrow> js_string" where
  "js_dec n = (if n < 10 then [of_nat (48 + n)] else js_dec (n div 10) @ [of_nat (48 + n mod 10)])"

declare js_dec.simps [simp del]

definition exn_text :: "exn \<Rightarrow> js_string" where
  "exn_text e =
     (case e of
        ErrorExn m \<Rightarrow> js ''Error'' @ (if m = [] then [] else js '': '' @ m)
      | TypeErrorExn m \<Rightarrow> js ''TypeError'' @ (if m = [] then [] else js '': '' @ m)
      | ExitStatus n \<Rightarrow> js ''[object Object]''
      | ThrownString s \<Rightarrow> s
      | ThrownNumber n \<Rightarrow> js_dec n)"

text \<open>A reply: result, text (where a string is read), the messages it adds to \<open>agerrMessages\<close> and
  \<open>stderrMessages\<close>; or an exception.\<close>

datatype reply = Reply nat js_string "js_string list" "js_string list" | Trap exn

type_synonym wasm = "(call \<times> nat) list \<Rightarrow> call \<Rightarrow> reply"

record vm =
  log :: "(call \<times> nat) list"
  agerrMessages :: "js_string list"
  stderrMessages :: "js_string list"
  v_graph :: nat
  v_context :: nat
  v_output :: nat
  v_images :: "js_string list"

type_synonym 'a op = "vm \<Rightarrow> (exn + 'a) \<times> vm"

definition ret :: "'a \<Rightarrow> 'a op" where
  "ret x = (\<lambda>st. (Inr x, st))"

definition throw :: "exn \<Rightarrow> 'a op" where
  "throw e = (\<lambda>st. (Inl e, st))"

definition bind_op :: "'a op \<Rightarrow> ('a \<Rightarrow> 'b op) \<Rightarrow> 'b op" where
  "bind_op m f = (\<lambda>st. case m st of (Inl e, st') \<Rightarrow> (Inl e, st') | (Inr x, st') \<Rightarrow> f x st')"


definition then_op :: "unit op \<Rightarrow> 'b op \<Rightarrow> 'b op" where
  "then_op m k = bind_op m (\<lambda>_. k)"

definition update_op :: "(vm \<Rightarrow> vm) \<Rightarrow> unit op" where
  "update_op f = (\<lambda>st. (Inr (), f st))"

fun for_each :: "('a \<Rightarrow> unit op) \<Rightarrow> 'a list \<Rightarrow> unit op" where
  "for_each f [] = ret ()"
| "for_each f (x # xs) = then_op (f x) (for_each f xs)"

text \<open>\<open>try m finally f\<close>: what \<open>f\<close> throws replaces the outcome of \<open>m\<close>.\<close>

definition finally_op :: "'a op \<Rightarrow> unit op \<Rightarrow> 'a op" where
  "finally_op m f =
     (\<lambda>st. case m st of (r, st1) \<Rightarrow> (case f st1 of (Inl e, st2) \<Rightarrow> (Inl e, st2) | (Inr _, st2) \<Rightarrow> (r, st2)))"

definition catch_op :: "'a op \<Rightarrow> (exn \<Rightarrow> 'a op) \<Rightarrow> 'a op" where
  "catch_op m h = (\<lambda>st. case m st of (Inl e, st') \<Rightarrow> h e st' | (Inr x, st') \<Rightarrow> (Inr x, st'))"

definition when_op :: "bool \<Rightarrow> unit op \<Rightarrow> unit op" where
  "when_op b m = (if b then m else ret ())"

text \<open>\<open>ccall\<close>, and a call whose result is dropped. A call that throws is not in the log.\<close>

definition read_call :: "wasm \<Rightarrow> call \<Rightarrow> (nat \<times> js_string) op" where
  "read_call W c = (\<lambda>st.
     case W (log st) c of
       Trap e \<Rightarrow> (Inl e, st)
     | Reply v t ag se \<Rightarrow>
         (Inr (v, t), st\<lparr>log := log st @ [(c, v)], agerrMessages := agerrMessages st @ ag,
                        stderrMessages := stderrMessages st @ se\<rparr>))"

definition ccall :: "wasm \<Rightarrow> call \<Rightarrow> nat op" where
  "ccall W c = bind_op (read_call W c) (\<lambda>(v, t). ret v)"

definition run_call :: "wasm \<Rightarrow> call \<Rightarrow> unit op" where
  "run_call W c = bind_op (ccall W c) (\<lambda>_. ret ())"

definition read_text :: "wasm \<Rightarrow> nat \<Rightarrow> js_string op" where
  "read_text W p = bind_op (read_call W (ReadText p)) (\<lambda>(v, t). ret t)"

section \<open>Attributes\<close>

text \<open>An attribute value: text (what \<open>String(value)\<close> gives), an object with the key \<open>html\<close>, or null.\<close>

datatype attr = Plain js_string | Html js_string | NullValue

type_synonym attrs = "(js_string \<times> attr) list"

definition with_string :: "wasm \<Rightarrow> nat \<Rightarrow> attr \<Rightarrow> (nat \<Rightarrow> unit op) \<Rightarrow> unit op" where
  "with_string W graph value setter =
     (case value of
        NullValue \<Rightarrow> throw (TypeErrorExn (js ''cannot use 'in' operator''))
      | Plain s \<Rightarrow>
          bind_op (ccall W (StringDup False graph s)) (\<lambda>p.
            if p = 0 then throw (ErrorExn (js ''couldn't dup string''))
            else then_op (setter p) (run_call W (StringFree False graph p)))
      | Html s \<Rightarrow>
          bind_op (ccall W (StringDup True graph s)) (\<lambda>p.
            if p = 0 then throw (ErrorExn (js ''couldn't dup string''))
            else then_op (setter p) (run_call W (StringFree True graph p))))"

definition set_each :: "wasm \<Rightarrow> nat \<Rightarrow> (js_string \<Rightarrow> nat \<Rightarrow> call) \<Rightarrow> attrs \<Rightarrow> unit op" where
  "set_each W graph setter attributes =
     for_each (\<lambda>(name, value). with_string W graph value (\<lambda>p. run_call W (setter name p))) attributes"

record defaults =
  graphAttributes :: attrs
  nodeAttributes :: attrs
  edgeAttributes :: attrs

definition set_defaults :: "wasm \<Rightarrow> nat \<Rightarrow> defaults \<Rightarrow> unit op" where
  "set_defaults W graph d =
     then_op (set_each W graph (SetDefaultGraph graph) (graphAttributes d))
     (then_op (set_each W graph (SetDefaultNode graph) (nodeAttributes d))
       (set_each W graph (SetDefaultEdge graph) (edgeAttributes d)))"

section \<open>Graphs\<close>

record node_obj =
  node_name :: "js_string option"
  node_attributes :: attrs

record edge_obj =
  edge_tail :: "js_string option"
  edge_head :: "js_string option"
  edge_attributes :: attrs

datatype graph_obj =
  GraphObj (graph_name: "js_string option") (graph_directed: "bool option") (graph_strict: "bool option")
    (graph_defaults: defaults) (graph_nodes: "node_obj list") (graph_edges: "edge_obj list")
    (graph_subgraphs: "graph_obj list")

definition add_node :: "wasm \<Rightarrow> nat \<Rightarrow> node_obj \<Rightarrow> unit op" where
  "add_node W graph n =
     (case node_name n of
        None \<Rightarrow> throw (ErrorExn (js ''nodes must have a name''))
      | Some name \<Rightarrow>
          bind_op (ccall W (AddNode graph name)) (\<lambda>p. set_each W graph (SetAttribute p) (node_attributes n)))"

definition add_edge_obj :: "wasm \<Rightarrow> nat \<Rightarrow> edge_obj \<Rightarrow> unit op" where
  "add_edge_obj W graph e =
     (case (edge_tail e, edge_head e) of
        (None, _) \<Rightarrow> throw (ErrorExn (js ''edges must have a tail''))
      | (Some _, None) \<Rightarrow> throw (ErrorExn (js ''edges must have a head''))
      | (Some tail, Some head) \<Rightarrow>
          bind_op (ccall W (AddEdge graph tail head)) (\<lambda>p. set_each W graph (SetAttribute p) (edge_attributes e)))"

fun build :: "wasm \<Rightarrow> nat \<Rightarrow> graph_obj \<Rightarrow> unit op"
  and build_subgraphs :: "wasm \<Rightarrow> nat \<Rightarrow> graph_obj list \<Rightarrow> unit op" where
  "build W graph (GraphObj n directed strict d nodes edges subs) =
     then_op (set_defaults W graph d)
     (then_op (for_each (add_node W graph) nodes)
     (then_op (for_each (add_edge_obj W graph) edges)
       (build_subgraphs W graph subs)))"
| "build_subgraphs W graph [] = ret ()"
| "build_subgraphs W graph (s # ss) =
     bind_op (ccall W (AddSubgraph graph (graph_name s))) (\<lambda>p.
       then_op (build W p s) (build_subgraphs W graph ss))"

definition create_graph :: "wasm \<Rightarrow> graph_obj \<Rightarrow> nat op" where
  "create_graph W I =
     bind_op (ccall W (CreateGraph (graph_name I)
         (case graph_directed I of None \<Rightarrow> True | Some b \<Rightarrow> b) (case graph_strict I of None \<Rightarrow> False | Some b \<Rightarrow> b)))
       (\<lambda>g. then_op (build W g I) (ret g))"

definition read_graph :: "wasm \<Rightarrow> js_string \<Rightarrow> nat op" where
  "read_graph W text =
     (let n = lengthBytesUTF8 text
      in bind_op (ccall W (Malloc (n + 1))) (\<lambda>p.
           finally_op
             (then_op (run_call W (WriteString text p (n + 1))) (ccall W (ReadOneGraph p)))
             (when_op (p \<noteq> 0) (run_call W (Free p)))))"

section \<open>Messages\<close>

datatype level = LError | LWarning

type_synonym message = "js_string \<times> level option"

definition js_line_end :: "u16 \<Rightarrow> bool" where
  "js_line_end c \<longleftrightarrow> c \<in> {0x0A, 0x0D, 0x2028, 0x2029}"

definition js_space :: "u16 \<Rightarrow> bool" where
  "js_space c \<longleftrightarrow> js_line_end c \<or> c \<in> {0x09, 0x0B, 0x0C, 0x20, 0xA0, 0xFEFF, 0x1680, 0x202F, 0x205F, 0x3000} \<or>
     (0x2000 \<le> c \<and> c \<le> 0x200A)"

definition trim_end :: "js_string \<Rightarrow> js_string" where
  "trim_end s = rev (dropWhile js_space (rev s))"

text \<open>Graphviz writes a message in pieces: the level, \<open>": "\<close> and the text; a level holds until the next.\<close>

fun parse_agerr :: "level option \<Rightarrow> js_string list \<Rightarrow> message list" where
  "parse_agerr l [] = []"
| "parse_agerr l [a] = [(trim_end a, l)]"
| "parse_agerr l (a # b # rest) =
     (if a = js ''Error'' \<and> b = js '': '' then parse_agerr (Some LError) rest
      else if a = js ''Warning'' \<and> b = js '': '' then parse_agerr (Some LWarning) rest
      else (trim_end a, l) # parse_agerr l (b # rest))"

text \<open>\<open>/^Error: (.*)/\<close>: the rest of the line, where a line ends at any line terminator.\<close>

definition after_prefix :: "js_string \<Rightarrow> js_string \<Rightarrow> js_string option" where
  "after_prefix prefix s =
     (if take (length prefix) s = prefix
      then Some (takeWhile (\<lambda>c. \<not> js_line_end c) (drop (length prefix) s)) else None)"

definition parse_stderr :: "js_string \<Rightarrow> message" where
  "parse_stderr s =
     (case after_prefix (js ''Error: '') s of
        Some m \<Rightarrow> (trim_end m, Some LError)
      | None \<Rightarrow>
          (case after_prefix (js ''Warning: '') s of
             Some m \<Rightarrow> (trim_end m, Some LWarning)
           | None \<Rightarrow> (trim_end s, None)))"

definition parse_errors :: "vm \<Rightarrow> message list" where
  "parse_errors st = parse_agerr None (agerrMessages st) @ map parse_stderr (stderrMessages st)"

section \<open>Rendering\<close>

text \<open>An image: its name, width and height as texts (numbers and strings alike), or the message of the
  error for a property of the wrong type.\<close>

datatype image = Image js_string js_string js_string | BadImage js_string

record options =
  opt_defaults :: defaults
  opt_yInvert :: bool
  opt_reduce :: bool
  opt_engine :: "js_string option"
  opt_images :: "image list"

datatype input = TextInput js_string | ObjectInput graph_obj | NullInput | OtherInput

datatype outcome = Failure "message list" | Success "(js_string \<times> js_string) list" "message list"

definition image_text :: "js_string \<Rightarrow> js_string \<Rightarrow> js_string" where
  "image_text width height =
     js ''<?xml version=\"1.0\" encoding=\"UTF-8\"?>'' @ [0x0A] @
     js ''<svg xmlns=\"http://www.w3.org/2000/svg\" width=\"'' @ width @ js ''\" height=\"'' @ height @ js ''\"></svg>'' @ [0x0A]"

fun create_images :: "wasm \<Rightarrow> image list \<Rightarrow> js_string list op" where
  "create_images W [] = ret []"
| "create_images W (BadImage m # is) = throw (ErrorExn m)"
| "create_images W (Image name width height # is) =
     (let file = join_paths [[slash], name]
      in then_op (run_call W (CreatePath (dirname file)))
         (then_op (run_call W (WriteFile file (image_text width height)))
           (bind_op (create_images W is) (\<lambda>fs. ret (file # fs)))))"

definition remove_image :: "wasm \<Rightarrow> js_string \<Rightarrow> unit op" where
  "remove_image W file =
     bind_op (ccall W (AnalyzePath file)) (\<lambda>exists. when_op (exists \<noteq> 0) (run_call W (Unlink file)))"

definition input_graph :: "wasm \<Rightarrow> input \<Rightarrow> nat op" where
  "input_graph W input =
     (case input of
        TextInput text \<Rightarrow> read_graph W text
      | ObjectInput I \<Rightarrow> create_graph W I
      | NullInput \<Rightarrow> throw (TypeErrorExn (js ''cannot read properties of null''))
      | OtherInput \<Rightarrow> throw (ErrorExn (js ''input must be a string or object'')))"

definition failure :: "outcome op" where
  "failure = (\<lambda>st. (Inr (Failure (parse_errors st)), st))"

definition success :: "(js_string \<times> js_string) list \<Rightarrow> outcome op" where
  "success out = (\<lambda>st. (Inr (Success out (parse_errors st)), st))"

fun render_each :: "wasm \<Rightarrow> nat \<Rightarrow> nat \<Rightarrow> js_string list \<Rightarrow> (js_string \<times> js_string) list \<Rightarrow> outcome op" where
  "render_each W context graph [] out = success out"
| "render_each W context graph (format # formats) out =
     bind_op (ccall W (RenderTo context graph format)) (\<lambda>p.
       then_op (update_op (\<lambda>st. st\<lparr>v_output := p\<rparr>))
         (if p = 0 then failure
          else bind_op (read_text W p) (\<lambda>text.
            then_op (run_call W (Free p))
            (then_op (update_op (\<lambda>st. st\<lparr>v_output := 0\<rparr>))
              (render_each W context graph formats (AList.update format text out))))))"

definition render_body :: "wasm \<Rightarrow> input \<Rightarrow> js_string list \<Rightarrow> options \<Rightarrow> outcome op" where
  "render_body W input formats opt =
     then_op (update_op (\<lambda>st. st\<lparr>agerrMessages := [], stderrMessages := []\<rparr>))
     (bind_op (create_images W (opt_images opt)) (\<lambda>files.
      then_op (update_op (\<lambda>st. st\<lparr>v_images := files\<rparr>))
      (bind_op (input_graph W input) (\<lambda>graph.
       then_op (update_op (\<lambda>st. st\<lparr>v_graph := graph\<rparr>))
       (if graph = 0 then failure
        else
          then_op (set_defaults W graph (opt_defaults opt))
          (then_op (run_call W (SetYInvert (opt_yInvert opt)))
          (then_op (run_call W (SetReduce (opt_reduce opt)))
          (bind_op (ccall W CreateContext) (\<lambda>context.
           then_op (update_op (\<lambda>st. st\<lparr>v_context := context\<rparr>))
           (then_op (run_call W ResetErrors)
           (bind_op (ccall W (LayoutGraph context graph (opt_engine opt))) (\<lambda>status.
             if status \<noteq> 0 then failure else render_each W context graph formats []))))))))))))"

definition clean_up :: "wasm \<Rightarrow> unit op" where
  "clean_up W = (\<lambda>st.
     (let B = v_context st; Q = v_graph st; E = v_output st; files = v_images st
      in then_op (when_op (B \<noteq> 0 \<and> Q \<noteq> 0) (run_call W (FreeLayout B Q)))
         (then_op (when_op (Q \<noteq> 0) (run_call W (FreeGraph Q)))
         (then_op (when_op (B \<noteq> 0) (run_call W (FreeContext B)))
         (then_op (when_op (E \<noteq> 0) (run_call W (Free E)))
           (for_each (remove_image W) files))))) st)"

text \<open>\<open>/^exit\(\d+\)/\<close>\<close>

definition exit_text :: "js_string \<Rightarrow> bool" where
  "exit_text s \<longleftrightarrow>
     (let digits = (\<lambda>c::u16. 0x30 \<le> c \<and> c \<le> 0x39); rest = drop 5 s
      in take 5 s = js ''exit('' \<and> takeWhile digits rest \<noteq> [] \<and> take 1 (dropWhile digits rest) = js '')'')"

definition render_formats :: "wasm \<Rightarrow> input \<Rightarrow> js_string list \<Rightarrow> options \<Rightarrow> outcome op" where
  "render_formats W input formats opt =
     then_op (update_op (\<lambda>st. st\<lparr>v_graph := 0, v_context := 0, v_output := 0, v_images := []\<rparr>))
     (finally_op
       (catch_op (render_body W input formats opt) (\<lambda>e. if exit_text (exn_text e) then failure else throw e))
       (clean_up W))"

section \<open>The class\<close>

text \<open>\<open>render\<close>: one format, \<open>dot\<close> by default, and its output. \<open>renderString\<close> throws the first error.\<close>

definition render_one :: "wasm \<Rightarrow> input \<Rightarrow> js_string option \<Rightarrow> options \<Rightarrow> ((js_string option \<times> message list) op)" where
  "render_one W input format opt =
     (let f = (case format of None \<Rightarrow> js ''dot'' | Some f \<Rightarrow> f)
      in bind_op (render_formats W input [f] opt) (\<lambda>r.
           case r of
             Success out errors \<Rightarrow> ret (Some (case map_of out f of Some t \<Rightarrow> t | None \<Rightarrow> []), errors)
           | Failure errors \<Rightarrow> ret (None, errors)))"

definition render_string :: "wasm \<Rightarrow> input \<Rightarrow> js_string option \<Rightarrow> options \<Rightarrow> js_string op" where
  "render_string W input format opt =
     bind_op (render_one W input format opt) (\<lambda>(output, errors).
       case output of
         Some t \<Rightarrow> ret t
       | None \<Rightarrow>
           (let m = (case find (\<lambda>(m, l). l = Some LError) errors of Some (m, l) \<Rightarrow> m | None \<Rightarrow> [])
            in throw (ErrorExn (if m = [] then js ''render failed'' else m))))"

text \<open>The names of the plugins: an array of strings that ends with a null pointer. The loop does not
  end if there is none.\<close>

partial_function (option) plugin_loop ::
  "wasm \<Rightarrow> nat \<Rightarrow> js_string list \<Rightarrow> vm \<Rightarrow> ((exn + js_string list) \<times> vm) option" where
  "plugin_loop W B found st =
     (case ccall W (GetPointer B) st of
        (Inl e, st1) \<Rightarrow> Some (Inl e, st1)
      | (Inr p, st1) \<Rightarrow>
          (if p = 0 then Some (Inr found, st1)
           else (case bind_op (read_text W p) (\<lambda>t. then_op (run_call W (Free p)) (ret t)) st1 of
                   (Inl e, st2) \<Rightarrow> Some (Inl e, st2)
                 | (Inr t, st2) \<Rightarrow> plugin_loop W (B + 4) (found @ [t]) st2)))"

definition plugin_list :: "wasm \<Rightarrow> js_string \<Rightarrow> vm \<Rightarrow> ((exn + js_string list) \<times> vm) option" where
  "plugin_list W kind st =
     (case ccall W (GetPluginList kind) st of
        (Inl e, st1) \<Rightarrow> Some (Inl e, st1)
      | (Inr g, st1) \<Rightarrow>
          (if g = 0 then Some (Inl (ErrorExn (js ''couldn't get plugin list: '' @ kind)), st1)
           else (case plugin_loop W g [] st1 of
                   None \<Rightarrow> None
                 | Some (Inl e, st2) \<Rightarrow> Some (Inl e, st2)
                 | Some (Inr found, st2) \<Rightarrow> Some (then_op (run_call W (Free g)) (ret found) st2))))"

end
