(* ===== verification/Viz_Render_Correct.thy ===== *)
theory Viz_Render_Correct
  imports Viz_Render
begin

text \<open>
  The correctness of the rendering interface: every graph, context and buffer that a rendering
  acquires from the compiled module is released exactly once, whatever the module answers or
  throws (with the exception of an input object that is rejected while the graph is built), the
  messages come out with their levels, and the plugin list is read and freed to its end.
\<close>

section \<open>Resources\<close>

datatype resource = HeapR nat | GraphR nat | ContextR nat

definition acquires :: "call \<Rightarrow> nat \<Rightarrow> resource multiset" where
  "acquires c v =
     (if v = 0 then {#}
      else case c of
        Malloc n \<Rightarrow> {#HeapR v#}
      | ReadOneGraph p \<Rightarrow> {#GraphR v#}
      | CreateGraph n d s \<Rightarrow> {#GraphR v#}
      | CreateContext \<Rightarrow> {#ContextR v#}
      | RenderTo b q f \<Rightarrow> {#HeapR v#}
      | _ \<Rightarrow> {#})"

definition releases :: "call \<Rightarrow> resource multiset" where
  "releases c =
     (case c of
        Free p \<Rightarrow> {#HeapR p#}
      | FreeGraph g \<Rightarrow> {#GraphR g#}
      | FreeContext b \<Rightarrow> {#ContextR b#}
      | _ \<Rightarrow> {#})"

fun taken :: "(call \<times> nat) list \<Rightarrow> resource multiset" where
  "taken [] = {#}"
| "taken ((c, v) # l) = acquires c v + taken l"

fun given :: "(call \<times> nat) list \<Rightarrow> resource multiset" where
  "given [] = {#}"
| "given ((c, v) # l) = releases c + given l"

lemma taken_append [simp]: "taken (l @ m) = taken l + taken m"
  by (induction l rule: taken.induct) (simp_all add: add.assoc)

lemma given_append [simp]: "given (l @ m) = given l + given m"
  by (induction l rule: given.induct) (simp_all add: add.assoc)

text \<open>What the code relies on: the module's release functions return.\<close>

definition frees_return :: "wasm \<Rightarrow> bool" where
  "frees_return W \<longleftrightarrow>
     (\<forall>h p. (\<forall>e. W h (Free p) \<noteq> Trap e) \<and> (\<forall>e. W h (FreeGraph p) \<noteq> Trap e) \<and>
        (\<forall>e. W h (FreeContext p) \<noteq> Trap e) \<and> (\<forall>q e. W h (FreeLayout p q) \<noteq> Trap e))"

section \<open>Quiet operations\<close>

definition same_hands :: "vm \<Rightarrow> vm \<Rightarrow> bool" where
  "same_hands st st' \<longleftrightarrow>
     v_graph st' = v_graph st \<and> v_context st' = v_context st \<and> v_output st' = v_output st \<and>
     taken (log st') = taken (log st) \<and> given (log st') = given (log st)"

definition quiet :: "'a op \<Rightarrow> bool" where
  "quiet m \<longleftrightarrow> (\<forall>st. same_hands st (snd (m st)))"

named_theorems quiet_intros \<open>operations that neither acquire nor release\<close>

lemma same_hands_refl [simp]: "same_hands st st"
  by (simp add: same_hands_def)

lemma same_hands_trans: "same_hands a b \<Longrightarrow> same_hands b c \<Longrightarrow> same_hands a c"
  by (simp add: same_hands_def)

lemma quiet_ret [quiet_intros]: "quiet (ret x)"
  by (simp add: quiet_def ret_def)

lemma quiet_throw [quiet_intros]: "quiet (throw e)"
  by (simp add: quiet_def throw_def)

lemma quiet_failure [quiet_intros]: "quiet failure" and quiet_success [quiet_intros]: "quiet (success out)"
  by (simp_all add: quiet_def failure_def success_def)

lemma quiet_bind [quiet_intros]:
  assumes "quiet m" "\<And>x. quiet (f x)"
  shows "quiet (bind_op m f)"
  unfolding quiet_def
proof
  fix st
  show "same_hands st (snd (bind_op m f st))"
    using assms [unfolded quiet_def]
    by (cases "m st") (auto simp: bind_op_def split: sum.split intro: same_hands_trans dest: spec [of _ st])
qed

lemma quiet_then [quiet_intros]: "quiet m \<Longrightarrow> quiet k \<Longrightarrow> quiet (then_op m k)"
  unfolding then_op_def by (intro quiet_intros)

lemma quiet_when [quiet_intros]: "quiet m \<Longrightarrow> quiet (when_op b m)"
  by (simp add: when_op_def quiet_ret)

lemma quiet_for_each [quiet_intros]: "(\<And>x. quiet (f x)) \<Longrightarrow> quiet (for_each f xs)"
  by (induction xs) (simp_all add: quiet_intros)

lemma quiet_read_call:
  assumes "\<And>v. acquires c v = {#}" "releases c = {#}"
  shows "quiet (read_call W c)"
  by (auto simp: quiet_def read_call_def same_hands_def assms split: reply.split)

lemma quiet_ccall [quiet_intros]:
  assumes "\<And>v. acquires c v = {#}" "releases c = {#}"
  shows "quiet (ccall W c)"
  unfolding ccall_def by (intro quiet_bind quiet_read_call assms) (simp add: quiet_ret split: prod.split)

lemma quiet_run_call [quiet_intros]:
  "(\<And>v. acquires c v = {#}) \<Longrightarrow> releases c = {#} \<Longrightarrow> quiet (run_call W c)"
  unfolding run_call_def by (intro quiet_intros)

lemma quiet_read_text [quiet_intros]: "quiet (read_text W p)"
  unfolding read_text_def
  by (intro quiet_bind quiet_read_call) (simp_all add: quiet_ret acquires_def releases_def split: prod.split)

lemma quiet_with_string [quiet_intros]: "(\<And>p. quiet (setter p)) \<Longrightarrow> quiet (with_string W g v setter)"
  by (cases v) (auto simp: with_string_def acquires_def releases_def intro!: quiet_intros)

lemma quiet_set_each [quiet_intros]:
  "(\<And>name p v. acquires (setter name p) v = {#} \<and> releases (setter name p) = {#}) \<Longrightarrow> quiet (set_each W g setter as)"
  unfolding set_each_def by (auto intro!: quiet_intros)

lemma quiet_set_defaults [quiet_intros]: "quiet (set_defaults W g d)"
  unfolding set_defaults_def by (auto intro!: quiet_intros simp: acquires_def releases_def)

lemma quiet_add [quiet_intros]: "quiet (add_node W g n)" "quiet (add_edge_obj W g e)"
  by (auto simp: add_node_def add_edge_obj_def acquires_def releases_def intro!: quiet_intros split: option.split)

lemma quiet_build [quiet_intros]: "quiet (build W g I)" and quiet_build_subgraphs: "quiet (build_subgraphs W g Is)"
  by (induction W g I and W g Is rule: build_build_subgraphs.induct)
    (auto simp: acquires_def releases_def intro!: quiet_intros)

lemma quiet_create_images [quiet_intros]: "quiet (create_images W is)"
  by (induction W "is" rule: create_images.induct)
    (auto simp: acquires_def releases_def Let_def intro!: quiet_intros)

lemma quiet_remove_image [quiet_intros]: "quiet (remove_image W f)"
  unfolding remove_image_def by (auto simp: acquires_def releases_def intro!: quiet_intros)

section \<open>Triples\<close>

text \<open>From a state with \<open>P\<close>, a value leads to \<open>Q\<close> and an exception to \<open>R\<close>.\<close>

definition holds :: "(vm \<Rightarrow> bool) \<Rightarrow> 'a op \<Rightarrow> ('a \<Rightarrow> vm \<Rightarrow> bool) \<Rightarrow> (vm \<Rightarrow> bool) \<Rightarrow> bool" where
  "holds P m Q R \<longleftrightarrow> (\<forall>st. P st \<longrightarrow> (case m st of (Inr x, st') \<Rightarrow> Q x st' | (Inl e, st') \<Rightarrow> R st'))"

lemma holds_bind: "holds P m S R \<Longrightarrow> (\<And>x. holds (S x) (f x) Q R) \<Longrightarrow> holds P (bind_op m f) Q R"
  unfolding holds_def bind_op_def by (fastforce split: prod.splits sum.splits)

lemma holds_then: "holds P m (\<lambda>_. S) R \<Longrightarrow> holds S k Q R \<Longrightarrow> holds P (then_op m k) Q R"
  unfolding then_op_def by (rule holds_bind)

lemma holds_then_assoc:
  "holds P (then_op m m') (\<lambda>_. S) R \<Longrightarrow> holds S k Q R \<Longrightarrow> holds P (then_op m (then_op m' k)) Q R"
  unfolding holds_def then_op_def bind_op_def by (fastforce split: prod.splits sum.splits)

lemma holds_update: "(\<And>st. P st \<Longrightarrow> Q (f st)) \<Longrightarrow> holds P (update_op f) (\<lambda>_. Q) R"
  by (simp add: holds_def update_op_def)

lemma holds_set: "holds S k Q R \<Longrightarrow> (\<And>st. P st \<Longrightarrow> S (f st)) \<Longrightarrow> holds P (then_op (update_op f) k) Q R"
  by (rule holds_then [OF holds_update])

lemma holds_conseq:
  "holds P' m Q' R' \<Longrightarrow> (\<And>st. P st \<Longrightarrow> P' st) \<Longrightarrow> (\<And>x st. Q' x st \<Longrightarrow> Q x st) \<Longrightarrow> (\<And>st. R' st \<Longrightarrow> R st) \<Longrightarrow>
     holds P m Q R"
  unfolding holds_def by (fastforce split: prod.splits sum.splits)

text \<open>The handles in the local variables, and those in transit to them.\<close>

definition hand :: "(nat \<Rightarrow> resource) \<Rightarrow> nat \<Rightarrow> resource multiset" where
  "hand k v = (if v = 0 then {#} else {#k v#})"

definition owns :: "nat \<Rightarrow> nat \<Rightarrow> nat \<Rightarrow> resource multiset \<Rightarrow> vm \<Rightarrow> bool" where
  "owns g c out M st \<longleftrightarrow>
     v_graph st = g \<and> v_context st = c \<and> v_output st = out \<and>
     taken (log st) = given (log st) + hand GraphR g + hand ContextR c + hand HeapR out + M"

definition accounted :: "vm \<Rightarrow> bool" where
  "accounted st \<longleftrightarrow> owns (v_graph st) (v_context st) (v_output st) {#} st"

lemma owns_accounted: "owns g c out {#} st \<Longrightarrow> accounted st"
  by (simp add: accounted_def owns_def)

lemma owns_same: "owns g c out M st \<Longrightarrow> same_hands st st' \<Longrightarrow> owns g c out M st'"
  by (simp add: owns_def same_hands_def)

lemma holds_stable:
  assumes "quiet m" "\<And>st st'. P st \<Longrightarrow> same_hands st st' \<Longrightarrow> P st'" "\<And>st. P st \<Longrightarrow> R st"
  shows "holds P m (\<lambda>_. P) R"
  unfolding holds_def
proof (intro allI impI)
  fix st assume st: "P st"
  obtain r st' where r: "m st = (r, st')" by fastforce
  have "same_hands st st'" using assms(1) [unfolded quiet_def, rule_format, of st] by (simp add: r)
  with assms(2,3) st show "case m st of (Inl e, st') \<Rightarrow> R st' | (Inr x, st') \<Rightarrow> P st'"
    by (cases r) (auto simp: r)
qed

lemma holds_quiet: "quiet m \<Longrightarrow> holds (owns g c out {#}) m (\<lambda>_. owns g c out {#}) accounted"
  by (rule holds_stable) (auto intro: owns_same owns_accounted)

lemma holds_quiet_then:
  "quiet m \<Longrightarrow> holds (owns g c out {#}) k Q accounted \<Longrightarrow> holds (owns g c out {#}) (then_op m k) Q accounted"
  by (rule holds_then [OF holds_quiet])

lemma holds_quiet_bind:
  "quiet m \<Longrightarrow> (\<And>x. holds (owns g c out {#}) (k x) Q accounted) \<Longrightarrow> holds (owns g c out {#}) (bind_op m k) Q accounted"
  by (rule holds_bind [OF holds_quiet])

lemma holds_acquire:
  assumes "releases c = {#}" "\<And>v. acquires c v = hand k v"
  shows "holds (owns g x out {#}) (ccall W c) (\<lambda>v. owns g x out (hand k v)) accounted"
  using assms
  by (auto simp: holds_def ccall_def bind_op_def read_call_def ret_def owns_def intro: owns_accounted [unfolded owns_def]
      split: reply.split)

lemma frees_run:
  assumes "\<forall>e. W (log st) c \<noteq> Trap e"
  obtains v st' where "run_call W c st = (Inr (), st')" "log st' = log st @ [(c, v)]"
    "v_graph st' = v_graph st" "v_context st' = v_context st" "v_output st' = v_output st" "v_images st' = v_images st"
  using assms
  by (cases "W (log st) c") (auto simp: run_call_def ccall_def bind_op_def read_call_def ret_def)

lemma acquires_release [simp]:
  "acquires (Free p) v = {#}" "acquires (FreeGraph g) v = {#}" "acquires (FreeContext c) v = {#}"
  "acquires (FreeLayout c g) v = {#}" "releases (Free p) = {#HeapR p#}" "releases (FreeGraph g) = {#GraphR g#}"
  "releases (FreeContext c) = {#ContextR c#}" "releases (FreeLayout c g) = {#}"
  by (simp_all add: acquires_def releases_def)

text \<open>Reading a graph: the buffer of the text is released, with the graph in transit if there is one.\<close>

lemma read_graph_hands:
  assumes "frees_return W"
  shows "holds (owns 0 0 0 {#}) (read_graph W text) (\<lambda>v. owns 0 0 0 (hand GraphR v)) accounted"
proof -
  let ?n = "lengthBytesUTF8 text"
  let ?body = "\<lambda>p. then_op (run_call W (WriteString text p (?n + 1))) (ccall W (ReadOneGraph p))"
  have inner: "holds (owns 0 0 0 (hand HeapR p)) (?body p)
      (\<lambda>v. owns 0 0 0 (hand HeapR p + hand GraphR v)) (owns 0 0 0 (hand HeapR p))" for p
  proof -
    have "quiet (run_call W (WriteString text p (?n + 1)))"
      by (auto simp: acquires_def releases_def intro!: quiet_intros)
    then have "holds (owns 0 0 0 (hand HeapR p)) (run_call W (WriteString text p (?n + 1)))
        (\<lambda>_. owns 0 0 0 (hand HeapR p)) (owns 0 0 0 (hand HeapR p))"
      by (rule holds_stable) (auto intro: owns_same)
    moreover have "holds (owns 0 0 0 (hand HeapR p)) (ccall W (ReadOneGraph p))
        (\<lambda>v. owns 0 0 0 (hand HeapR p + hand GraphR v)) (owns 0 0 0 (hand HeapR p))"
      by (auto simp: holds_def ccall_def bind_op_def read_call_def ret_def owns_def acquires_def releases_def hand_def
          split: reply.split)
    ultimately show ?thesis by (rule holds_then)
  qed
  have free: "\<exists>st'. when_op (p \<noteq> 0) (run_call W (Free p)) st = (Inr (), st') \<and> owns 0 0 0 M st'"
    if "owns 0 0 0 (hand HeapR p + M) st" for p M st
  proof (cases "p = 0")
    case True
    with that show ?thesis by (simp add: when_op_def ret_def hand_def)
  next
    case False
    have "\<forall>e. W (log st) (Free p) \<noteq> Trap e" using assms by (simp add: frees_return_def)
    then obtain v st' where "run_call W (Free p) st = (Inr (), st')"
      "log st' = log st @ [(Free p, v)]" "v_graph st' = v_graph st" "v_context st' = v_context st" "v_output st' = v_output st"
      by (rule frees_run)
    with that False show ?thesis by (simp add: when_op_def owns_def hand_def)
  qed
  have tail: "holds (owns 0 0 0 (hand HeapR p)) (finally_op (?body p) (when_op (p \<noteq> 0) (run_call W (Free p))))
      (\<lambda>v. owns 0 0 0 (hand GraphR v)) accounted" for p
    unfolding holds_def
  proof (intro allI impI)
    fix st assume st: "owns 0 0 0 (hand HeapR p) st"
    obtain r st1 where r: "?body p st = (r, st1)" by fastforce
    show "case finally_op (?body p) (when_op (p \<noteq> 0) (run_call W (Free p))) st of
        (Inl e, st') \<Rightarrow> accounted st' | (Inr v, st') \<Rightarrow> owns 0 0 0 (hand GraphR v) st'"
    proof (cases r)
      case (Inl e)
      then have "owns 0 0 0 (hand HeapR p + {#}) st1" using inner [of p, unfolded holds_def] st r by fastforce
      from free [OF this] obtain st2 where st2: "when_op (p \<noteq> 0) (run_call W (Free p)) st1 = (Inr (), st2)"
        and "owns 0 0 0 {#} st2" by blast
      from this(2) have "accounted st2" by (rule owns_accounted)
      with st2 show ?thesis using r Inl by (simp add: finally_op_def)
    next
      case (Inr v)
      then have "owns 0 0 0 (hand HeapR p + hand GraphR v) st1" using inner [of p, unfolded holds_def] st r by fastforce
      from free [OF this] show ?thesis using r Inr by (auto simp: finally_op_def)
    qed
  qed
  show ?thesis unfolding read_graph_def Let_def
    by (rule holds_bind [OF holds_acquire tail]) (simp_all add: acquires_def releases_def hand_def)
qed

section \<open>Building a graph from an object\<close>

text \<open>An input object that \<open>w\<close> accepts: every node has a name, every edge both ends, and no attribute
  is null; and a module whose calls for building return, with a copy of every string.\<close>

definition texts :: "attrs \<Rightarrow> bool" where
  "texts as \<longleftrightarrow> (\<forall>(k, v) \<in> set as. v \<noteq> NullValue)"

definition default_texts :: "defaults \<Rightarrow> bool" where
  "default_texts d \<longleftrightarrow> texts (graphAttributes d) \<and> texts (nodeAttributes d) \<and> texts (edgeAttributes d)"

fun complete :: "graph_obj \<Rightarrow> bool" where
  "complete (GraphObj n directed strict d nodes edges subs) \<longleftrightarrow>
     default_texts d \<and> (\<forall>x \<in> set nodes. node_name x \<noteq> None \<and> texts (node_attributes x)) \<and>
     (\<forall>x \<in> set edges. edge_tail x \<noteq> None \<and> edge_head x \<noteq> None \<and> texts (edge_attributes x)) \<and>
     (\<forall>s \<in> set subs. complete s)"

definition returns :: "wasm \<Rightarrow> call \<Rightarrow> bool" where
  "returns W c \<longleftrightarrow> (\<forall>h e. W h c \<noteq> Trap e)"

definition builds :: "wasm \<Rightarrow> bool" where
  "builds W \<longleftrightarrow>
     (\<forall>g s x b p. returns W (AddNode g s) \<and> returns W (AddEdge g s x) \<and> returns W (StringFree b g p) \<and>
        returns W (SetDefaultGraph g s p) \<and> returns W (SetDefaultNode g s p) \<and> returns W (SetDefaultEdge g s p) \<and>
        returns W (SetAttribute g s p)) \<and>
     (\<forall>g n. returns W (AddSubgraph g n)) \<and>
     (\<forall>h b g s. \<exists>v t ag se. v \<noteq> 0 \<and> W h (StringDup b g s) = Reply v t ag se)"

definition total_op :: "'a op \<Rightarrow> bool" where
  "total_op m \<longleftrightarrow> (\<forall>st. \<exists>x st'. m st = (Inr x, st'))"

named_theorems total_intros \<open>operations that do not throw\<close>

lemma total_ret [total_intros]: "total_op (ret x)"
  by (simp add: total_op_def ret_def)

lemma total_bind [total_intros]: "total_op m \<Longrightarrow> (\<And>x. total_op (f x)) \<Longrightarrow> total_op (bind_op m f)"
  unfolding total_op_def bind_op_def by (metis (mono_tags, lifting) case_prod_conv old.sum.simps(6))

lemma total_then [total_intros]: "total_op m \<Longrightarrow> total_op k \<Longrightarrow> total_op (then_op m k)"
  unfolding then_op_def by (rule total_bind)

lemma total_for_each [total_intros]: "(\<And>x. x \<in> set xs \<Longrightarrow> total_op (f x)) \<Longrightarrow> total_op (for_each f xs)"
  by (induction xs) (simp_all add: total_intros)

lemma total_ccall [total_intros]: "returns W c \<Longrightarrow> total_op (ccall W c)"
  by (auto simp: total_op_def ccall_def bind_op_def read_call_def ret_def returns_def split: reply.split)

lemma total_run_call [total_intros]: "returns W c \<Longrightarrow> total_op (run_call W c)"
  unfolding run_call_def by (intro total_intros)

lemma total_dup:
  assumes "builds W" "\<And>p. total_op (k p)"
  shows "total_op (bind_op (ccall W (StringDup b g s)) (\<lambda>p. if p = 0 then throw e else k p))"
  unfolding total_op_def
proof
  fix st :: vm
  obtain v t ag se where "v \<noteq> 0" "W (log st) (StringDup b g s) = Reply v t ag se"
    using assms(1) by (metis builds_def)
  with assms(2) [of v] show "\<exists>x st'. bind_op (ccall W (StringDup b g s)) (\<lambda>p. if p = 0 then throw e else k p) st = (Inr x, st')"
    by (simp add: bind_op_def ccall_def read_call_def ret_def total_op_def)
qed

lemma total_with_string:
  assumes "builds W" "\<And>p. total_op (setter p)" "v \<noteq> NullValue"
  shows "total_op (with_string W g v setter)"
proof -
  have "total_op (then_op (setter p) (run_call W (StringFree b g p)))" for p b
    using assms(1,2) by (auto simp: builds_def intro!: total_intros)
  with assms show ?thesis
    by (cases v) (simp_all add: with_string_def total_dup)
qed

lemma total_set_each:
  assumes "builds W" "texts as" "\<And>k p. returns W (setter k p)"
  shows "total_op (set_each W g setter as)"
  using assms unfolding set_each_def
  by (auto simp: texts_def intro!: total_for_each total_with_string total_run_call)

lemma total_set_defaults: "builds W \<Longrightarrow> default_texts d \<Longrightarrow> total_op (set_defaults W g d)"
  unfolding set_defaults_def default_texts_def
  by (intro total_then total_set_each) (auto simp: builds_def)

lemma total_add_node:
  "builds W \<Longrightarrow> node_name x = Some n \<Longrightarrow> texts (node_attributes x) \<Longrightarrow> total_op (add_node W g x)"
  unfolding add_node_def by (auto simp: builds_def intro!: total_bind total_ccall total_set_each)

lemma total_add_edge:
  "builds W \<Longrightarrow> edge_tail x = Some t \<Longrightarrow> edge_head x = Some h \<Longrightarrow> texts (edge_attributes x) \<Longrightarrow>
     total_op (add_edge_obj W g x)"
  unfolding add_edge_obj_def by (auto simp: builds_def intro!: total_bind total_ccall total_set_each)

lemma total_build:
  "builds W \<Longrightarrow> complete I \<Longrightarrow> total_op (build W g I)" and
  total_build_subgraphs: "builds W \<Longrightarrow> \<forall>s \<in> set Is. complete s \<Longrightarrow> total_op (build_subgraphs W g Is)"
proof (induction W g I and W g Is rule: build_build_subgraphs.induct)
  case (1 W graph n directed strict d nodes edges subs)
  have "total_op (for_each (add_node W graph) nodes)"
    using 1 by (intro total_for_each) (auto intro: total_add_node)
  moreover have "total_op (for_each (add_edge_obj W graph) edges)"
    using 1 by (intro total_for_each) (auto intro: total_add_edge)
  ultimately show ?case using 1 by (auto intro!: total_intros total_set_defaults)
next
  case (3 W graph s ss)
  then show ?case by (auto simp: builds_def intro!: total_intros)
qed (simp add: total_ret)

definition accepted :: "wasm \<Rightarrow> input \<Rightarrow> bool" where
  "accepted W inp \<longleftrightarrow> (\<forall>G. inp = ObjectInput G \<longrightarrow> complete G \<and> builds W)"

lemma input_graph_hands:
  assumes "frees_return W" "accepted W inp"
  shows "holds (owns 0 0 0 {#}) (input_graph W inp) (\<lambda>v. owns 0 0 0 (hand GraphR v)) accounted"
proof (cases inp)
  case (TextInput t)
  then show ?thesis by (simp add: input_graph_def read_graph_hands [OF assms(1)])
next
  case (ObjectInput I)
  then have total: "total_op (build W g I)" for g
    using assms(2) by (simp add: accepted_def total_build)
  have "holds (owns 0 0 0 (hand GraphR g)) (then_op (build W g I) (ret g)) (\<lambda>v. owns 0 0 0 (hand GraphR v)) accounted" for g
    unfolding holds_def
  proof (intro allI impI)
    fix st assume st: "owns 0 0 0 (hand GraphR g) st"
    obtain x st1 where b: "build W g I st = (Inr x, st1)" using total [of g] unfolding total_op_def by blast
    have "same_hands st st1" using quiet_build [of W g I] b by (metis quiet_def snd_conv)
    then have "owns 0 0 0 (hand GraphR g) st1" by (rule owns_same [OF st])
    then show "case then_op (build W g I) (ret g) st of
        (Inl e, st') \<Rightarrow> accounted st' | (Inr v, st') \<Rightarrow> owns 0 0 0 (hand GraphR v) st'"
      by (simp add: then_op_def bind_op_def b ret_def)
  qed
  then show ?thesis unfolding ObjectInput input_graph_def input.case create_graph_def
    by (intro holds_bind [OF holds_acquire [where k = GraphR]]) (simp_all add: acquires_def releases_def hand_def)
qed (auto simp: input_graph_def holds_def throw_def intro: owns_accounted)

section \<open>Rendering\<close>

lemma render_each_hands:
  "holds (owns g x 0 {#}) (render_each W context graph formats out) (\<lambda>_. accounted) accounted"
proof (induction formats arbitrary: out)
  case Nil
  show ?case
    by (rule holds_conseq [OF holds_quiet [of _ g x 0]]) (auto simp: quiet_success intro: owns_accounted)
next
  case (Cons format formats)
  have fail: "holds (owns g x p {#}) failure (\<lambda>_. accounted) accounted" for p
    by (rule holds_conseq [OF holds_quiet [of _ g x p]]) (auto simp: quiet_failure intro: owns_accounted)
  have free: "holds (owns g x p {#}) (then_op (run_call W (Free p)) (update_op (\<lambda>st. st\<lparr>v_output := 0\<rparr>)))
      (\<lambda>_. owns g x 0 {#}) accounted" if "p \<noteq> 0" for p
    using that
    by (auto simp: holds_def then_op_def bind_op_def update_op_def run_call_def ccall_def read_call_def ret_def
        owns_def accounted_def hand_def split: reply.split)
  show ?case unfolding render_each.simps
  proof (rule holds_bind [OF holds_acquire])
    fix p
    show "holds (owns g x 0 (hand HeapR p))
      (then_op (update_op (\<lambda>st. st\<lparr>v_output := p\<rparr>))
         (if p = 0 then failure
          else bind_op (read_text W p) (\<lambda>text.
            then_op (run_call W (Free p))
            (then_op (update_op (\<lambda>st. st\<lparr>v_output := 0\<rparr>))
              (render_each W context graph formats (AList.update format text out)))))) (\<lambda>_. accounted) accounted"
    proof (rule holds_then [OF holds_update])
      show "owns g x 0 (hand HeapR p) st \<Longrightarrow> owns g x p {#} (st\<lparr>v_output := p\<rparr>)" for st
        by (simp add: owns_def hand_def)
      show "holds (owns g x p {#})
         (if p = 0 then failure
          else bind_op (read_text W p) (\<lambda>text.
            then_op (run_call W (Free p))
            (then_op (update_op (\<lambda>st. st\<lparr>v_output := 0\<rparr>))
              (render_each W context graph formats (AList.update format text out))))) (\<lambda>_. accounted) accounted"
        using fail [of p] holds_bind [OF holds_quiet [OF quiet_read_text]
            holds_then_assoc [OF free [of p] Cons.IH]]
        by (cases "p = 0") auto
    qed
  qed (simp_all add: acquires_def releases_def hand_def)
qed

lemma render_body_hands:
  assumes "frees_return W" "accepted W inp"
  shows "holds (owns 0 0 0 {#}) (render_body W inp formats opt) (\<lambda>_. accounted) accounted"
proof -
  have fail: "holds (owns g x p {#}) failure (\<lambda>_. accounted) accounted" for g x p
    by (rule holds_conseq [OF holds_quiet [of _ g x p]]) (auto simp: quiet_failure intro: owns_accounted)
  have status: "holds (owns g x 0 {#}) (if status \<noteq> 0 then failure else render_each W x g formats [])
      (\<lambda>_. accounted) accounted" for g x status
    by (simp add: fail render_each_hands)
  have calls: "quiet (run_call W ResetErrors)" "quiet (ccall W (LayoutGraph x g e))"
      "quiet (run_call W (SetYInvert b))" "quiet (run_call W (SetReduce b))" for x g e b
    by (simp_all add: quiet_run_call quiet_ccall acquires_def releases_def)
  have layout: "holds (owns g 0 0 (hand ContextR x))
      (then_op (update_op (\<lambda>st. st\<lparr>v_context := x\<rparr>))
        (then_op (run_call W ResetErrors)
        (bind_op (ccall W (LayoutGraph x g (opt_engine opt))) (\<lambda>status.
           if status \<noteq> 0 then failure else render_each W x g formats []))))
      (\<lambda>_. accounted) accounted" for g x
    by (rule holds_set [OF holds_quiet_then [OF calls(1) holds_quiet_bind [OF calls(2) status]]])
      (simp add: owns_def hand_def)
  have prepared: "holds (owns g 0 0 {#})
      (then_op (set_defaults W g (opt_defaults opt))
        (then_op (run_call W (SetYInvert (opt_yInvert opt)))
        (then_op (run_call W (SetReduce (opt_reduce opt)))
        (bind_op (ccall W CreateContext) (\<lambda>context.
         then_op (update_op (\<lambda>st. st\<lparr>v_context := context\<rparr>))
         (then_op (run_call W ResetErrors)
         (bind_op (ccall W (LayoutGraph context g (opt_engine opt))) (\<lambda>status.
           if status \<noteq> 0 then failure else render_each W context g formats [])))))))) (\<lambda>_. accounted) accounted" for g
    by (intro holds_quiet_then quiet_set_defaults calls holds_bind [OF holds_acquire [where k = ContextR]] layout)
      (simp_all add: acquires_def releases_def hand_def)
  have graph: "holds (owns 0 0 0 (hand GraphR g)) (then_op (update_op (\<lambda>st. st\<lparr>v_graph := g\<rparr>)) m)
      (\<lambda>_. accounted) accounted" if "holds (owns g 0 0 {#}) m (\<lambda>_. accounted) accounted" for g and m :: "outcome op"
    by (rule holds_set [OF that]) (simp add: owns_def hand_def)
  have same: "owns 0 0 0 {#} (st\<lparr>agerrMessages := a, stderrMessages := b\<rparr>) = owns 0 0 0 {#} st"
      "owns 0 0 0 {#} (st\<lparr>v_images := c\<rparr>) = owns 0 0 0 {#} st" for st a b c
    by (simp_all add: owns_def)
  show ?thesis unfolding render_body_def
    by (rule holds_set [where S = "owns 0 0 0 {#}"], rule holds_quiet_bind [OF quiet_create_images],
        rule holds_set [where S = "owns 0 0 0 {#}"], rule holds_bind [OF input_graph_hands [OF assms]],
        rule graph) (simp_all add: same fail prepared del: neq0_conv)
qed

section \<open>Every resource is released\<close>

lemma quiet_remove_images: "quiet (for_each (remove_image W) files)"
  by (intro quiet_intros)

text \<open>A release that is made only for a handle that is not 0.\<close>

lemma release_call:
  assumes "returns W c"
    "\<And>v st'. when_op b (run_call W c) st = (Inr (), st') \<Longrightarrow> taken (log st') = taken (log st) + (if b then acquires c v else {#}) \<Longrightarrow>
       given (log st') = given (log st) + (if b then releases c else {#}) \<Longrightarrow> thesis"
  shows thesis
proof (cases b)
  case True
  have "\<forall>e. W (log st) c \<noteq> Trap e" using assms(1) by (simp add: returns_def)
  then obtain v st' where "run_call W c st = (Inr (), st')" "log st' = log st @ [(c, v)]"
    by (rule frees_run)
  with True assms(2) [of st' v] show thesis by (simp add: when_op_def)
next
  case False
  with assms(2) [of st 0] show thesis by (simp add: when_op_def ret_def)
qed

text \<open>With release functions that return, the clean-up reaches the images, and before it everything in the
  local variables has been released.\<close>

lemma clean_up_run:
  assumes "frees_return W"
  obtains st' where "clean_up W st = for_each (remove_image W) (v_images st) st'" "taken (log st') = taken (log st)"
    "given (log st') = given (log st) + hand GraphR (v_graph st) + hand ContextR (v_context st) + hand HeapR (v_output st)"
proof -
  let ?B = "v_context st" and ?Q = "v_graph st" and ?E = "v_output st"
  have ret: "returns W (FreeLayout ?B ?Q)" "returns W (FreeGraph ?Q)" "returns W (FreeContext ?B)" "returns W (Free ?E)"
    using assms by (simp_all add: frees_return_def returns_def)
  obtain s1 where s1: "when_op (?B \<noteq> 0 \<and> ?Q \<noteq> 0) (run_call W (FreeLayout ?B ?Q)) st = (Inr (), s1)"
      "taken (log s1) = taken (log st)" "given (log s1) = given (log st)"
    by (rule release_call [OF ret(1), of "?B \<noteq> 0 \<and> ?Q \<noteq> 0" st]) auto
  obtain s2 where s2: "when_op (?Q \<noteq> 0) (run_call W (FreeGraph ?Q)) s1 = (Inr (), s2)"
      "taken (log s2) = taken (log s1)" "given (log s2) = given (log s1) + hand GraphR ?Q"
    by (rule release_call [OF ret(2), of "?Q \<noteq> 0" s1]) (auto simp: hand_def)
  obtain s3 where s3: "when_op (?B \<noteq> 0) (run_call W (FreeContext ?B)) s2 = (Inr (), s3)"
      "taken (log s3) = taken (log s2)" "given (log s3) = given (log s2) + hand ContextR ?B"
    by (rule release_call [OF ret(3), of "?B \<noteq> 0" s2]) (auto simp: hand_def)
  obtain s4 where s4: "when_op (?E \<noteq> 0) (run_call W (Free ?E)) s3 = (Inr (), s4)"
      "taken (log s4) = taken (log s3)" "given (log s4) = given (log s3) + hand HeapR ?E"
    by (rule release_call [OF ret(4), of "?E \<noteq> 0" s3]) (auto simp: hand_def)
  have "clean_up W st = for_each (remove_image W) (v_images st) s4"
    unfolding clean_up_def Let_def then_op_def bind_op_def s1(1) by (simp add: s2(1) s3(1) s4(1) del: neq0_conv)
  then show thesis using that [of s4] s1 s2 s3 s4 by simp
qed

lemma clean_up_releases:
  assumes "frees_return W" "accounted st"
  shows "taken (log (snd (clean_up W st))) = given (log (snd (clean_up W st)))"
proof -
  obtain s4 where s4: "clean_up W st = for_each (remove_image W) (v_images st) s4" "taken (log s4) = taken (log st)"
    "given (log s4) = given (log st) + hand GraphR (v_graph st) + hand ContextR (v_context st) + hand HeapR (v_output st)"
    by (rule clean_up_run [OF assms(1)])
  have "same_hands s4 (snd (for_each (remove_image W) (v_images st) s4))"
    using quiet_remove_images [of W "v_images st"] unfolding quiet_def by blast
  with s4 assms(2) show ?thesis by (simp add: same_hands_def accounted_def owns_def)
qed

lemma released_all:
  assumes "frees_return W" "accepted W inp" "taken (log st) = given (log st)"
  shows "taken (log (snd (render_formats W inp formats opt st))) = given (log (snd (render_formats W inp formats opt st)))"
proof -
  let ?st = "st\<lparr>v_graph := 0, v_context := 0, v_output := 0, v_images := []\<rparr>"
  have start: "owns 0 0 0 {#} ?st" using assms(3) by (simp add: owns_def hand_def)
  obtain r st1 where body: "render_body W inp formats opt ?st = (r, st1)" by fastforce
  have "accounted st1"
    using render_body_hands [OF assms(1,2), of formats opt, unfolded holds_def, rule_format, OF start] body
    by (cases r) auto
  obtain r' where caught:
      "catch_op (render_body W inp formats opt) (\<lambda>e. if exit_text (exn_text e) then failure else throw e) ?st = (r', st1)"
    using body by (cases r; cases "exit_text (exn_text (projl r))") (auto simp: catch_op_def failure_def throw_def)
  have "snd (render_formats W inp formats opt st) = snd (clean_up W st1)"
    by (simp add: render_formats_def then_op_def bind_op_def update_op_def finally_op_def caught split: prod.split sum.split)
  with clean_up_releases [OF assms(1) \<open>accounted st1\<close>] show ?thesis by simp
qed

text \<open>A module for the witnesses: handles 16 (heap), 32 (graph), 48 (context) and the output at 64; a
  layout engine other than \<open>dot\<close> writes an error and fails.\<close>

definition toy_wasm :: wasm where
  "toy_wasm h c =
     (case c of
        Malloc n \<Rightarrow> Reply 16 [] [] []
      | ReadOneGraph p \<Rightarrow> Reply 32 [] [] []
      | CreateGraph n d b \<Rightarrow> Reply 32 [] [] []
      | CreateContext \<Rightarrow> Reply 48 [] [] []
      | LayoutGraph x g e \<Rightarrow>
          (if e = Some (js ''dot'') then Reply 0 [] [] []
           else Reply 1 [] [js ''Error'', js '': '', js ''no such engine''] [])
      | RenderTo x g f \<Rightarrow> Reply 64 [] [] []
      | ReadText p \<Rightarrow> Reply 0 (js ''out'') [] []
      | _ \<Rightarrow> Reply 1 [] [] [])"

definition plain_defaults :: defaults where
  "plain_defaults = \<lparr>graphAttributes = [], nodeAttributes = [], edgeAttributes = []\<rparr>"

definition plain_options :: options where
  "plain_options = \<lparr>opt_defaults = plain_defaults, opt_yInvert = False, opt_reduce = False,
     opt_engine = Some (js ''dot''), opt_images = []\<rparr>"

definition fresh_vm :: vm where
  "fresh_vm = \<lparr>log = [], agerrMessages = [], stderrMessages = [], v_graph = 0, v_context = 0, v_output = 0, v_images = []\<rparr>"

lemma toy_frees: "frees_return toy_wasm"
  by (simp add: frees_return_def toy_wasm_def)



section \<open>Objects that are rejected\<close>

text \<open>An operation of which no call is a release leaves the log's releases as they are, even when it throws.\<close>

definition nameless :: graph_obj where
  "nameless = GraphObj None None None plain_defaults [\<lparr>node_name = None, node_attributes = []\<rparr>] [] []"

text \<open>
  C36: The exception that rejects an input object leaks the graph: for an object with a node that has no
  name, any module that creates a graph at all ends the call with that graph unreleased, and no
  call in the log names it.
\<close>

theorem nameless_node_leaks:
  assumes "W (log st) (CreateGraph None True False) = Reply g t ag se" "g \<noteq> 0"
  shows "\<exists>st'. render_formats W (ObjectInput nameless) formats plain_options st =
           (Inl (ErrorExn (js ''nodes must have a name'')), st') \<and>
           log st' = log st @ [(CreateGraph None True False, g)] \<and>
           taken (log st') = taken (log st) + {#GraphR g#} \<and> given (log st') = given (log st)"
proof -
  have "\<not> exit_text (exn_text (ErrorExn (js ''nodes must have a name'')))"
    by code_simp
  then show ?thesis
    using assms
    by (simp add: render_formats_def render_body_def then_op_def bind_op_def update_op_def ret_def plain_options_def
        input_graph_def create_graph_def nameless_def ccall_def read_call_def set_defaults_def set_each_def
        plain_defaults_def add_node_def throw_def catch_op_def finally_op_def clean_up_def Let_def when_op_def
        acquires_def releases_def)
qed

theorem nameless_node_leaks_witness:
  "\<exists>st'. render_formats toy_wasm (ObjectInput nameless) [js ''svg''] plain_options fresh_vm =
           (Inl (ErrorExn (js ''nodes must have a name'')), st') \<and>
           log st' = [(CreateGraph None True False, 32)] \<and>
           taken (log st') = {#GraphR 32#} \<and> given (log st') = {#}"
  using nameless_node_leaks [of toy_wasm fresh_vm 32 "[]" "[]" "[]" "[js ''svg'']"]
  by (simp add: fresh_vm_def toy_wasm_def)

section \<open>Exits of the module\<close>

lemma exit_status_text: "\<not> exit_text (exn_text (ExitStatus n))"
  by (simp add: exn_text_def) code_simp

lemma js_dec_digits: "c \<in> set (js_dec n) \<Longrightarrow> 0x30 \<le> c \<and> c \<le> 0x39" and js_dec_not_Nil: "js_dec n \<noteq> []"
proof -
  have "(\<forall>c \<in> set (js_dec n). 0x30 \<le> c \<and> c \<le> 0x39) \<and> js_dec n \<noteq> []"
  proof (induction n rule: js_dec.induct)
    case (1 n)
    have digit: "(0x30::u16) \<le> of_nat (48 + k) \<and> of_nat (48 + k) \<le> (0x39::u16)" if "k < 10" for k :: nat
      using that by (simp add: word_le_nat_alt unat_of_nat take_bit_nat_eq_self del: of_nat_add of_nat_numeral)
    have "n mod 10 < 10" by simp
    then show ?case
      using 1 digit [of n] digit [of "n mod 10"] by (auto simp: js_dec.simps [of n] simp del: of_nat_add)
  qed
  then show "c \<in> set (js_dec n) \<Longrightarrow> 0x30 \<le> c \<and> c \<le> 0x39" "js_dec n \<noteq> []" by auto
qed

lemma exit_string_text: "exit_text (js ''exit('' @ js_dec n @ js '')'')"
proof -
  have j: "js ''exit('' = [0x65, 0x78, 0x69, 0x74, 0x28]" "js '')'' = [0x29]" by code_simp+
  have "takeWhile (\<lambda>c::u16. 0x30 \<le> c \<and> c \<le> 0x39) (js_dec n @ [0x29]) = js_dec n"
    "dropWhile (\<lambda>c::u16. 0x30 \<le> c \<and> c \<le> 0x39) (js_dec n @ [0x29]) = [0x29]"
    using js_dec_digits [of _ n] by (subst takeWhile_append2 dropWhile_append2; auto)+
  then show ?thesis using js_dec_not_Nil [of n] by (simp add: exit_text_def j Let_def)
qed

lemma clean_up_returns: "frees_return W \<Longrightarrow> v_images st = [] \<Longrightarrow> \<exists>st'. clean_up W st = (Inr (), st')"
  by (rule clean_up_run [of W st]) (simp_all add: ret_def)

text \<open>
  The handler of \<open>E\<close> is meant to turn an exit of the module into a failed rendering; it matches the
  text of the exception against \<open>exit(\<close>, digits, \<open>)\<close>. An \<open>ExitStatus\<close>, which is what \<open>exit\<close> throws, has no
  such text: the exception leaves \<open>renderFormats\<close>, while a thrown string \<open>exit(n)\<close> does give the
  failure with the messages so far.
\<close>

theorem exit_status_escapes:
  assumes "frees_return W"
    and "render_body W inp formats opt (st\<lparr>v_graph := 0, v_context := 0, v_output := 0, v_images := []\<rparr>) = (Inl e, st1)"
    and "v_images st1 = []"
  shows "(\<forall>n. e = ExitStatus n \<longrightarrow> fst (render_formats W inp formats opt st) = Inl (ExitStatus n)) \<and>
    (\<forall>n. e = ThrownString (js ''exit('' @ js_dec n @ js '')'') \<longrightarrow>
       fst (render_formats W inp formats opt st) = Inr (Failure (parse_errors st1)))"
proof -
  obtain st2 where clean: "clean_up W st1 = (Inr (), st2)"
    using clean_up_returns [OF assms(1,3)] by blast
  have result: "fst (render_formats W inp formats opt st) =
      fst ((if exit_text (exn_text e) then failure else throw e) st1)"
    by (simp add: render_formats_def then_op_def bind_op_def update_op_def finally_op_def catch_op_def assms(2)
        failure_def throw_def clean)
  then show ?thesis
    using exit_status_text exit_string_text by (auto simp: throw_def failure_def exn_text_def [of "ThrownString _"])
qed

section \<open>Outputs\<close>

lemma run_call_log:
  "run_call W c st = (Inr (), st') \<Longrightarrow> set (log st) \<subseteq> set (log st')"
  by (auto simp: run_call_def ccall_def bind_op_def read_call_def ret_def split: reply.splits)

lemma read_text_log: "read_text W p st = (Inr t, st') \<Longrightarrow> set (log st) \<subseteq> set (log st')"
  by (auto simp: read_text_def bind_op_def read_call_def ret_def split: reply.splits)

lemma render_each_success:
  assumes "render_each W x g formats out st = (Inr (Success out' errors), st')" "distinct (map fst out)"
  shows "set (map fst out') = set (map fst out) \<union> set formats \<and> distinct (map fst out') \<and>
    set (log st) \<subseteq> set (log st') \<and> (\<forall>f \<in> set formats. \<exists>p. p \<noteq> 0 \<and> (RenderTo x g f, p) \<in> set (log st')) \<and>
    errors = parse_errors st'"
  using assms
proof (induction formats arbitrary: out st)
  case Nil
  then show ?case by (auto simp: success_def)
next
  case (Cons f formats)
  obtain p t st1 st2 st3 where p: "p \<noteq> 0" "ccall W (RenderTo x g f) st = (Inr p, st1)"
    and t: "read_text W p (st1\<lparr>v_output := p\<rparr>) = (Inr t, st2)" "run_call W (Free p) st2 = (Inr (), st3)"
    and rest: "render_each W x g formats (AList.update f t out) (st3\<lparr>v_output := 0\<rparr>) = (Inr (Success out' errors), st')"
    using Cons.prems(1)
    by (auto simp: bind_op_def then_op_def update_op_def failure_def split: prod.splits sum.splits if_splits)
  have "(RenderTo x g f, p) \<in> set (log st1)" "set (log st) \<subseteq> set (log st1)"
    using p(2) by (auto simp: ccall_def bind_op_def read_call_def ret_def split: reply.splits)
  moreover have "set (log st1) \<subseteq> set (log st3)"
    using read_text_log [OF t(1)] run_call_log [OF t(2)] by simp
  moreover note Cons.IH [OF rest distinct_update [OF Cons.prems(2)]]
  ultimately show ?case using p(1) by (auto simp: update_keys)
qed

lemma render_body_success:
  assumes "render_body W inp formats opt st = (Inr (Success out errors), st')"
  shows "\<exists>x g. g \<noteq> 0 \<and> set (map fst out) = set formats \<and> distinct (map fst out) \<and>
    (\<forall>f \<in> set formats. \<exists>p. p \<noteq> 0 \<and> (RenderTo x g f, p) \<in> set (log st')) \<and> errors = parse_errors st'"
proof -
  obtain x g st1 where "g \<noteq> 0" "render_each W x g formats [] st1 = (Inr (Success out errors), st')"
    using assms
    by (auto simp: render_body_def bind_op_def then_op_def update_op_def failure_def split: prod.splits sum.splits if_splits)
  with render_each_success [OF this(2)] show ?thesis by auto
qed

text \<open>The log only grows.\<close>

definition grows :: "'a op \<Rightarrow> bool" where
  "grows m \<longleftrightarrow> (\<forall>st. set (log st) \<subseteq> set (log (snd (m st))))"

lemma grows_bind: "grows m \<Longrightarrow> (\<And>x. grows (f x)) \<Longrightarrow> grows (bind_op m f)"
  unfolding grows_def bind_op_def by (fastforce split: prod.split sum.split)

lemma grows_ccall: "grows (ccall W c)"
  by (auto simp: grows_def ccall_def bind_op_def read_call_def ret_def split: reply.split)

lemma grows_ret: "grows (ret x)"
  by (simp add: grows_def ret_def)

lemma grows_then: "grows m \<Longrightarrow> grows k \<Longrightarrow> grows (then_op m k)"
  unfolding then_op_def by (rule grows_bind)

lemma grows_run_call: "grows (run_call W c)"
  unfolding run_call_def by (intro grows_bind grows_ccall grows_ret)

lemma grows_when: "grows (when_op b (run_call W c))"
  by (simp add: when_op_def grows_ret grows_run_call)

lemma grows_images: "grows (for_each (remove_image W) files)"
  by (induction files) (simp_all add: grows_ret grows_then remove_image_def grows_bind grows_ccall grows_when)

lemma clean_up_grows: "set (log st) \<subseteq> set (log (snd (clean_up W st)))"
proof -
  have "grows (then_op (when_op b1 (run_call W c1)) (then_op (when_op b2 (run_call W c2))
      (then_op (when_op b3 (run_call W c3)) (then_op (when_op b4 (run_call W c4)) (for_each (remove_image W) files)))))"
    for b1 b2 b3 b4 c1 c2 c3 c4 files
    by (intro grows_then grows_when grows_images)
  then show ?thesis unfolding clean_up_def Let_def grows_def by blast
qed

text \<open>
  A rendering that succeeds has one output for each format that was asked for and no other, and
  each of them comes from a call of \<open>viz_render\<close> on one graph, which is not null, that gave a buffer.
\<close>

theorem render_success_complete:
  assumes "fst (render_formats W inp formats opt st) = Inr (Success out errors)"
  shows "set (map fst out) = set formats \<and> distinct (map fst out) \<and>
    (\<exists>x g. g \<noteq> 0 \<and> (\<forall>f \<in> set formats. \<exists>p. p \<noteq> 0 \<and>
       (RenderTo x g f, p) \<in> set (log (snd (render_formats W inp formats opt st)))))"
proof -
  let ?st = "st\<lparr>v_graph := 0, v_context := 0, v_output := 0, v_images := []\<rparr>"
  obtain r st1 where body: "render_body W inp formats opt ?st = (r, st1)" by fastforce
  have r: "r = Inr (Success out errors)"
    using assms body
    by (auto simp: render_formats_def then_op_def bind_op_def update_op_def finally_op_def catch_op_def failure_def
        throw_def split: sum.splits prod.splits if_splits)
  then have "snd (render_formats W inp formats opt st) = snd (clean_up W st1)"
    using body
    by (simp add: render_formats_def then_op_def bind_op_def update_op_def finally_op_def catch_op_def split: prod.split sum.split)
  with render_body_success [of W inp formats opt ?st out errors st1] body r clean_up_grows [of st1 W]
  show ?thesis by fastforce
qed

theorem render_success_complete_witness:
  "set (map fst [(js ''svg'', js ''out'')]) = set [js ''svg''] \<and> distinct (map fst [(js ''svg'', js ''out'')]) \<and>
    (\<exists>x g. g \<noteq> 0 \<and> (\<forall>f \<in> set [js ''svg'']. \<exists>p. p \<noteq> 0 \<and>
       (RenderTo x g f, p) \<in> set (log (snd (render_formats toy_wasm (TextInput (js ''graph {}'')) [js ''svg''] plain_options fresh_vm)))))"
  by (rule render_success_complete [where errors = "[]"])
    (simp add: render_formats_def render_body_def then_op_def bind_op_def update_op_def ret_def plain_options_def
      input_graph_def read_graph_def ccall_def read_call_def set_defaults_def set_each_def plain_defaults_def
      catch_op_def finally_op_def clean_up_def Let_def when_op_def toy_wasm_def fresh_vm_def run_call_def
      read_text_def success_def parse_errors_def)

definition exit_wasm :: "exn \<Rightarrow> wasm" where
  "exit_wasm e h c = (case c of Malloc n \<Rightarrow> Trap e | _ \<Rightarrow> Reply 1 [] [] [])"

lemma exit_wasm_body:
  "render_body (exit_wasm e) (TextInput t) formats plain_options
     (fresh_vm\<lparr>v_graph := 0, v_context := 0, v_output := 0, v_images := []\<rparr>) = (Inl e, fresh_vm)"
  by (simp add: render_body_def then_op_def bind_op_def update_op_def plain_options_def ret_def input_graph_def
      read_graph_def ccall_def read_call_def exit_wasm_def fresh_vm_def Let_def)

theorem exit_status_escapes_witness:
  "fst (render_formats (exit_wasm (ExitStatus 1)) (TextInput []) [js ''svg''] plain_options fresh_vm) = Inl (ExitStatus 1) \<and>
   fst (render_formats (exit_wasm (ThrownString (js ''exit('' @ js_dec 12 @ js '')''))) (TextInput []) [js ''svg''] plain_options
     fresh_vm) = Inr (Failure (parse_errors fresh_vm))"
  using exit_status_escapes [OF _ exit_wasm_body, of "ExitStatus 1"]
    exit_status_escapes [OF _ exit_wasm_body, of "ThrownString (js ''exit('' @ js_dec 12 @ js '')'')"]
  by (auto simp: frees_return_def exit_wasm_def fresh_vm_def)

section \<open>Messages\<close>

definition level_text :: "level \<Rightarrow> js_string" where
  "level_text l = (case l of LError \<Rightarrow> js ''Error'' | LWarning \<Rightarrow> js ''Warning'')"

lemma level_text_colon [simp]: "level_text l \<noteq> js '': ''"
  by (cases l) (simp_all add: level_text_def, code_simp+)

lemma parse_agerr_level: "parse_agerr k (level_text l # js '': '' # rest) = parse_agerr (Some l) rest"
proof -
  have "js ''Warning'' \<noteq> js ''Error''" by code_simp
  then show ?thesis by (cases l) (simp_all add: level_text_def)
qed

lemma parse_agerr_text:
  "parse_agerr k (m # level_text l # rest) = (trim_end m, k) # parse_agerr k (level_text l # rest)"
  by simp

text \<open>
  What Graphviz writes through its error function, a level, a colon and a text for each message,
  comes out as those messages with those levels, in order, without the white space at their ends;
  whatever the texts are.
\<close>

theorem messages_keep_level:
  "parse_agerr None (concat (map (\<lambda>(l, m). [level_text l, js '': '', m]) messages)) =
     map (\<lambda>(l, m). (trim_end m, Some l)) messages"
proof -
  have "parse_agerr k (concat (map (\<lambda>(l, m). [level_text l, js '': '', m]) messages)) =
      map (\<lambda>(l, m). (trim_end m, Some l)) messages" for k
  proof (induction messages arbitrary: k)
    case (Cons x messages)
    obtain l m where x: "x = (l, m)" by fastforce
    show ?case
    proof (cases messages)
      case Nil
      then show ?thesis by (simp add: x parse_agerr_level del: parse_agerr.simps(3))
    next
      case (Cons y ys)
      obtain l' m' where y: "y = (l', m')" by fastforce
      show ?thesis
        using Cons.IH by (simp add: x Cons y parse_agerr_level parse_agerr_text del: parse_agerr.simps(3))
    qed
  qed simp
  then show ?thesis .
qed

section \<open>The list of plugins\<close>

text \<open>An array of strings at \<open>B\<close> that ends with a null pointer.\<close>

definition replies :: "wasm \<Rightarrow> call \<Rightarrow> nat \<Rightarrow> bool" where
  "replies W c v \<longleftrightarrow> (\<forall>h. \<exists>t ag se. W h c = Reply v t ag se)"

definition spells :: "wasm \<Rightarrow> nat \<Rightarrow> js_string \<Rightarrow> bool" where
  "spells W p t \<longleftrightarrow> (\<forall>h. \<exists>v ag se. W h (ReadText p) = Reply v t ag se)"

fun listed :: "wasm \<Rightarrow> nat \<Rightarrow> (nat \<times> js_string) list \<Rightarrow> bool" where
  "listed W B [] \<longleftrightarrow> replies W (GetPointer B) 0"
| "listed W B ((p, t) # ps) \<longleftrightarrow>
     replies W (GetPointer B) p \<and> p \<noteq> 0 \<and>
     spells W p t \<and> listed W (B + 4) ps"

lemma ccall_reply:
  assumes "replies W c v"
  obtains st' where "ccall W c st = (Inr v, st')" "log st' = log st @ [(c, v)]"
proof -
  obtain t ag se where "W (log st) c = Reply v t ag se" using assms unfolding replies_def by blast
  with that show thesis by (simp add: ccall_def bind_op_def read_call_def ret_def)
qed

lemma read_text_reply:
  assumes "spells W p t"
  obtains v st' where "read_text W p st = (Inr t, st')" "log st' = log st @ [(ReadText p, v)]"
proof -
  obtain v ag se where "W (log st) (ReadText p) = Reply v t ag se" using assms unfolding spells_def by blast
  with that show thesis by (simp add: read_text_def bind_op_def read_call_def ret_def)
qed

lemma plugin_loop_listed:
  assumes "frees_return W" "listed W B ps"
  shows "\<exists>st'. plugin_loop W B found st = Some (Inr (found @ map snd ps), st') \<and>
    given (log st') = given (log st) + mset (map (\<lambda>(p, t). HeapR p) ps)"
  using assms(2)
proof (induction ps arbitrary: B found st)
  case Nil
  then obtain st' where "ccall W (GetPointer B) st = (Inr 0, st')" "log st' = log st @ [(GetPointer B, 0)]"
    using ccall_reply by (metis listed.simps(1))
  then show ?case by (simp add: plugin_loop.simps releases_def)
next
  case (Cons x ps)
  obtain p t where x: "x = (p, t)" by fastforce
  have p: "replies W (GetPointer B) p" "p \<noteq> 0"
      "spells W p t" "listed W (B + 4) ps"
    using Cons.prems by (simp_all add: x)
  obtain s1 where s1: "ccall W (GetPointer B) st = (Inr p, s1)" "log s1 = log st @ [(GetPointer B, p)]"
    by (rule ccall_reply [OF p(1)])
  obtain v s2 where s2: "read_text W p s1 = (Inr t, s2)" "log s2 = log s1 @ [(ReadText p, v)]"
    by (rule read_text_reply [OF p(3)])
  have "\<forall>e. W (log s2) (Free p) \<noteq> Trap e" using assms(1) by (simp add: frees_return_def)
  then obtain w s3 where s3: "run_call W (Free p) s2 = (Inr (), s3)" "log s3 = log s2 @ [(Free p, w)]"
    by (rule frees_run)
  obtain st' where "plugin_loop W (B + 4) (found @ [t]) s3 = Some (Inr ((found @ [t]) @ map snd ps), st')"
      "given (log st') = given (log s3) + mset (map (\<lambda>(p, t). HeapR p) ps)"
    using Cons.IH [OF p(4), of "found @ [t]" s3] by blast
  then show ?case
    using p(2) by (simp add: plugin_loop.simps [of W B] s1 s2 s3 bind_op_def then_op_def ret_def x, simp add: releases_def)
qed

text \<open>
  Where the module answers with an array of strings that ends with a null pointer, the lists
  \<open>formats\<close> and \<open>engines\<close> return, with the strings in the order of the array, and every string
  and the array itself have been freed once.
\<close>

theorem plugin_list_reads_all:
  assumes "frees_return W" "replies W (GetPluginList kind) g" "g \<noteq> 0" "listed W g ps"
  shows "\<exists>st'. plugin_list W kind st = Some (Inr (map snd ps), st') \<and>
    given (log st') = given (log st) + mset (map (\<lambda>(p, t). HeapR p) ps) + {#HeapR g#}"
proof -
  obtain s1 where s1: "ccall W (GetPluginList kind) st = (Inr g, s1)" "log s1 = log st @ [(GetPluginList kind, g)]"
    by (rule ccall_reply [OF assms(2)])
  obtain s2 where s2: "plugin_loop W g [] s1 = Some (Inr (map snd ps), s2)"
      "given (log s2) = given (log s1) + mset (map (\<lambda>(p, t). HeapR p) ps)"
    using plugin_loop_listed [OF assms(1,4), of "[]" s1] by auto
  have "\<forall>e. W (log s2) (Free g) \<noteq> Trap e" using assms(1) by (simp add: frees_return_def)
  then obtain w s3 where "run_call W (Free g) s2 = (Inr (), s3)" "log s3 = log s2 @ [(Free g, w)]"
    by (rule frees_run)
  then show ?thesis
    using assms(3) by (simp add: plugin_list_def s1 s2 then_op_def bind_op_def ret_def, simp add: releases_def)
qed

definition plugin_wasm :: wasm where
  "plugin_wasm h c =
     (case c of
        GetPluginList k \<Rightarrow> Reply 100 [] [] []
      | GetPointer p \<Rightarrow> Reply (if p = 100 then 200 else if p = 104 then 300 else 0) [] [] []
      | ReadText p \<Rightarrow> Reply 0 (if p = 200 then js ''svg'' else js ''png'') [] []
      | _ \<Rightarrow> Reply 0 [] [] [])"

theorem plugin_list_reads_all_witness:
  "\<exists>st'. plugin_list plugin_wasm (js ''device'') fresh_vm = Some (Inr [js ''svg'', js ''png''], st') \<and>
    given (log st') = {#HeapR 200, HeapR 300, HeapR 100#}"
  using plugin_list_reads_all [of plugin_wasm "js ''device''" 100 "[(200, js ''svg''), (300, js ''png'')]" fresh_vm]
  by (simp add: replies_def spells_def plugin_wasm_def frees_return_def fresh_vm_def add_mset_commute)

end
