(* ===== verification/Viz_Memfs.thy ===== *)
theory Viz_Memfs
  imports Viz_Utf8
begin

text \<open>
  The files of the in-memory file system of \<open>src/src/viz.js\<close> (\<open>MEMFS\<close>, minified \<open>$\<close>, and the stream
  functions of \<open>FS\<close>, minified \<open>gA\<close>). A file keeps its bytes in an array that is larger than the
  file; the functions grow it, overwrite it in place or replace it. The specification is a list of
  bytes with the POSIX meaning of writing beyond the end. Arrays are values: a file that takes
  over the caller's array (\<open>canOwn\<close>) is modelled at the time of the call, and nothing in the script
  asks for that. The time stamps are left out.
\<close>

section \<open>Storage\<close>

record file_node =
  contents :: "u8 list option"
  usedBytes :: nat

definition storage :: "file_node \<Rightarrow> u8 list" where
  "storage n = (case contents n of Some a \<Rightarrow> a | None \<Rightarrow> [])"

definition new_file :: file_node where
  "new_file = \<lparr>contents = None, usedBytes = 0\<rparr>"

text \<open>The new size: at least what is needed, and the old one times 2 or 1.125 (as an unsigned 32-bit
  number); at least 256 unless it is the first.\<close>

definition grown_size :: "nat \<Rightarrow> nat \<Rightarrow> nat" where
  "grown_size old need =
     (let grown = max need ((if old < 1048576 then 2 * old else 9 * old div 8) mod 2 ^ 32)
      in if old \<noteq> 0 then max grown 256 else grown)"

definition expandFileStorage :: "nat \<Rightarrow> file_node \<Rightarrow> file_node" where
  "expandFileStorage need n =
     (let old = length (storage n) in
      if need \<le> old then n
      else (let kept = take (usedBytes n) (storage n)
            in n\<lparr>contents := Some (kept @ replicate (grown_size old need - length kept) 0)\<rparr>))"

definition resizeFileStorage :: "nat \<Rightarrow> file_node \<Rightarrow> file_node" where
  "resizeFileStorage len n =
     (if usedBytes n = len then n
      else if len = 0 then \<lparr>contents = None, usedBytes = 0\<rparr>
      else (let kept = take (min len (usedBytes n)) (storage n)
            in \<lparr>contents = Some (kept @ replicate (len - length kept) 0), usedBytes = len\<rparr>))"

definition memfs_read :: "nat \<Rightarrow> nat \<Rightarrow> file_node \<Rightarrow> u8 list" where
  "memfs_read position len n =
     (if usedBytes n \<le> position then []
      else take (min (usedBytes n - position) len) (drop position (storage n)))"

definition overwrite :: "nat \<Rightarrow> u8 list \<Rightarrow> u8 list \<Rightarrow> u8 list" where
  "overwrite position data a = take position a @ data @ drop (position + length data) a"

text \<open>\<open>typed\<close>: the source is a typed array (it has \<open>subarray\<close>). \<open>own\<close>: \<open>canOwn\<close>, for a source outside the
  heap of the module.\<close>

definition memfs_write :: "bool \<Rightarrow> bool \<Rightarrow> nat \<Rightarrow> u8 list \<Rightarrow> file_node \<Rightarrow> file_node" where
  "memfs_write typed own position data n =
     (let len = length data in
      if len = 0 then n
      else if typed \<and> own then \<lparr>contents = Some data, usedBytes = len\<rparr>
      else if typed \<and> usedBytes n = 0 \<and> position = 0 then \<lparr>contents = Some data, usedBytes = len\<rparr>
      else if typed \<and> position + len \<le> usedBytes n then n\<lparr>contents := Some (overwrite position data (storage n))\<rparr>
      else (let m = expandFileStorage (position + len) n
            in m\<lparr>contents := Some (overwrite position data (storage m)),
                 usedBytes := max (usedBytes m) (position + len)\<rparr>))"

definition memfs_allocate :: "nat \<Rightarrow> nat \<Rightarrow> file_node \<Rightarrow> file_node" where
  "memfs_allocate offset len n =
     (let m = expandFileStorage (offset + len) n in m\<lparr>usedBytes := max (usedBytes m) (offset + len)\<rparr>)"

section \<open>Streams\<close>

text \<open>The error numbers that the functions throw.\<close>

datatype errno = ErrnoError nat

record stream =
  st_closed :: bool
  st_seekable :: bool
  st_flags :: "32 word"
  st_position :: nat

text \<open>The access mode, and the flag to append.\<close>

definition access_mode :: "stream \<Rightarrow> 32 word" where
  "access_mode s = and 2097155 (st_flags s)"

definition appends :: "stream \<Rightarrow> bool" where
  "appends s \<longleftrightarrow> and 1024 (st_flags s) \<noteq> 0"

text \<open>\<open>FS.llseek\<close> on a file.\<close>

definition llseek :: "int \<Rightarrow> nat \<Rightarrow> file_node \<Rightarrow> stream \<Rightarrow> errno + stream" where
  "llseek offset whence n s =
     (if st_closed s then Inl (ErrnoError 8)
      else if \<not> st_seekable s then Inl (ErrnoError 70)
      else if whence \<noteq> 0 \<and> whence \<noteq> 1 \<and> whence \<noteq> 2 then Inl (ErrnoError 28)
      else (let position = offset + (if whence = 1 then int (st_position s) else if whence = 2 then int (usedBytes n) else 0)
            in if position < 0 then Inl (ErrnoError 28) else Inr (s\<lparr>st_position := nat position\<rparr>)))"

text \<open>\<open>FS.read\<close>: \<open>at\<close> is the position argument, None if it is not given.\<close>

definition fs_read :: "int \<Rightarrow> int option \<Rightarrow> file_node \<Rightarrow> stream \<Rightarrow> errno + u8 list \<times> stream" where
  "fs_read len at n s =
     (if len < 0 \<or> (case at of Some p \<Rightarrow> p < 0 | None \<Rightarrow> False) then Inl (ErrnoError 28)
      else if st_closed s then Inl (ErrnoError 8)
      else if access_mode s = 1 then Inl (ErrnoError 8)
      else case at of
             Some p \<Rightarrow> if \<not> st_seekable s then Inl (ErrnoError 70) else Inr (memfs_read (nat p) (nat len) n, s)
           | None \<Rightarrow> (let bytes = memfs_read (st_position s) (nat len) n
                     in Inr (bytes, s\<lparr>st_position := st_position s + length bytes\<rparr>)))"

text \<open>\<open>FS.write\<close>, from a typed array; the position of an appending stream is set even if one is given.\<close>

definition fs_write :: "bool \<Rightarrow> u8 list \<Rightarrow> int option \<Rightarrow> file_node \<Rightarrow> stream \<Rightarrow> errno + file_node \<times> stream" where
  "fs_write own data at n s =
     (if (case at of Some p \<Rightarrow> p < 0 | None \<Rightarrow> False) then Inl (ErrnoError 28)
      else if st_closed s then Inl (ErrnoError 8)
      else if access_mode s = 0 then Inl (ErrnoError 8)
      else case (if st_seekable s \<and> appends s then llseek 0 2 n s else Inr s) of
             Inl e \<Rightarrow> Inl e
           | Inr s1 \<Rightarrow>
               (case at of
                  Some p \<Rightarrow> if \<not> st_seekable s1 then Inl (ErrnoError 70) else Inr (memfs_write True own (nat p) data n, s1)
                | None \<Rightarrow> Inr (memfs_write True own (st_position s1) data n, s1\<lparr>st_position := st_position s1 + length data\<rparr>)))"

text \<open>\<open>FS.open\<close> of an existing file (512: truncate), and \<open>writeFile\<close> and \<open>readFile\<close> on it. The bits
  128, 512 and 131072 are cleared in the flags of the stream.\<close>

definition open_file :: "32 word \<Rightarrow> file_node \<Rightarrow> file_node \<times> stream" where
  "open_file flags n =
     (if and 512 flags \<noteq> 0 then resizeFileStorage 0 n else n,
      \<lparr>st_closed = False, st_seekable = True, st_flags = and (- 131713) flags, st_position = 0\<rparr>)"

definition write_file :: "u8 list \<Rightarrow> file_node \<Rightarrow> errno + file_node" where
  "write_file data n =
     (case open_file 577 n of (n1, s) \<Rightarrow>
        (case fs_write False data None n1 s of Inl e \<Rightarrow> Inl e | Inr (n2, s2) \<Rightarrow> Inr n2))"

definition read_file :: "file_node \<Rightarrow> errno + u8 list" where
  "read_file n =
     (case open_file 0 n of (n1, s) \<Rightarrow>
        (case fs_read (int (usedBytes n1)) (Some 0) n1 s of Inl e \<Rightarrow> Inl e | Inr (bytes, s2) \<Rightarrow> Inr bytes))"

section \<open>The contents of a file\<close>

definition file_ok :: "file_node \<Rightarrow> bool" where
  "file_ok n \<longleftrightarrow> usedBytes n \<le> length (storage n) \<and> (\<forall>i. usedBytes n \<le> i \<and> i < length (storage n) \<longrightarrow> storage n ! i = 0)"

definition file_bytes :: "file_node \<Rightarrow> u8 list" where
  "file_bytes n = take (usedBytes n) (storage n)"

definition zeros :: "nat \<Rightarrow> u8 list" where
  "zeros k = replicate k 0"

text \<open>The meaning of a write: nothing happens for no data; a gap between the end and the position is
  filled with zeros.\<close>

definition overlay :: "nat \<Rightarrow> u8 list \<Rightarrow> u8 list \<Rightarrow> u8 list" where
  "overlay position data xs =
     (if data = [] then xs
      else take position (xs @ zeros (position - length xs)) @ data @ drop (position + length data) xs)"

lemma storage_simps [simp]:
  "storage (n\<lparr>contents := Some a\<rparr>) = a" "storage (n\<lparr>usedBytes := k\<rparr>) = storage n"
  "storage \<lparr>contents = Some a, usedBytes = k\<rparr> = a" "storage \<lparr>contents = None, usedBytes = k\<rparr> = []"
  by (simp_all add: storage_def)

lemma file_ok_split:
  "file_ok n \<longleftrightarrow> usedBytes n \<le> length (storage n) \<and> storage n = file_bytes n @ zeros (length (storage n) - usedBytes n)"
proof -
  have "(\<forall>i. u \<le> i \<and> i < length a \<longrightarrow> a ! i = 0) \<longleftrightarrow> a = take u a @ zeros (length a - u)" if "u \<le> length a" for u and a :: "u8 list"
  proof
    assume z: "\<forall>i. u \<le> i \<and> i < length a \<longrightarrow> a ! i = 0"
    show "a = take u a @ zeros (length a - u)"
      by (rule nth_equalityI) (use that z in \<open>auto simp: zeros_def nth_append\<close>)
  next
    assume "a = take u a @ zeros (length a - u)"
    then have "a ! i = (take u a @ zeros (length a - u)) ! i" for i by simp
    then show "\<forall>i. u \<le> i \<and> i < length a \<longrightarrow> a ! i = 0"
      using that by (auto simp: zeros_def nth_append split: if_splits)
  qed
  then show ?thesis unfolding file_ok_def file_bytes_def by blast
qed

lemma length_file_bytes: "file_ok n \<Longrightarrow> length (file_bytes n) = usedBytes n"
  by (simp add: file_ok_def file_bytes_def)

lemma take_replicate_append: "take n (xs @ zeros k) = take n xs @ zeros (min (n - length xs) k)"
  by (simp add: zeros_def)

lemma take_zeros:
  assumes "u \<le> length f + k"
  shows "take u (f @ zeros k) = take u (f @ zeros (u - length f))"
proof -
  have "u - length f \<le> k" using assms by arith
  then show ?thesis by (simp add: zeros_def min_absorb1)
qed

lemma grown_size_ge: "need \<le> grown_size old need"
  by (simp add: grown_size_def Let_def le_max_iff_disj)

lemma grown_size_le:
  assumes "old < need"
  shows "grown_size old need \<le> max 256 (2 * need)"
proof -
  define g where "g = (if old < 1048576 then 2 * old else 9 * old div 8) mod 2 ^ 32"
  have "g \<le> (if old < 1048576 then 2 * old else 9 * old div 8)"
    unfolding g_def by (rule mod_less_eq_dividend)
  also have "\<dots> \<le> 2 * need" using assms by auto
  finally have "g \<le> 2 * need" .
  then show ?thesis unfolding grown_size_def Let_def g_def [symmetric] by (auto simp: max_def)
qed

text \<open>Growing changes neither the file nor its end, and makes room.\<close>

lemma expand_ok:
  assumes "file_ok n"
  shows "file_ok (expandFileStorage need n)" "file_bytes (expandFileStorage need n) = file_bytes n"
    "usedBytes (expandFileStorage need n) = usedBytes n" "need \<le> length (storage (expandFileStorage need n))"
    "length (storage (expandFileStorage need n)) \<le> max (length (storage n)) (max 256 (2 * need))"
proof -
  let ?m = "expandFileStorage need n"
  show u: "usedBytes ?m = usedBytes n" by (simp add: expandFileStorage_def Let_def)
  have kept: "length (take (usedBytes n) (storage n)) = usedBytes n" using assms by (simp add: file_ok_def)
  show "need \<le> length (storage ?m)"
    using grown_size_ge [of need "length (storage n)"] by (auto simp: expandFileStorage_def Let_def)
  show "length (storage ?m) \<le> max (length (storage n)) (max 256 (2 * need))"
    using grown_size_le [of "length (storage n)" need] kept assms
    by (auto simp: expandFileStorage_def Let_def file_ok_def max_def)
  show b: "file_bytes ?m = file_bytes n"
    using kept by (simp add: expandFileStorage_def Let_def file_bytes_def)
  show "file_ok ?m"
    using assms kept unfolding file_ok_split
    by (auto simp: expandFileStorage_def Let_def file_bytes_def zeros_def)
qed

lemma overwrite_padded:
  assumes "position + length data \<le> length f + k" "data \<noteq> []"
  shows "overwrite position data (f @ zeros k) =
    overlay position data f @ zeros (length f + k - max (length f) (position + length data))"
proof -
  have "take position (f @ zeros k) = take position (f @ zeros (position - length f))"
    using assms(1) by (intro take_zeros) arith
  moreover have "drop (position + length data) (f @ zeros k) =
      drop (position + length data) f @ zeros (length f + k - max (length f) (position + length data))"
    using assms(1) by (cases "position + length data \<le> length f") (simp_all add: zeros_def)
  ultimately show ?thesis using assms(2) by (simp add: overwrite_def overlay_def)
qed

lemma length_overlay: "data \<noteq> [] \<Longrightarrow> length (overlay position data f) = max (length f) (position + length data)"
  by (cases "position \<le> length f"; cases "position + length data \<le> length f") (simp_all add: overlay_def zeros_def)

lemma overwrite_ok:
  assumes "file_ok n" "position + length data \<le> length (storage n)" "data \<noteq> []"
    and "m = n\<lparr>contents := Some (overwrite position data (storage n)), usedBytes := max (usedBytes n) (position + length data)\<rparr>"
  shows "file_ok m \<and> file_bytes m = overlay position data (file_bytes n)"
proof -
  define f k where "f = file_bytes n" and "k = length (storage n) - usedBytes n"
  have s: "storage n = f @ zeros k" and len: "length f = usedBytes n"
    using assms(1) length_file_bytes file_ok_split unfolding f_def k_def by blast+
  have "length f + k = length (storage n)" by (simp add: s zeros_def)
  then have o: "storage m = overlay position data f @ zeros (length f + k - max (length f) (position + length data))"
    using overwrite_padded [of position data f k] assms(2,3) by (simp add: assms(4) s)
  have um: "usedBytes m = length (overlay position data f)"
    by (simp add: assms(4) length_overlay [OF assms(3)] len)
  then have "file_bytes m = overlay position data f" unfolding file_bytes_def o by simp
  moreover from this have "file_ok m" unfolding file_ok_split using o um by (simp add: zeros_def)
  ultimately show ?thesis by (simp add: f_def)
qed

lemma memfs_write_ok:
  assumes "file_ok n" "\<not> own \<or> position = 0 \<and> usedBytes n \<le> length data"
  shows "file_ok (memfs_write typed own position data n) \<and>
    file_bytes (memfs_write typed own position data n) = overlay position data (file_bytes n)"
proof (cases "data = []")
  case True
  with assms(1) show ?thesis by (simp add: memfs_write_def overlay_def)
next
  case False
  have whole: "file_ok \<lparr>contents = Some data, usedBytes = length data\<rparr> \<and>
      file_bytes \<lparr>contents = Some data, usedBytes = length data\<rparr> = overlay position data (file_bytes n)"
    if "position = 0" "usedBytes n \<le> length data"
    using that False length_file_bytes [OF assms(1)]
    by (auto simp: file_ok_def file_bytes_def [of "\<lparr>contents = _, usedBytes = _\<rparr>"] overlay_def)
  have len: "length (file_bytes n) = usedBytes n" by (rule length_file_bytes [OF assms(1)])
  consider "typed \<and> own" | "typed \<and> \<not> own \<and> usedBytes n = 0 \<and> position = 0"
    | "typed \<and> \<not> own \<and> \<not> (usedBytes n = 0 \<and> position = 0) \<and> position + length data \<le> usedBytes n"
    | "\<not> (typed \<and> own) \<and> \<not> (typed \<and> usedBytes n = 0 \<and> position = 0) \<and> \<not> (typed \<and> position + length data \<le> usedBytes n)"
    by blast
  then show ?thesis
  proof cases
    case 1
    with whole assms(2) False show ?thesis by (simp add: memfs_write_def Let_def)
  next
    case 2
    with whole False show ?thesis by (simp add: memfs_write_def Let_def)
  next
    case 3
    have room: "position + length data \<le> length (storage n)" using 3 assms(1) by (simp add: file_ok_def)
    have "n\<lparr>contents := Some (overwrite position data (storage n))\<rparr> =
        n\<lparr>contents := Some (overwrite position data (storage n)), usedBytes := max (usedBytes n) (position + length data)\<rparr>"
      using 3 by (simp add: max_absorb1)
    moreover have "memfs_write typed own position data n = n\<lparr>contents := Some (overwrite position data (storage n))\<rparr>"
      using 3 False by (auto simp: memfs_write_def Let_def)
    ultimately show ?thesis using overwrite_ok [OF assms(1) room False] by metis
  next
    case 4
    let ?m = "expandFileStorage (position + length data) n"
    note e = expand_ok [OF assms(1), of "position + length data"]
    have "memfs_write typed own position data n =
        ?m\<lparr>contents := Some (overwrite position data (storage ?m)), usedBytes := max (usedBytes ?m) (position + length data)\<rparr>"
      using 4 False by (auto simp: memfs_write_def Let_def)
    with overwrite_ok [OF e(1,4) False] e(2) show ?thesis by metis
  qed
qed

lemma expand_storage:
  "file_ok n \<Longrightarrow> storage n = file_bytes n @ zeros (length (storage n) - usedBytes n)"
  by (simp add: file_ok_split)

lemma file_ok_new [simp]: "file_ok new_file" "file_bytes new_file = []" "storage new_file = []"
  by (simp_all add: file_ok_def file_bytes_def new_file_def)

text \<open>The meaning of a truncation or an extension to a length, and of an allocation.\<close>

definition fit :: "nat \<Rightarrow> u8 list \<Rightarrow> u8 list" where
  "fit len xs = take len (xs @ zeros (len - length xs))"

lemma length_fit [simp]: "length (fit len xs) = len"
  by (simp add: fit_def zeros_def)

lemma exact_ok: "usedBytes m = length (storage m) \<Longrightarrow> file_ok m \<and> file_bytes m = storage m"
  by (auto simp: file_ok_def file_bytes_def)

lemma resize_ok:
  assumes "file_ok n"
  shows "file_ok (resizeFileStorage len n) \<and> file_bytes (resizeFileStorage len n) = fit len (file_bytes n) \<and>
    length (storage (resizeFileStorage len n)) \<le> max (length (storage n)) len"
proof (cases "usedBytes n = len")
  case True
  with assms length_file_bytes [OF assms] show ?thesis by (simp add: resizeFileStorage_def fit_def zeros_def)
next
  case False
  let ?m = "resizeFileStorage len n"
  have st: "storage ?m = fit len (file_bytes n)" "usedBytes ?m = len"
    using False assms by (auto simp: resizeFileStorage_def Let_def fit_def zeros_def file_ok_def file_bytes_def min_def)
  then show ?thesis using exact_ok [of ?m] by simp
qed

lemma allocate_ok:
  assumes "file_ok n"
  shows "file_ok (memfs_allocate offset len n) \<and>
    file_bytes (memfs_allocate offset len n) = fit (max (length (file_bytes n)) (offset + len)) (file_bytes n) \<and>
    storage (memfs_allocate offset len n) = storage (expandFileStorage (offset + len) n)"
proof -
  let ?e = "expandFileStorage (offset + len) n"
  note e = expand_ok [OF assms, of "offset + len"]
  have s: "storage ?e = file_bytes n @ zeros (length (storage ?e) - usedBytes n)"
    using expand_storage [OF e(1)] by (simp add: e(2,3))
  have len: "length (file_bytes n) = usedBytes n" by (rule length_file_bytes [OF assms])
  have room: "max (usedBytes n) (offset + len) \<le> length (storage ?e)" using e(1,3,4) by (simp add: file_ok_def)
  have "file_ok (?e\<lparr>usedBytes := max (usedBytes ?e) (offset + len)\<rparr>)"
    using e(1) room by (simp add: file_ok_def e(3))
  moreover have "file_bytes (?e\<lparr>usedBytes := max (usedBytes ?e) (offset + len)\<rparr>) = fit (max (usedBytes n) (offset + len)) (file_bytes n)"
    using take_zeros [of "max (usedBytes n) (offset + len)" "file_bytes n" "length (storage ?e) - usedBytes n"] s room len
    by (simp add: file_bytes_def [of "_\<lparr>usedBytes := _\<rparr>"] e(3) fit_def)
  ultimately show ?thesis by (simp add: memfs_allocate_def Let_def len)
qed

lemma read_ok:
  assumes "file_ok n"
  shows "memfs_read position len n = take len (drop position (file_bytes n))"
  by (auto simp: memfs_read_def file_bytes_def drop_take min.commute)

section \<open>A file as a list of bytes\<close>

text \<open>What a user of a file relies on: the bytes that a read returns and that a write leaves.\<close>

locale byte_file =
  fixes ok :: "'f \<Rightarrow> bool"
    and bytes :: "'f \<Rightarrow> u8 list"
    and put :: "nat \<Rightarrow> u8 list \<Rightarrow> 'f \<Rightarrow> 'f"
    and get :: "nat \<Rightarrow> nat \<Rightarrow> 'f \<Rightarrow> u8 list"
  assumes put_ok: "ok f \<Longrightarrow> ok (put position data f)"
    and bytes_put: "ok f \<Longrightarrow> bytes (put position data f) = overlay position data (bytes f)"
    and get_bytes: "ok f \<Longrightarrow> get position len f = take len (drop position (bytes f))"
begin

lemma get_put: "ok f \<Longrightarrow> get position (length data) (put position data f) = data"
  by (simp add: get_bytes put_ok bytes_put overlay_def zeros_def)

lemma get_put_before:
  assumes "ok f" "q + len \<le> position" "q + len \<le> length (bytes f)"
  shows "get q len (put position data f) = get q len f"
proof -
  have "take (q + len) (overlay position data (bytes f)) = take (q + len) (bytes f)"
    using assms(2,3) by (simp add: overlay_def zeros_def min_absorb1)
  then show ?thesis using assms(1) by (simp add: get_bytes put_ok bytes_put take_drop add.commute)
qed

lemma get_put_after:
  assumes "ok f" "position + length data \<le> q"
  shows "get q len (put position data f) = get q len f"
proof -
  have "drop q (overlay position data (bytes f)) = drop q (bytes f)"
    using assms(2) by (auto simp: overlay_def zeros_def min_def)
  then show ?thesis using assms(1) by (simp add: get_bytes put_ok bytes_put)
qed

lemma bytes_append: "ok f \<Longrightarrow> bytes (put (length (bytes f)) data f) = bytes f @ data"
  by (simp add: bytes_put overlay_def zeros_def)

lemma bytes_append_all:
  "ok f \<Longrightarrow> bytes (fold (\<lambda>data f. put (length (bytes f)) data f) chunks f) = bytes f @ concat chunks"
  by (induction chunks arbitrary: f) (simp_all add: put_ok bytes_append)

end

interpretation mf: byte_file file_ok file_bytes "memfs_write typed False" memfs_read for typed
  by unfold_locales (simp_all add: memfs_write_ok read_ok)

section \<open>Any sequence of operations on a file\<close>

datatype memfs_op = Write bool nat "u8 list" | Truncate nat | Allocate nat nat

fun memfs_do :: "memfs_op \<Rightarrow> file_node \<Rightarrow> file_node" where
  "memfs_do (Write typed position data) n = memfs_write typed False position data n"
| "memfs_do (Truncate len) n = resizeFileStorage len n"
| "memfs_do (Allocate offset len) n = memfs_allocate offset len n"

fun bytes_do :: "memfs_op \<Rightarrow> u8 list \<Rightarrow> u8 list" where
  "bytes_do (Write typed position data) xs = overlay position data xs"
| "bytes_do (Truncate len) xs = fit len xs"
| "bytes_do (Allocate offset len) xs = fit (max (length xs) (offset + len)) xs"

text \<open>The end of the bytes that an operation touches.\<close>

fun op_end :: "memfs_op \<Rightarrow> nat" where
  "op_end (Write typed position data) = position + length data"
| "op_end (Truncate len) = len"
| "op_end (Allocate offset len) = offset + len"

lemma memfs_write_storage:
  assumes "file_ok n"
  shows "length (storage (memfs_write typed False position data n)) \<le>
    max (length (storage n)) (max 256 (2 * (position + length data)))"
  using expand_ok(4,5) [OF assms, of "position + length data"] assms
  by (auto simp: memfs_write_def Let_def overwrite_def file_ok_def)

lemma memfs_do_ok:
  assumes "file_ok n"
  shows "file_ok (memfs_do c n) \<and> file_bytes (memfs_do c n) = bytes_do c (file_bytes n) \<and>
    length (storage (memfs_do c n)) \<le> max (length (storage n)) (max 256 (2 * op_end c))"
proof (cases c)
  case (Write typed position data)
  with memfs_write_ok [OF assms] memfs_write_storage [OF assms] show ?thesis by simp
next
  case (Truncate len)
  with resize_ok [OF assms, of len] show ?thesis by (auto simp: max_def split: if_splits)
next
  case (Allocate offset len)
  with allocate_ok [OF assms, of offset len] expand_ok(5) [OF assms, of "offset + len"] show ?thesis by simp
qed

lemma memfs_run_ok:
  assumes "file_ok n" "length (storage n) \<le> max 256 (2 * m)" "\<forall>c \<in> set cs. op_end c \<le> m"
  shows "file_ok (fold memfs_do cs n) \<and> file_bytes (fold memfs_do cs n) = fold bytes_do cs (file_bytes n) \<and>
    length (storage (fold memfs_do cs n)) \<le> max 256 (2 * m)"
  using assms
proof (induction cs arbitrary: n)
  case (Cons c cs)
  have "length (storage (memfs_do c n)) \<le> max 256 (2 * m)"
    using memfs_do_ok [OF Cons.prems(1), of c] Cons.prems(2,3) by auto
  with Cons.IH [of "memfs_do c n"] Cons.prems(3) memfs_do_ok [OF Cons.prems(1), of c] show ?case by simp
qed simp

text \<open>C32: The storage of a file refines a list of bytes: after any sequence of writes, truncations and
  allocations from a new file, every read returns the bytes that the list holds (gaps are zeros, what a
  truncation cut off does not come back), and the array never takes more than twice what the
  operations reached, or 256 bytes.\<close>

theorem memfs_refines_bytes:
  "memfs_read position len (fold memfs_do cs new_file) = take len (drop position (fold bytes_do cs [])) \<and>
   usedBytes (fold memfs_do cs new_file) = length (fold bytes_do cs []) \<and>
   length (storage (fold memfs_do cs new_file)) \<le> max 256 (2 * foldr max (map op_end cs) 0)"
proof -
  have "op_end c \<le> foldr max (map op_end cs) 0" if "c \<in> set cs" for c
    using that by (induction cs) auto
  then have "file_ok (fold memfs_do cs new_file) \<and> file_bytes (fold memfs_do cs new_file) = fold bytes_do cs [] \<and>
      length (storage (fold memfs_do cs new_file)) \<le> max 256 (2 * foldr max (map op_end cs) 0)"
    using memfs_run_ok [of new_file "foldr max (map op_end cs) 0" cs] by simp
  then show ?thesis using read_ok length_file_bytes by metis
qed

section \<open>Streams on a file\<close>

text \<open>What is written to a file with \<open>writeFile\<close> is what \<open>readFile\<close> returns, whatever the file held.\<close>

theorem write_file_read_file:
  "\<exists>m. write_file data n = Inr m \<and> read_file m = Inr data"
proof -
  have open1: "open_file 577 n = (resizeFileStorage 0 n, \<lparr>st_closed = False, st_seekable = True, st_flags = 65, st_position = 0\<rparr>)"
    by (simp add: open_file_def)
  have none: "usedBytes (resizeFileStorage 0 n) = 0" by (simp add: resizeFileStorage_def)
  have "write_file data n = Inr (memfs_write True False 0 data (resizeFileStorage 0 n))"
    by (simp add: write_file_def open1 fs_write_def access_mode_def appends_def)
  moreover have "file_bytes (memfs_write True False 0 data (resizeFileStorage 0 n)) = data"
      "usedBytes (memfs_write True False 0 data (resizeFileStorage 0 n)) = length data"
    using none by (cases "data = []"; simp add: memfs_write_def Let_def file_bytes_def)+
  moreover have "read_file m = Inr (file_bytes m)" for m
    by (simp add: read_file_def open_file_def fs_read_def access_mode_def memfs_read_def file_bytes_def)
  ultimately show ?thesis by metis
qed


text \<open>Streams that append: the writes of any of them, in any order, go to the end.\<close>

definition append_stream :: "stream \<Rightarrow> bool" where
  "append_stream s \<longleftrightarrow> \<not> st_closed s \<and> st_seekable s \<and> access_mode s \<noteq> 0 \<and> appends s"

definition append_streams :: "(nat \<Rightarrow> stream) \<Rightarrow> bool" where
  "append_streams ss \<longleftrightarrow> (\<forall>i. append_stream (ss i))"

fun write_turns :: "(nat \<times> u8 list) list \<Rightarrow> file_node \<Rightarrow> (nat \<Rightarrow> stream) \<Rightarrow> errno + file_node \<times> (nat \<Rightarrow> stream)" where
  "write_turns [] n ss = Inr (n, ss)"
| "write_turns ((i, data) # turns) n ss =
     (case fs_write False data None n (ss i) of
        Inl e \<Rightarrow> Inl e
      | Inr (m, s) \<Rightarrow> write_turns turns m (ss(i := s)))"

lemma append_write:
  assumes "file_ok n" "append_stream s"
  shows "\<exists>m t. fs_write False data None n s = Inr (m, t) \<and> file_ok m \<and> append_stream t \<and>
    file_bytes m = file_bytes n @ data \<and> st_position t = usedBytes m"
proof -
  let ?m = "memfs_write True False (usedBytes n) data n"
  let ?t = "s\<lparr>st_position := usedBytes n + length data\<rparr>"
  have "fs_write False data None n s = Inr (?m, ?t)"
    using assms(2) by (simp add: append_stream_def fs_write_def llseek_def)
  moreover have "file_ok ?m" "file_bytes ?m = file_bytes n @ data"
    using mf.put_ok [OF assms(1)] mf.bytes_append [OF assms(1), of True data] length_file_bytes [OF assms(1)] by simp_all
  moreover from this have "usedBytes ?m = usedBytes n + length data"
    using length_file_bytes [OF assms(1)] length_file_bytes [of ?m] by simp
  moreover have "append_stream ?t" using assms(2) by (simp add: append_stream_def access_mode_def appends_def)
  ultimately show ?thesis by simp
qed

text \<open>Any number of streams that append to one file, writing in any order: no write fails, none
  overwrites another, and the file holds what it held, then the writes in their order.\<close>

theorem appends_never_overwrite:
  assumes "file_ok n" "append_streams ss"
  shows "\<exists>m tt. write_turns turns n ss = Inr (m, tt) \<and> file_bytes m = file_bytes n @ concat (map snd turns) \<and>
    append_streams tt"
  using assms
proof (induction turns n ss rule: write_turns.induct)
  case (2 i data turns n ss)
  obtain m t where w: "fs_write False data None n (ss i) = Inr (m, t)" "file_ok m" "append_stream t"
      "file_bytes m = file_bytes n @ data"
    using append_write [OF "2.prems"(1), of "ss i" data] "2.prems"(2) by (auto simp: append_streams_def)
  have step: "write_turns ((i, data) # turns) n ss = write_turns turns m (ss(i := t))" by (simp add: w(1))
  have "append_streams (ss(i := t))" using "2.prems"(2) w(3) by (simp add: append_streams_def)
  from "2.IH" [OF w(1) refl w(2) this] obtain k tt where
    "write_turns turns m (ss(i := t)) = Inr (k, tt)" "file_bytes k = file_bytes m @ concat (map snd turns)" "append_streams tt"
    by blast
  then show ?case unfolding step by (simp add: w(4))
qed simp

lemma appends_never_overwrite_witness:
  "\<exists>m tt. write_turns [(0, [1, 2]), (7, [3]), (0, [4])] new_file (\<lambda>i. snd (open_file 1025 new_file)) = Inr (m, tt) \<and>
     file_bytes m = [1, 2, 3, 4]"
proof -
  have "append_streams (\<lambda>i. snd (open_file 1025 new_file))"
    by (simp add: append_streams_def append_stream_def open_file_def access_mode_def appends_def)
  from appends_never_overwrite [OF file_ok_new(1) this, of "[(0, [1, 2]), (7, [3]), (0, [4])]"]
  show ?thesis by auto
qed


end
