(* ===== verification/Spec2Isabelle.thy ===== *)
theory Spec2Isabelle
  imports Daemon_Correct Semantic_Correct Dot_Correct Receipt_Correct Experiment_Correct Receipt_Requests Viz_Notice Viz_Render_Correct Viz_Memfs
begin

text \<open>
  A verification development for syscon, a daemon that listens to the Linux audit stream, follows what
  the processes of containers do during the actions of an agent, computes how influence (taint)
  flows between them, and serves receipts and graphs over HTTP; the graphs are rendered in the
  browser by the bundled \<open>viz.js\<close>.

  The parts and how they interact. The kernel's audit records arrive on a netlink socket
  (\<open>audit.rs\<close>); \<open>try_recv\<close> parses them (\<open>audit_parse.rs\<close>) and assembles the records of one event
  into a group. The receiving thread (\<open>daemon.rs\<close>) finds the container of each group
  (\<open>docker.rs\<close>), classifies it (\<open>syscalls.rs\<close>, \<open>ingest.rs\<close>, \<open>util.rs\<close>) and pushes an event to a
  shared buffer. Every 200 ms the processor takes the buffer and dispatches its events, in
  chunks, to the handlers (\<open>handlers.rs\<close>), which update the state of the container (\<open>state.rs\<close>,
  \<open>events.rs\<close>). HTTP requests (\<open>control.rs\<close>) start and end actions in between; ending one builds
  the flow edges and propagates the taint.

  Foundations.
  \<^item> \<open>Prelude\<close>: widths, panics as None, hash maps as association lists with one entry per key (the
    order in which Rust iterates is an argument, \<open>hash_order\<close>), saturating and checked arithmetic.
  \<^item> \<open>Rust_Str\<close>, \<open>Rust_Text\<close>: the string operations the code uses, on bytes; decimal and
    hexadecimal numbers, UTF-8 validity and lossy conversion. \<open>Float64\<close>: the two operations of
    binary64 arithmetic that taint scores use, with rounding to even.
  \<^item> \<open>Demux\<close>: the interface (a locale) of a routine that serves interleaved streams from one state,
    slot by slot; interpreted on the record assembler and on the batch processor.

  Components.
  \<^item> \<open>Audit_Parse\<close> is \<open>audit_parse.rs\<close>; \<open>Audit_Format\<close> renders records as the kernel does and
    proves that they parse back, and where the header parser panics.
  \<^item> \<open>Audit_Records\<close> is \<open>try_recv\<close> of \<open>audit.rs\<close> on a given outcome of \<open>recv\<close>, with the address and path
    decoding (\<open>Net_Addr\<close>, \<open>Docker\<close>); \<open>Audit_Assembly\<close> proves that interleaved events are assembled
    independently, that each completed event is emitted once, that host events never are.
  \<^item> \<open>Syscalls\<close> and \<open>Ingest\<close> are the table of call names and the classification.
  \<^item> \<open>Events\<close>, \<open>Paths\<close>, \<open>State\<close>, \<open>Taint\<close> are \<open>events.rs\<close> and \<open>state.rs\<close>; \<open>Taint_Correct\<close> proves that the
    propagation returns, with the least fixpoint of the decay along the edges above the start.
    The code loops until a pass raises nothing; the model is a partial function, and the proof of
    termination counts the representable scores, so no fuel is chosen.
  \<^item> \<open>Handlers\<close> is \<open>handlers.rs\<close>. \<open>Handler_Laws\<close> states the contract of the operations that the
    handlers are composed of as a locale, \<open>container_invariant\<close>, and interprets it for each invariant
    and frame (process table, graph, logs, node maps, who sent, received, wrote and read);
    \<open>Container_Correct\<close> draws the properties of whole event sequences from it.
  \<^item> \<open>Control\<close> is the part of \<open>control.rs\<close> that reads and writes the state, with the choice that
    \<open>generate_receipt\<close> of \<open>receipt.rs\<close> makes; \<open>Control_Correct\<close> has its invariant and the life of an action.
  \<^item> \<open>Daemon\<close> is \<open>daemon.rs\<close>. \<open>Daemon_Correct\<close> has its properties and the transition system of buffer,
    processor and requests (\<open>world_step\<close>), whose steps are as large as the code's locks allow:
    a push, the taking of the buffer, one chunk of 32 events, one request.
  \<^item> \<open>Communities\<close> is \<open>communities.rs\<close>; \<open>Communities_Correct\<close> proves that the searches end, that the
    union-find structure represents exactly the merged indices, and that the communities are the
    classes of a relation. \<open>Mitre\<close> and \<open>Semantic\<close> are \<open>mitre.rs\<close> and \<open>semantic.rs\<close>; \<open>Semantic_Correct\<close> proves what
    the summary reports and which rules are dead.
  \<^item> \<open>Graph\<close> and \<open>Dot\<close> are \<open>graph.rs\<close>: the functions on texts, paths and colours, and the two documents,
    built as lists of statements that are then written out, so the text is that of the code;
    \<open>Dot_Correct\<close> proves which ends of edges are declared nodes, when drawing panics, and that
    wrapping keeps a text. The requests for graphs of \<open>control.rs\<close> are at the end of \<open>Dot\<close>.
  \<^item> \<open>Receipt_Files\<close> and \<open>Receipt\<close> are \<open>receipt.rs\<close>, with the texts that \<open>semantic.rs\<close> and \<open>communities.rs\<close>
    write into receipts. \<open>Receipt_Files\<close> proves what a compressed list of files stands for and when the
    compression panics; \<open>Receipt_Correct\<close> that a receipt is written otherwise, that it counts every
    execution, reports the flows from earlier actions and loses nothing when it merges lines;
    \<open>Experiment_Correct\<close> which flows between containers are listed and which identifiers panic.
    \<open>Receipt_Requests\<close> has the listings and the requests for receipts of \<open>control.rs\<close>, and links the
    texts with the choice that \<open>Control\<close> keeps.
  \<^item> \<open>Viz_Notice\<close>, \<open>Viz_Utf8\<close>, \<open>Viz_Path\<close>, \<open>Viz_Render\<close> model \<open>viz.js\<close>: the notice and the exported
    tables, the conversion of strings to and from the heap, the path functions, and the
    rendering interface as sequences of calls of the compiled module. \<open>Viz_Render_Correct\<close> proves
    with triples over these sequences that a rendering releases what it obtains, with two
    exceptions that are stated as properties (a rejected input object, an exit of the module).
  \<^item> \<open>Viz_Memfs\<close> models the files of the in-memory file system of \<open>viz.js\<close> and the stream functions on
    them, and proves that they refine lists of bytes, by the interface \<open>byte_file\<close>.

  Conventions. A panic is None in the type \<open>panicking\<close>; an exception of JavaScript is the left side of a
  sum; a JavaScript string is a list of 16-bit units; machine integers are words of their width.
  Clock readings, the contents of \<open>/proc\<close> and of the cgroup file system, and the compiled
  Graphviz are arguments. Numbers of actions and events are natural numbers where the code's
  64-bit counters count things it keeps in memory.

  A panic ends the daemon in the release profile (\<open>panic = "abort"\<close>), so the properties that say when
  one occurs (headers, graphs, receipts) matter for its availability.

  Not modelled: the netlink socket, \<open>auditctl\<close> and start-up (input and output only); the web framework
  with its JSON encoding; \<open>index.html\<close>; of \<open>viz.js\<close> the compiled module, the lookup of paths,
  directories, devices and terminals of its file system, and its system calls, which only that
  module uses apart from the image files of a rendering.
\<close>

end
